theory Spec2Isabelle
  imports Main
begin

section \<open>The daily transfer job (src/main.go and its older variant)\<close>

text \<open>
  The repository holds one Go program in two versions: \<^verbatim>\<open>src/main.go\<close> and an older
  variant (\<^verbatim>\<open>src/unnamed/part_000\<close>). Both parse an execution time, sleep until it is
  due, and then copy a fixed list of counts from PostgreSQL into MySQL, forever.

  The embedding follows the Go text function by function. What the program does to the
  outside (the clock, the two databases, the log, the process exit) is explicit: a
  \<open>world\<close> record is passed through every call, and \<^verbatim>\<open>os.Exit\<close> is the left injection
  of a sum, carrying the exit status and the world the process leaves behind.
  Definitions of the older variant carry the prefix \<open>old_\<close>.
\<close>

subsection \<open>fmt.Sscanf with the format "%d:%d"\<close>

text \<open>
  \<^verbatim>\<open>parseExecutionTime\<close> calls \<^verbatim>\<open>fmt.Sscanf(timeStr, "%d:%d", &hour, &minute)\<close> and drops
  both results of the call. The scanner is modelled on bytes for this one format, after
  \<^verbatim>\<open>fmt/scan.go\<close>: \<^verbatim>\<open>SkipSpace\<close> (newlines are not spaces for the Scanf family), an
  optional sign, one or more decimal digits, \<^verbatim>\<open>strconv.ParseInt\<close> at 64 bits. Go's
  \<^verbatim>\<open>isSpace\<close> also knows spaces beyond ASCII; the model knows the ASCII ones.
\<close>

datatype scan_error =
    UnexpectedEOF
  | UnexpectedNewline
  | ExpectedInteger
  | ValueOutOfRange
  | InputDoesNotMatchFormat

definition isSpace :: "char \<Rightarrow> bool" where
  "isSpace c = (let n = (of_char c :: nat) in (9 \<le> n \<and> n \<le> 13) \<or> n = 32)"

definition isDigit :: "char \<Rightarrow> bool" where
  "isDigit c = (let n = (of_char c :: nat) in 48 \<le> n \<and> n \<le> 57)"

definition digitVal :: "char \<Rightarrow> int" where
  "digitVal c = int (of_char c) - 48"

fun SkipSpace :: "string \<Rightarrow> scan_error + string" where
  "SkipSpace [] = Inr []"
| "SkipSpace (r # rs) =
     (if r = CHR 0x0D \<and> (case rs of [] \<Rightarrow> False | r' # _ \<Rightarrow> r' = CHR 0x0A) then SkipSpace rs
      else if r = CHR 0x0A then Inl UnexpectedNewline
      else if \<not> isSpace r then Inr (r # rs)
      else SkipSpace rs)"

definition decimal :: "string \<Rightarrow> int" where
  "decimal ds = foldl (\<lambda>a c. 10 * a + digitVal c) 0 ds"

definition scanNumber :: "string \<Rightarrow> scan_error + (string \<times> string)" where
  "scanNumber s =
     (case s of
        [] \<Rightarrow> Inl UnexpectedEOF
      | c # _ \<Rightarrow>
          if \<not> isDigit c then Inl ExpectedInteger
          else Inr (takeWhile isDigit s, dropWhile isDigit s))"

definition scanInt :: "string \<Rightarrow> scan_error + (int \<times> string)" where
  "scanInt s =
     (case SkipSpace s of
        Inl e \<Rightarrow> Inl e
      | Inr [] \<Rightarrow> Inl UnexpectedEOF
      | Inr (c # cs) \<Rightarrow>
          (let negative = (c = CHR ''-'');
               afterSign = (if c = CHR ''+'' \<or> c = CHR ''-'' then cs else c # cs)
           in case scanNumber afterSign of
                Inl e \<Rightarrow> Inl e
              | Inr (tok, rest) \<Rightarrow>
                  (let i = (if negative then - decimal tok else decimal tok)
                   in if i < - (2 ^ 63) \<or> 2 ^ 63 - 1 < i then Inl ValueOutOfRange
                      else Inr (i, rest))))"

text \<open>
  The call itself: the two operands are passed in with their current values and come
  back with what the scan stored before it stopped, next to the number of operands
  stored and the error, as \<^verbatim>\<open>Sscanf\<close> returns them.
\<close>

definition Sscanf :: "string \<Rightarrow> int \<times> int \<Rightarrow> (int \<times> int) \<times> nat \<times> scan_error option" where
  "Sscanf str operands =
     (case operands of (hour, minute) \<Rightarrow>
        (case scanInt str of
           Inl e \<Rightarrow> ((hour, minute), 0, Some e)
         | Inr (h, rest) \<Rightarrow>
             (case rest of
                [] \<Rightarrow> ((h, minute), 1, Some UnexpectedEOF)
              | c # rest' \<Rightarrow>
                  if c \<noteq> CHR '':'' then ((h, minute), 1, Some InputDoesNotMatchFormat)
                  else (case scanInt rest' of
                          Inl e \<Rightarrow> ((h, minute), 1, Some e)
                        | Inr (m, _) \<Rightarrow> ((h, m), 2, None)))))"

subsection \<open>parseExecutionTime\<close>

text \<open>
  \<^verbatim>\<open>var hour, minute int; fmt.Sscanf(timeStr, "%d:%d", &hour, &minute); return hour, minute\<close>:
  both variables start at zero, and the count and the error of the scan are not read.
  The function is the same in both variants.
\<close>

definition parseExecutionTime :: "string \<Rightarrow> int \<times> int" where
  "parseExecutionTime timeStr = fst (Sscanf timeStr (0, 0))"

subsection \<open>The time package, as far as main uses it\<close>

text \<open>
  A \<^verbatim>\<open>time.Time\<close> is an instant (nanoseconds since the Unix epoch) with a location. A
  location is the offset in force before its first transition and the list of
  transitions (instant in Unix seconds, offset east of UTC in seconds from then on),
  in increasing order; \<open>lookup\<close> returns the offset in force at an instant with the
  bounds of that period, as \<^verbatim>\<open>Location.lookup\<close> does.

  A calendar date (year, month, day) is carried as the number of the day, counted from
  1970-01-01: \<open>civilDate\<close> stands for the triple \<^verbatim>\<open>now.Year(), now.Month(), now.Day()\<close> and
  for the text \<^verbatim>\<open>Format("2006-01-02")\<close> renders, which names the same day.
\<close>

record location =
  firstOffset :: int
  transitions :: "(int \<times> int) list"

record time =
  wall :: int
  loc :: location

definition alpha :: int where
  "alpha = - (2 ^ 63)"

definition omega :: int where
  "omega = 2 ^ 63 - 1"

fun lookupFrom :: "int \<Rightarrow> int \<Rightarrow> (int \<times> int) list \<Rightarrow> int \<Rightarrow> int \<times> int \<times> int" where
  "lookupFrom offset start [] sec = (offset, start, omega)"
| "lookupFrom offset start ((when, offset') # rest) sec =
     (if sec < when then (offset, start, when) else lookupFrom offset' when rest sec)"

definition lookup :: "location \<Rightarrow> int \<Rightarrow> int \<times> int \<times> int" where
  "lookup l sec = lookupFrom (firstOffset l) alpha (transitions l) sec"

definition Second :: int where
  "Second = 1000000000"

definition Hour :: int where
  "Hour = 3600 * Second"

definition unixSec :: "time \<Rightarrow> int" where
  "unixSec t = wall t div Second"

definition civilSec :: "time \<Rightarrow> int" where
  "civilSec t = unixSec t + fst (lookup (loc t) (unixSec t))"

definition civilDate :: "time \<Rightarrow> int" where
  "civilDate t = civilSec t div 86400"

definition Clock :: "time \<Rightarrow> int \<times> int \<times> int" where
  "Clock t = (let s = civilSec t mod 86400 in (s div 3600, s mod 3600 div 60, s mod 60))"

definition Nanosecond :: "time \<Rightarrow> int" where
  "Nanosecond t = wall t mod Second"

definition Format :: "time \<Rightarrow> int" where
  "Format t = civilDate t"

text \<open>
  \<^verbatim>\<open>time.Date\<close>: the fields are added up as if in UTC, then the zone offset found for
  that reading is subtracted; when the result falls outside the period the offset was
  found in, the offset in force at the result is taken instead.
\<close>

definition Date :: "int \<Rightarrow> int \<Rightarrow> int \<Rightarrow> int \<Rightarrow> int \<Rightarrow> location \<Rightarrow> time" where
  "Date day hour minute sec nsec l =
     (let total = (day * 86400 + hour * 3600 + minute * 60 + sec) * Second + nsec;
          unix = total div Second;
          (offset, start, zend) = lookup l unix;
          unix' =
            (if offset \<noteq> 0 then
               (let utc = unix - offset;
                    offset' = (if utc < start \<or> zend \<le> utc then fst (lookup l utc) else offset)
                in unix - offset')
             else unix)
      in \<lparr>wall = unix' * Second + total mod Second, loc = l\<rparr>)"

definition After :: "time \<Rightarrow> time \<Rightarrow> bool" where
  "After t u = (wall u < wall t)"

definition Add :: "time \<Rightarrow> int \<Rightarrow> time" where
  "Add t d = t\<lparr>wall := wall t + d\<rparr>"

text \<open>
  \<^verbatim>\<open>t.Sub(u)\<close> is a \<^verbatim>\<open>time.Duration\<close>, a 64-bit count of nanoseconds: a difference out of
  its range is the largest, or the smallest, duration.
\<close>

definition maxDuration :: int where
  "maxDuration = 2 ^ 63 - 1"

definition minDuration :: int where
  "minDuration = - (2 ^ 63)"

definition Sub :: "time \<Rightarrow> time \<Rightarrow> int" where
  "Sub t u =
     (let d = wall t - wall u
      in if maxDuration < d then maxDuration else if d < minDuration then minDuration else d)"

subsection \<open>The due time of one loop iteration\<close>

text \<open>
  Lines 31 to 36 of \<^verbatim>\<open>main\<close> (the same in both variants):
  \<^verbatim>\<open>
  execHour, execMinute := parseExecutionTime(*executionTime)
  execution := time.Date(now.Year(), now.Month(), now.Day(), execHour, execMinute, 0, 0, now.Location())
  if now.After(execution) { execution = execution.Add(24 * time.Hour) }
  \<close>
\<close>

definition nextExecution :: "time \<Rightarrow> string \<Rightarrow> time" where
  "nextExecution now executionTime =
     (case parseExecutionTime executionTime of (execHour, execMinute) \<Rightarrow>
        (let execution = Date (civilDate now) execHour execMinute 0 0 (loc now)
         in if After now execution then Add execution (24 * Hour) else execution))"

subsection \<open>The world outside the program\<close>

text \<open>
  The program sees the wall clock, the two database servers and the standard error
  stream. The first six fields of \<open>world\<close> are the surroundings, which no function of the
  program updates but \<open>clock\<close>: the local time zone, what the analytical store answers to
  a query text that reaches it at an instant, how long a database round trip begun at
  an instant takes, whether \<^verbatim>\<open>sql.Open\<close> refuses a data source name, and any error the
  destination reports for reasons other than its tables (the connection, the server's
  range checks). The others are what the program leaves behind: the destination's tables
  (table name to rows, a row being a date with its count; the date is the primary key),
  the calls of \<^verbatim>\<open>QueryRow\<close> (the queries sent to the source) and the calls of \<^verbatim>\<open>Exec\<close>
  (the statements sent to the destination, with their arguments), each with its
  instant, the log, and the database handles that are open.
\<close>

datatype driver = Postgres | MySQL

datatype sql_error =
    ErrNoRows
  | ErrConvertNull
  | ErrDuplicateEntry
  | ErrNoSuchTable
  | ErrDriver string

datatype answer =
    Row int
  | NoRow
  | NullValue
  | QueryFailed string

datatype log_line =
    DSNMustBeProvided
  | Usage
  | StartingDataTransfer
  | FailedToConnectPostgreSQL sql_error
  | FailedToConnectMySQL sql_error
  | FailedToExecuteQuery string sql_error
  | FailedToInsert string sql_error
  | SuccessfullyInserted string int int
  | DataTransferCompleted
  | FailedToExecuteQueryOld sql_error
  | FailedToInsertOld sql_error

record world =
  clock :: int
  zone :: location
  source :: "int \<Rightarrow> string \<Rightarrow> answer"
  roundTrip :: "int \<Rightarrow> int"
  openError :: "driver \<Rightarrow> string \<Rightarrow> sql_error option"
  destFault :: "int \<Rightarrow> string \<Rightarrow> int \<Rightarrow> int \<Rightarrow> sql_error option"
  tables :: "string \<rightharpoonup> (int \<rightharpoonup> int)"
  queryRowCalls :: "(int \<times> string) list"
  execCalls :: "(int \<times> string \<times> int \<times> int) list"
  logged :: "log_line list"
  handles :: "(nat \<times> driver) list"
  nextHandle :: nat

text \<open>
  A call either returns or ends the process: \<open>Inl (status, w)\<close> is \<^verbatim>\<open>os.Exit(status)\<close>
  in the world \<open>w\<close>. Deferred calls do not run when the process exits. \<open>andThen\<close> is the
  sequencing of two statements: the second runs when the first returned.
\<close>

type_synonym exit = "int \<times> world"

definition Exit :: "int \<Rightarrow> world \<Rightarrow> exit + 'a" where
  "Exit status w = Inl (status, w)"

definition andThen :: "exit + 'a \<Rightarrow> ('a \<Rightarrow> exit + 'b) \<Rightarrow> exit + 'b" where
  "andThen r f = (case r of Inl e \<Rightarrow> Inl e | Inr x \<Rightarrow> f x)"

definition Printf :: "log_line \<Rightarrow> world \<Rightarrow> world" where
  "Printf line w = w\<lparr>logged := logged w @ [line]\<rparr>"

definition Fatalf :: "log_line \<Rightarrow> world \<Rightarrow> exit + 'a" where
  "Fatalf line w = Exit 1 (Printf line w)"

definition Now :: "world \<Rightarrow> time" where
  "Now w = \<lparr>wall = clock w, loc = zone w\<rparr>"

definition Until :: "time \<Rightarrow> world \<Rightarrow> int" where
  "Until t w = Sub t (Now w)"

definition Sleep :: "int \<Rightarrow> world \<Rightarrow> world" where
  "Sleep d w = (if d \<le> 0 then w else w\<lparr>clock := clock w + d\<rparr>)"

subsection \<open>database/sql\<close>

text \<open>
  \<^verbatim>\<open>sql.Open\<close> checks the data source name and hands out a handle; it does not talk to
  the server. \<^verbatim>\<open>db.Close()\<close> gives the handle back.
\<close>

definition Open :: "driver \<Rightarrow> string \<Rightarrow> world \<Rightarrow> (sql_error + nat) \<times> world" where
  "Open driverName dsn w =
     (case openError w driverName dsn of
        Some err \<Rightarrow> (Inl err, w)
      | None \<Rightarrow>
          (Inr (nextHandle w),
           w\<lparr>handles := handles w @ [(nextHandle w, driverName)],
             nextHandle := nextHandle w + 1\<rparr>))"

definition Close :: "nat \<Rightarrow> world \<Rightarrow> world" where
  "Close db w = w\<lparr>handles := filter (\<lambda>h. fst h \<noteq> db) (handles w)\<rparr>"

text \<open>
  \<^verbatim>\<open>db.QueryRow(query).Scan(&count)\<close>: the query is sent to the source, which answers; one row
  with an integer is stored into \<open>count\<close>, no row is \<^verbatim>\<open>sql.ErrNoRows\<close>, a NULL is a
  conversion error, anything else is the driver's error. The result is the error and the
  value of \<open>count\<close> after the call.
\<close>

definition QueryRowScan :: "nat \<Rightarrow> string \<Rightarrow> int \<Rightarrow> world \<Rightarrow> sql_error option \<times> int \<times> world" where
  "QueryRowScan db query count w =
     (let t = clock w;
          w' = w\<lparr>clock := t + roundTrip w t, queryRowCalls := queryRowCalls w @ [(t, query)]\<rparr>
      in case source w t query of
           Row n \<Rightarrow> (None, n, w')
         | NoRow \<Rightarrow> (Some ErrNoRows, count, w')
         | NullValue \<Rightarrow> (Some ErrConvertNull, count, w')
         | QueryFailed msg \<Rightarrow> (Some (ErrDriver msg), count, w'))"

text \<open>
  \<^verbatim>\<open>db.Exec(query, date, count)\<close> for the one statement the program sends,
  \<^verbatim>\<open>INSERT INTO <table> (date, count) VALUES (?, ?)\<close>: the destination reads the table's
  name out of the statement and adds the row, unless the table is missing or has a row
  for that date already.
\<close>

definition insertPrefix :: string where
  "insertPrefix = ''INSERT INTO ''"

definition insertSuffix :: string where
  "insertSuffix = '' (date, count) VALUES (?, ?)''"

definition tableOf :: "string \<Rightarrow> string option" where
  "tableOf query =
     (let n = length query; p = length insertPrefix; s = length insertSuffix
      in if p + s \<le> n \<and> take p query = insertPrefix \<and> drop (n - s) query = insertSuffix
         then Some (take (n - p - s) (drop p query))
         else None)"

definition Exec :: "nat \<Rightarrow> string \<Rightarrow> int \<Rightarrow> int \<Rightarrow> world \<Rightarrow> sql_error option \<times> world" where
  "Exec db query date count w =
     (let t = clock w;
          w' = w\<lparr>clock := t + roundTrip w t, execCalls := execCalls w @ [(t, query, date, count)]\<rparr>
      in case destFault w t query date count of
           Some err \<Rightarrow> (Some err, w')
         | None \<Rightarrow>
             (case tableOf query of
                None \<Rightarrow> (Some (ErrDriver ''syntax error''), w')
              | Some tableName \<Rightarrow>
                  (case tables w tableName of
                     None \<Rightarrow> (Some ErrNoSuchTable, w')
                   | Some rows \<Rightarrow>
                       (case rows date of
                          Some _ \<Rightarrow> (Some ErrDuplicateEntry, w')
                        | None \<Rightarrow>
                            (None, w'\<lparr>tables := (tables w)(tableName \<mapsto> rows(date \<mapsto> count))\<rparr>)))))"

subsection \<open>src/main.go: queryCount, insertToMySQL, transferData\<close>

definition queryCount :: "nat \<Rightarrow> string \<Rightarrow> world \<Rightarrow> exit + (int \<times> world)" where
  "queryCount db query w =
     (case QueryRowScan db query 0 w of
        (Some err, count, w') \<Rightarrow> Exit 1 (Printf (FailedToExecuteQuery query err) w')
      | (None, count, w') \<Rightarrow> Inr (count, w'))"

definition Sprintf :: "string \<Rightarrow> string" where
  "Sprintf tableName = insertPrefix @ tableName @ insertSuffix"

definition insertToMySQL :: "nat \<Rightarrow> string \<Rightarrow> int \<Rightarrow> int \<Rightarrow> world \<Rightarrow> exit + world" where
  "insertToMySQL db tableName date count w =
     (let query = Sprintf tableName
      in case Exec db query date count w of
           (Some err, w') \<Rightarrow> Exit 1 (Printf (FailedToInsert query err) w')
         | (None, w') \<Rightarrow> Inr (Printf (SuccessfullyInserted tableName date count) w'))"

abbreviation TAB :: string where
  "TAB \<equiv> [CHR 0x09]"

abbreviation NL :: string where
  "NL \<equiv> [CHR 0x0A]"

abbreviation QUOTE :: string where
  "QUOTE \<equiv> [CHR 0x27]"

definition AleoActiveMachineQuery :: string where
  "AleoActiveMachineQuery =
     ''SELECT count('' @ ''*) FROM machine m WHERE to_timestamp(m.last_commit_solution) >= DATE(NOW()) AND project='ALEO'' @ QUOTE"

definition QuaiActiveMachineQuery :: string where
  "QuaiActiveMachineQuery =
     ''SELECT count('' @ ''*) FROM machine m WHERE to_timestamp(m.last_commit_solution) >= DATE(NOW()) AND project='Quai_Garden'' @ QUOTE"

definition lostUsersQuery :: string where
  "lostUsersQuery =
     ''WITH machine_activity AS ('' @ NL @
     TAB @ TAB @ ''SELECT ma.main_user_id, MAX(m.last_commit_solution) AS max_last_commit_solution'' @ NL @
     TAB @ TAB @ ''FROM miner_account ma'' @ NL @
     TAB @ TAB @ ''JOIN machine m ON m.miner_account_id = ma.id'' @ NL @
     TAB @ TAB @ ''GROUP BY ma.main_user_id'' @ NL @
     TAB @ '')'' @ NL @
     TAB @ ''SELECT COUNT(distinct u.email) FROM public.\"user\" u'' @ NL @
     TAB @ ''LEFT JOIN machine_activity ma ON ma.main_user_id = u.id'' @ NL @
     TAB @ ''WHERE  to_timestamp(ma.max_last_commit_solution) < (DATE_TRUNC('day', NOW()) - INTERVAL '1 days')''"

definition AleoactiveMachinesChannelQuery :: string where
  "AleoactiveMachinesChannelQuery =
     ''WITH select_user AS('' @ NL @
     TAB @ TAB @ ''SELECT u.email, ma.id, ma.name'' @ NL @
     TAB @ TAB @ ''FROM miner_account ma'' @ NL @
     TAB @ TAB @ ''LEFT JOIN \"public\".\"user\" u ON u.id = ma.main_user_id'' @ NL @
     TAB @ TAB @ ''LEFT JOIN invitation_code ic ON ic.\"id\" = u.invitation_code_id'' @ NL @
     TAB @ TAB @ ''WHERE ic.tag in ('' @ NL @
     TAB @ TAB @ TAB @ ''SELECT tag'' @ NL @
     TAB @ TAB @ TAB @ TAB @ ''FROM bonus_obj'' @ NL @
     TAB @ TAB @ TAB @ TAB @ ''WHERE user_id IS NULL '' @ NL @
     TAB @ TAB @ TAB @ TAB @ TAB @ ''AND project = 'ALEO' '' @ NL @
     TAB @ TAB @ TAB @ TAB @ TAB @ ''AND tag !='default'' @ QUOTE @ NL @
     TAB @ TAB @ TAB @ TAB @ '')'' @ NL @
     TAB @ '')'' @ NL @
     TAB @ ''SELECT count('' @ ''*) FROM machine m '' @ NL @
     TAB @ ''JOIN select_user su ON m.miner_account_id = su.id'' @ NL @
     TAB @ ''WHERE to_timestamp(m.last_commit_solution) >= DATE(NOW())''"

definition QuaiActiveMachinesChannelQuery :: string where
  "QuaiActiveMachinesChannelQuery =
     ''WITH select_user AS('' @ NL @
     TAB @ TAB @ ''SELECT u.email, ma.id, ma.name'' @ NL @
     TAB @ TAB @ ''FROM miner_account ma'' @ NL @
     TAB @ TAB @ ''LEFT JOIN \"public\".\"user\" u ON u.id = ma.main_user_id'' @ NL @
     TAB @ TAB @ ''LEFT JOIN invitation_code ic ON ic.\"id\" = u.invitation_code_id'' @ NL @
     TAB @ TAB @ ''WHERE ic.tag in ('' @ NL @
     TAB @ TAB @ TAB @ ''SELECT tag'' @ NL @
     TAB @ TAB @ TAB @ TAB @ ''FROM bonus_obj'' @ NL @
     TAB @ TAB @ TAB @ TAB @ ''WHERE user_id IS NULL '' @ NL @
     TAB @ TAB @ TAB @ TAB @ TAB @ ''AND project = 'Quai_Garden '' @ NL @
     TAB @ TAB @ TAB @ TAB @ TAB @ ''AND tag !='default'' @ QUOTE @ NL @
     TAB @ TAB @ TAB @ TAB @ '')'' @ NL @
     TAB @ '')'' @ NL @
     TAB @ ''SELECT count('' @ ''*) FROM machine m '' @ NL @
     TAB @ ''JOIN select_user su ON m.miner_account_id = su.id'' @ NL @
     TAB @ ''WHERE to_timestamp(m.last_commit_solution) >= DATE(NOW())''"

definition transferData :: "string \<Rightarrow> string \<Rightarrow> world \<Rightarrow> exit + world" where
  "transferData pgDsn mysqlDsn w0 =
     (let w1 = Printf StartingDataTransfer w0
      in case Open Postgres pgDsn w1 of
           (Inl err, w2) \<Rightarrow> Fatalf (FailedToConnectPostgreSQL err) w2
         | (Inr pgDb, w2) \<Rightarrow>
             (case Open MySQL mysqlDsn w2 of
                (Inl err, w3) \<Rightarrow> Fatalf (FailedToConnectMySQL err) w3
              | (Inr sqlDb, w3) \<Rightarrow>
                  (let today = Format (Now w3)
                   in
                   andThen (queryCount pgDb AleoActiveMachineQuery w3) (\<lambda>(AleoActiveMachineCount, w).
                   andThen (insertToMySQL sqlDb ''active_machines_count_aleo'' today AleoActiveMachineCount w) (\<lambda>w.
                   andThen (queryCount pgDb QuaiActiveMachineQuery w) (\<lambda>(QuaiActiveMachineCount, w).
                   andThen (insertToMySQL sqlDb ''active_machines_count_quai_garden'' today QuaiActiveMachineCount w) (\<lambda>w.
                   andThen (queryCount pgDb lostUsersQuery w) (\<lambda>(lostUsersCount, w).
                   andThen (insertToMySQL sqlDb ''lost_users_count'' today lostUsersCount w) (\<lambda>w.
                   andThen (queryCount pgDb AleoactiveMachinesChannelQuery w) (\<lambda>(AleoActiveMachinesChannelCount, w).
                   andThen (insertToMySQL sqlDb ''active_channel_machines_count_aleo'' today AleoActiveMachinesChannelCount w) (\<lambda>w.
                   andThen (queryCount pgDb QuaiActiveMachinesChannelQuery w) (\<lambda>(QuaiActiveMachinesChannelCount, w).
                   andThen (insertToMySQL sqlDb ''active_channel_machines_count_quai_garden'' today QuaiActiveMachinesChannelCount w) (\<lambda>w.
                   Inr (Close pgDb (Close sqlDb (Printf DataTransferCompleted w))))))))))))))))"

subsection \<open>src/main.go: main\<close>

text \<open>
  The flags as \<^verbatim>\<open>flag.Parse\<close> leaves them (\<^verbatim>\<open>*executionTime\<close>, \<^verbatim>\<open>*pgDsn\<close>, \<^verbatim>\<open>*mysqlDsn\<close>). One iteration of the \<^verbatim>\<open>for\<close> loop is
  \<open>loopBody\<close>; the loop itself has no exit of its own, so \<open>forever\<close> is \<open>None\<close> when no
  iteration ends the process, and the exit of the first iteration that does otherwise.
\<close>

record flags =
  flagExecutionTime :: string
  flagPgDsn :: string
  flagMysqlDsn :: string

definition loopBody :: "flags \<Rightarrow> world \<Rightarrow> exit + world" where
  "loopBody fl w =
     (let now = Now w;
          execution = nextExecution now (flagExecutionTime fl);
          w' = Sleep (Until execution w) w
      in transferData (flagPgDsn fl) (flagMysqlDsn fl) w')"

partial_function (option) forever :: "flags \<Rightarrow> world \<Rightarrow> exit option" where
  "forever fl w = (case loopBody fl w of Inl e \<Rightarrow> Some e | Inr w' \<Rightarrow> forever fl w')"

definition main :: "flags \<Rightarrow> world \<Rightarrow> exit option" where
  "main fl w =
     (if flagPgDsn fl = [] \<or> flagMysqlDsn fl = [] then
        Some (1, Printf Usage (Printf DSNMustBeProvided w))
      else forever fl w)"

text \<open>
  The world in which the run of an iteration starts: the one \<open>loopBody\<close> binds to \<open>w'\<close>,
  after the sleep.
\<close>

definition dueWorld :: "flags \<Rightarrow> world \<Rightarrow> world" where
  "dueWorld fl w = Sleep (Until (nextExecution (Now w) (flagExecutionTime fl)) w) w"

subsection \<open>The older variant (src/unnamed/part_000)\<close>

text \<open>
  The older variant has the same \<^verbatim>\<open>parseExecutionTime\<close> and the same loop. Its helpers
  end the process through \<^verbatim>\<open>log.Fatalf\<close>, which prints and calls \<^verbatim>\<open>os.Exit(1)\<close>; it
  prints nothing on success, transfers four metrics, and its \<^verbatim>\<open>main\<close> does not look at
  the data source names.
\<close>

definition old_queryCount :: "nat \<Rightarrow> string \<Rightarrow> world \<Rightarrow> exit + (int \<times> world)" where
  "old_queryCount db query w =
     (case QueryRowScan db query 0 w of
        (Some err, count, w') \<Rightarrow> Fatalf (FailedToExecuteQueryOld err) w'
      | (None, count, w') \<Rightarrow> Inr (count, w'))"

definition old_insertToMySQL :: "nat \<Rightarrow> string \<Rightarrow> int \<Rightarrow> int \<Rightarrow> world \<Rightarrow> exit + world" where
  "old_insertToMySQL db tableName date count w =
     (let query = Sprintf tableName
      in case Exec db query date count w of
           (Some err, w') \<Rightarrow> Fatalf (FailedToInsertOld err) w'
         | (None, w') \<Rightarrow> Inr w')"

definition old_machineQuery :: string where
  "old_machineQuery =
     ''SELECT count('' @ ''*) FROM machine m WHERE to_timestamp(m.last_commit_solution) >= DATE(NOW())''"

definition old_activeMachineQuery :: string where
  "old_activeMachineQuery =
     ''SELECT count('' @ ''*) FROM machine m WHERE to_timestamp(m.last_commit_solution) >= DATE(NOW())''"

definition old_lostUsersQuery :: string where
  "old_lostUsersQuery =
     ''WITH machine_activity AS ('' @ NL @
     TAB @ TAB @ ''SELECT ma.main_user_id, MAX(m.last_commit_solution) AS max_last_commit_solution'' @ NL @
     TAB @ TAB @ ''FROM miner_account ma'' @ NL @
     TAB @ TAB @ ''JOIN machine m ON m.miner_account_id = ma.id'' @ NL @
     TAB @ TAB @ ''GROUP BY ma.main_user_id'' @ NL @
     TAB @ '')'' @ NL @
     TAB @ ''SELECT COUNT(u.email) FROM public.\"user\" u'' @ NL @
     TAB @ ''LEFT JOIN machine_activity ma ON ma.main_user_id = u.id'' @ NL @
     TAB @ ''WHERE ma.max_last_commit_solution IS NULL'' @ NL @
     TAB @ ''OR to_timestamp(ma.max_last_commit_solution) < (DATE_TRUNC('day', NOW()) - INTERVAL '2 days')''"

definition old_activeMachinesChannelQuery :: string where
  "old_activeMachinesChannelQuery =
     ''WITH select_user AS('' @ NL @
     TAB @ TAB @ ''SELECT u.email, ma.id, ma.name'' @ NL @
     TAB @ TAB @ ''FROM miner_account ma'' @ NL @
     TAB @ TAB @ ''LEFT JOIN \"public\".\"user\" u ON u.id = ma.main_user_id'' @ NL @
     TAB @ TAB @ ''LEFT JOIN invitation_code ic ON ic.\"id\" = u.invitation_code_id'' @ NL @
     TAB @ TAB @ ''WHERE ic.tag = 'zklion'' @ QUOTE @ NL @
     TAB @ '')'' @ NL @
     TAB @ ''SELECT count('' @ ''*) FROM machine m '' @ NL @
     TAB @ ''JOIN select_user su ON m.miner_account_id = su.id'' @ NL @
     TAB @ ''WHERE to_timestamp(m.last_commit_solution) >= DATE(NOW())''"

definition old_transferData :: "string \<Rightarrow> string \<Rightarrow> world \<Rightarrow> exit + world" where
  "old_transferData pgDsn mysqlDsn w0 =
     (case Open Postgres pgDsn w0 of
        (Inl err, w1) \<Rightarrow> Fatalf (FailedToConnectPostgreSQL err) w1
      | (Inr pgDb, w1) \<Rightarrow>
          (case Open MySQL mysqlDsn w1 of
             (Inl err, w2) \<Rightarrow> Fatalf (FailedToConnectMySQL err) w2
           | (Inr sqlDb, w2) \<Rightarrow>
               (let today = Format (Now w2)
                in
                andThen (old_queryCount pgDb old_machineQuery w2) (\<lambda>(machineCount, w).
                andThen (old_insertToMySQL sqlDb ''machines_count'' today machineCount w) (\<lambda>w.
                andThen (old_queryCount pgDb old_activeMachineQuery w) (\<lambda>(activeMachineCount, w).
                andThen (old_insertToMySQL sqlDb ''active_machines_count'' today activeMachineCount w) (\<lambda>w.
                andThen (old_queryCount pgDb old_lostUsersQuery w) (\<lambda>(lostUsersCount, w).
                andThen (old_insertToMySQL sqlDb ''lost_users_count'' today lostUsersCount w) (\<lambda>w.
                andThen (old_queryCount pgDb old_activeMachinesChannelQuery w) (\<lambda>(activeMachinesChannelCount, w).
                andThen (old_insertToMySQL sqlDb ''active_channel_machines_count'' today activeMachinesChannelCount w) (\<lambda>w.
                Inr (Close pgDb (Close sqlDb w)))))))))))))"

definition old_loopBody :: "flags \<Rightarrow> world \<Rightarrow> exit + world" where
  "old_loopBody fl w =
     (let now = Now w;
          execution = nextExecution now (flagExecutionTime fl);
          w' = Sleep (Until execution w) w
      in old_transferData (flagPgDsn fl) (flagMysqlDsn fl) w')"

partial_function (option) old_forever :: "flags \<Rightarrow> world \<Rightarrow> exit option" where
  "old_forever fl w = (case old_loopBody fl w of Inl e \<Rightarrow> Some e | Inr w' \<Rightarrow> old_forever fl w')"

definition old_main :: "flags \<Rightarrow> world \<Rightarrow> exit option" where
  "old_main fl w = old_forever fl w"

subsection \<open>The metric list, for the proofs\<close>

text \<open>
  \<^verbatim>\<open>transferData\<close> is straight-line code: one \<^verbatim>\<open>queryCount\<close> and one \<^verbatim>\<open>insertToMySQL\<close>
  per metric, in a fixed order. The proofs read it as a loop over the list of its
  (table, query) pairs; lemmas \<open>transferData_runMetrics\<close> and
  \<open>old_transferData_runMetrics\<close> show that the two readings are the same function.
\<close>

definition catalog :: "(string \<times> string) list" where
  "catalog =
     [(''active_machines_count_aleo'', AleoActiveMachineQuery),
      (''active_machines_count_quai_garden'', QuaiActiveMachineQuery),
      (''lost_users_count'', lostUsersQuery),
      (''active_channel_machines_count_aleo'', AleoactiveMachinesChannelQuery),
      (''active_channel_machines_count_quai_garden'', QuaiActiveMachinesChannelQuery)]"

definition old_catalog :: "(string \<times> string) list" where
  "old_catalog =
     [(''machines_count'', old_machineQuery),
      (''active_machines_count'', old_activeMachineQuery),
      (''lost_users_count'', old_lostUsersQuery),
      (''active_channel_machines_count'', old_activeMachinesChannelQuery)]"

fun runMetrics ::
  "(nat \<Rightarrow> string \<Rightarrow> world \<Rightarrow> exit + (int \<times> world)) \<Rightarrow>
   (nat \<Rightarrow> string \<Rightarrow> int \<Rightarrow> int \<Rightarrow> world \<Rightarrow> exit + world) \<Rightarrow>
   nat \<Rightarrow> nat \<Rightarrow> int \<Rightarrow> (string \<times> string) list \<Rightarrow> world \<Rightarrow> exit + world" where
  "runMetrics qc ins pgDb sqlDb today [] w = Inr w"
| "runMetrics qc ins pgDb sqlDb today ((tableName, query) # ms) w =
     andThen (qc pgDb query w) (\<lambda>(count, w').
     andThen (ins sqlDb tableName today count w') (runMetrics qc ins pgDb sqlDb today ms))"

text \<open>The world a call ends in, whichever way it ends.\<close>

definition finalWorld :: "exit + world \<Rightarrow> world" where
  "finalWorld r = (case r of Inl (status, w) \<Rightarrow> w | Inr w \<Rightarrow> w)"

text \<open>
  What was sent to the source, and what was sent to the destination, since \<open>w\<close>; and the
  count a table of the destination holds for a date.
\<close>

definition issued :: "world \<Rightarrow> world \<Rightarrow> (int \<times> string) list" where
  "issued w w' = drop (length (queryRowCalls w)) (queryRowCalls w')"

definition recorded :: "world \<Rightarrow> string \<Rightarrow> int \<Rightarrow> int option" where
  "recorded w tableName date = (case tables w tableName of None \<Rightarrow> None | Some rows \<Rightarrow> rows date)"

definition written :: "world \<Rightarrow> world \<Rightarrow> (int \<times> string \<times> int \<times> int) list" where
  "written w w' = drop (length (execCalls w)) (execCalls w')"

text \<open>
  The two helpers of the two variants differ in what they print. What the proofs need of
  a \<^verbatim>\<open>queryCount\<close> and of an \<^verbatim>\<open>insertToMySQL\<close> is how they follow the driver's call: exit
  with status 1 after one more log line when it fails, return when it succeeds.
\<close>

definition countsLike :: "(nat \<Rightarrow> string \<Rightarrow> world \<Rightarrow> exit + (int \<times> world)) \<Rightarrow> bool" where
  "countsLike qc =
     (\<forall>db query w.
        (case QueryRowScan db query 0 w of
           (Some err, count, w') \<Rightarrow> (\<exists>line. qc db query w = Inl (1, Printf line w'))
         | (None, count, w') \<Rightarrow> qc db query w = Inr (count, w')))"

definition insertsLike :: "(nat \<Rightarrow> string \<Rightarrow> int \<Rightarrow> int \<Rightarrow> world \<Rightarrow> exit + world) \<Rightarrow> bool" where
  "insertsLike ins =
     (\<forall>db tableName date count w.
        (case Exec db (Sprintf tableName) date count w of
           (Some err, w') \<Rightarrow> (\<exists>line. ins db tableName date count w = Inl (1, Printf line w'))
         | (None, w') \<Rightarrow> (\<exists>lines. ins db tableName date count w = Inr (w'\<lparr>logged := logged w' @ lines\<rparr>))))"

subsection \<open>Stating the claims: well-formed times, zones, and some worlds\<close>

text \<open>
  \<open>hhmm h m\<close> is the text \<^verbatim>\<open>HH:MM\<close> of two two-digit numbers. \<open>timeOfDay\<close> is the
  reading of the local clock in nanoseconds since local midnight. \<open>offsetAt\<close> is the offset
  a location has in force at an instant. \<open>steadyDays now\<close> says that the offset in force
  at \<open>now\<close> is in force at every instant of today and of tomorrow (the two local days
  that begin at today's local midnight), and at every instant of the UTC day that has
  today's date, which is where \<^verbatim>\<open>time.Date\<close> looks the offset up first.
\<close>

definition digitChar :: "int \<Rightarrow> char" where
  "digitChar d = char_of (48 + nat d)"

definition hhmm :: "int \<Rightarrow> int \<Rightarrow> string" where
  "hhmm h m =
     [digitChar (h div 10), digitChar (h mod 10), CHR '':'',
      digitChar (m div 10), digitChar (m mod 10)]"

definition timeOfDay :: "time \<Rightarrow> int" where
  "timeOfDay t = (civilSec t mod 86400) * Second + Nanosecond t"

definition offsetAt :: "location \<Rightarrow> int \<Rightarrow> int" where
  "offsetAt l sec = fst (lookup l sec)"

definition steadyDays :: "time \<Rightarrow> bool" where
  "steadyDays now =
     (let off = offsetAt (loc now) (unixSec now); day = civilDate now
      in \<forall>sec. (day * 86400 - off \<le> sec \<and> sec < (day + 2) * 86400 - off) \<or>
               (day * 86400 \<le> sec \<and> sec < (day + 1) * 86400) \<longrightarrow>
               offsetAt (loc now) sec = off)"

definition UTC :: location where
  "UTC = \<lparr>firstOffset = 0, transitions = []\<rparr>"

text \<open>
  New York in 2024: UTC-5 until 2024-03-10 07:00:00 UTC, UTC-4 until
  2024-11-03 06:00:00 UTC, UTC-5 after.
\<close>

definition newYork2024 :: location where
  "newYork2024 = \<lparr>firstOffset = - 18000, transitions = [(1710054000, - 14400), (1730613600, - 18000)]\<rparr>"

text \<open>
  \<open>quietWorld\<close>: 2024-03-01 22:00:00 UTC (day 19783), every table of both variants
  there and empty, a source that answers every query with the count 7, one second per
  round trip, and nothing that fails. The other worlds change one thing each: the first
  query of \<^verbatim>\<open>main.go\<close> fails; every query fails; every table of \<^verbatim>\<open>main.go\<close> has its row
  for day 19783 already; the source counts 5 during the first second and 6 afterwards;
  the run starts one second before midnight; the source has no row; the source has a
  NULL; the destination cannot be reached; the third query of either variant fails.
\<close>

definition emptyTables :: "string list \<Rightarrow> (string \<rightharpoonup> (int \<rightharpoonup> int))" where
  "emptyTables names = map_of (map (\<lambda>n. (n, Map.empty)) names)"

definition quietWorld :: world where
  "quietWorld =
     \<lparr>clock = 1709330400 * Second,
      zone = UTC,
      source = (\<lambda>t query. Row 7),
      roundTrip = (\<lambda>t. Second),
      openError = (\<lambda>driverName dsn. None),
      destFault = (\<lambda>t query date count. None),
      tables = emptyTables (map fst catalog @ map fst old_catalog),
      queryRowCalls = [],
      execCalls = [],
      logged = [],
      handles = [],
      nextHandle = 0\<rparr>"

definition failingSourceWorld :: world where
  "failingSourceWorld =
     quietWorld\<lparr>source := (\<lambda>t query. if query = AleoActiveMachineQuery then QueryFailed ''timeout'' else Row 7)\<rparr>"

definition downSourceWorld :: world where
  "downSourceWorld = quietWorld\<lparr>source := (\<lambda>t query. QueryFailed ''connection refused'')\<rparr>"

definition recordedWorld :: world where
  "recordedWorld =
     quietWorld\<lparr>tables := map_of (map (\<lambda>n. (n, [19783 \<mapsto> 7])) (map fst catalog))\<rparr>"

definition driftingSourceWorld :: world where
  "driftingSourceWorld =
     quietWorld\<lparr>source := (\<lambda>t query. if t < 1709330401 * Second then Row 5 else Row 6)\<rparr>"

definition midnightWorld :: world where
  "midnightWorld = quietWorld\<lparr>clock := 1709337599 * Second\<rparr>"

definition emptySourceWorld :: world where
  "emptySourceWorld = quietWorld\<lparr>source := (\<lambda>t query. NoRow)\<rparr>"

definition nullSourceWorld :: world where
  "nullSourceWorld = quietWorld\<lparr>source := (\<lambda>t query. NullValue)\<rparr>"

definition lostConnectionWorld :: world where
  "lostConnectionWorld =
     quietWorld\<lparr>destFault := (\<lambda>t query date count. Some (ErrDriver ''connection lost''))\<rparr>"

definition lostUsersFailWorld :: world where
  "lostUsersFailWorld =
     quietWorld\<lparr>source := (\<lambda>t query.
       if query = lostUsersQuery \<or> query = old_lostUsersQuery then QueryFailed ''timeout'' else Row 7)\<rparr>"

definition someFlags :: flags where
  "someFlags = \<lparr>flagExecutionTime = ''23:00'', flagPgDsn = ''pg'', flagMysqlDsn = ''my''\<rparr>"

definition noDsnFlags :: flags where
  "noDsnFlags = \<lparr>flagExecutionTime = ''23:00'', flagPgDsn = [], flagMysqlDsn = []\<rparr>"

text \<open>
  Four instants in New York: 2024-06-15 at 22:00:00 and at 23:30:00 (a day of summer
  time like the days around it), 2024-11-03 23:30:00 (the day the clocks go back, which
  lasts 25 hours) and 2024-03-09 23:30:00 (the eve of the day they go forward).
\<close>

definition juneEvening :: time where
  "juneEvening = \<lparr>wall = 1718503200 * Second, loc = newYork2024\<rparr>"

definition juneNight :: time where
  "juneNight = \<lparr>wall = 1718508600 * Second, loc = newYork2024\<rparr>"

definition fallBackEvening :: time where
  "fallBackEvening = \<lparr>wall = 1730694600 * Second, loc = newYork2024\<rparr>"

definition springEve :: time where
  "springEve = \<lparr>wall = 1710045000 * Second, loc = newYork2024\<rparr>"

section \<open>Lemmas\<close>

subsection \<open>Scanning a well-formed time\<close>

lemma of_char_digitChar: "0 \<le> d \<Longrightarrow> d \<le> 9 \<Longrightarrow> (of_char (digitChar d) :: nat) = 48 + nat d"
  by (simp add: digitChar_def of_char_of)

lemma digitChar_facts:
  assumes "0 \<le> d" "d \<le> 9"
  shows "isDigit (digitChar d)" "\<not> isSpace (digitChar d)" "digitVal (digitChar d) = d"
    "digitChar d \<noteq> CHR 0x0D" "digitChar d \<noteq> CHR 0x0A" "digitChar d \<noteq> CHR ''+''" "digitChar d \<noteq> CHR ''-''"
  using of_char_digitChar[OF assms] assms
  by (auto simp: isDigit_def isSpace_def digitVal_def)

lemma colon_not_digit: "\<not> isDigit (CHR '':'')"
  by (simp add: isDigit_def)

lemma scanInt_two_digits:
  assumes "0 \<le> a" "a \<le> 9" "0 \<le> b" "b \<le> 9" "rest = [] \<or> \<not> isDigit (hd rest)"
  shows "scanInt (digitChar a # digitChar b # rest) = Inr (10 * a + b, rest)"
proof -
  have tw: "takeWhile isDigit rest = []" and dw: "dropWhile isDigit rest = rest"
    using assms(5) by (cases rest; simp)+
  show ?thesis
    using assms(1-4) 
    by (simp add: scanInt_def scanNumber_def digitChar_facts tw dw decimal_def)
qed

lemma parseExecutionTime_hhmm:
  assumes "0 \<le> h" "h \<le> 99" "0 \<le> m" "m \<le> 99"
  shows "parseExecutionTime (hhmm h m) = (h, m)"
proof -
  have h: "0 \<le> h div 10" "h div 10 \<le> 9" "0 \<le> h mod 10" "h mod 10 \<le> 9" using assms by auto
  have m: "0 \<le> m div 10" "m div 10 \<le> 9" "0 \<le> m mod 10" "m mod 10 \<le> 9" using assms by auto
  have 1: "scanInt (hhmm h m) = Inr (h, [CHR '':'', digitChar (m div 10), digitChar (m mod 10)])"
    unfolding hhmm_def using scanInt_two_digits[OF h, of "[CHR '':'', digitChar (m div 10), digitChar (m mod 10)]"]
    by (simp add: colon_not_digit)
  have 2: "scanInt [digitChar (m div 10), digitChar (m mod 10)] = Inr (m, [])"
    using scanInt_two_digits[OF m, of "[]"] by simp
  show ?thesis
    by (simp add: parseExecutionTime_def Sscanf_def 1 2)
qed

text \<open>Dates and readings while the offset is steady.\<close>

lemma Date_steady:
  assumes st: "\<forall>sec. (day * 86400 - off \<le> sec \<and> sec < (day + 2) * 86400 - off) \<or>
               (day * 86400 \<le> sec \<and> sec < (day + 1) * 86400) \<longrightarrow> offsetAt l sec = off"
    and s: "s = hour * 3600 + minute * 60" "0 \<le> s" "s < 86400"
  shows "Date day hour minute 0 0 l = \<lparr>wall = (day * 86400 + s - off) * Second, loc = l\<rparr>"
proof -
  have S: "Second \<noteq> 0" by (simp add: Second_def)
  define unix where "unix = day * 86400 + hour * 3600 + minute * 60"
  have u: "unix = day * 86400 + s" by (simp add: unix_def s(1))
  obtain off1 st1 en1 where lk: "lookup l unix = (off1, st1, en1)"
    by (cases "lookup l unix") auto
  have in1: "day * 86400 \<le> unix \<and> unix < (day + 1) * 86400"
    using u s(2,3) by simp
  have in2: "day * 86400 - off \<le> unix - off \<and> unix - off < (day + 2) * 86400 - off"
    using u s(2,3) by simp
  have "offsetAt l unix = off" using st[rule_format, of unix] in1 by blast
  then have off1: "off1 = off" using lk by (simp add: offsetAt_def)
  have "offsetAt l (unix - off) = off" using st[rule_format, of "unix - off"] in2 by blast
  then have lk2: "fst (lookup l (unix - off)) = off" by (simp add: offsetAt_def)
  have "Date day hour minute 0 0 l = \<lparr>wall = (unix - off) * Second, loc = l\<rparr>"
    using S lk off1 lk2 by (simp add: Date_def Let_def unix_def[symmetric])
  then show ?thesis by (simp add: u)
qed

lemma readings_steady:
  assumes st: "\<forall>sec. (day * 86400 - off \<le> sec \<and> sec < (day + 2) * 86400 - off) \<or>
               (day * 86400 \<le> sec \<and> sec < (day + 1) * 86400) \<longrightarrow> offsetAt l sec = off"
    and d: "d = day \<or> d = day + 1" and s: "0 \<le> s" "s < 86400"
  shows "civilDate \<lparr>wall = (d * 86400 + s - off) * Second, loc = l\<rparr> = d"
    and "civilSec \<lparr>wall = (d * 86400 + s - off) * Second, loc = l\<rparr> mod 86400 = s"
    and "Nanosecond \<lparr>wall = (d * 86400 + s - off) * Second, loc = l\<rparr> = 0"
proof -
  define u where "u = d * 86400 + s - off"
  have "day * 86400 - off \<le> u \<and> u < (day + 2) * 86400 - off"
    using d s by (auto simp: u_def)
  then have "offsetAt l u = off" using st[rule_format, of u] by blast
  then have lk: "fst (lookup l u) = off" by (simp add: offsetAt_def)
  have us: "unixSec \<lparr>wall = u * Second, loc = l\<rparr> = u"
    by (simp add: unixSec_def Second_def)
  have "civilSec \<lparr>wall = u * Second, loc = l\<rparr> = u + off"
    unfolding civilSec_def us using lk by simp
  then have cs: "civilSec \<lparr>wall = (d * 86400 + s - off) * Second, loc = l\<rparr> = d * 86400 + s"
    by (simp add: u_def)
  show "civilDate \<lparr>wall = (d * 86400 + s - off) * Second, loc = l\<rparr> = d"
    unfolding civilDate_def cs using s by (simp add: div_pos_pos_trivial)
  show "civilSec \<lparr>wall = (d * 86400 + s - off) * Second, loc = l\<rparr> mod 86400 = s"
    unfolding cs using s by (simp add: mod_pos_pos_trivial)
  show "Nanosecond \<lparr>wall = (d * 86400 + s - off) * Second, loc = l\<rparr> = 0"
    by (simp add: Nanosecond_def)
qed

lemma wall_offset:
  "wall t = (civilDate t * 86400 + civilSec t mod 86400 - offsetAt (loc t) (unixSec t)) * Second + Nanosecond t"
proof -
  have "wall t = (wall t div Second) * Second + wall t mod Second" by simp
  moreover have "wall t div Second = civilSec t - offsetAt (loc t) (unixSec t)"
    by (simp add: civilSec_def unixSec_def offsetAt_def)
  moreover have "civilSec t = civilDate t * 86400 + civilSec t mod 86400"
    by (simp add: civilDate_def)
  ultimately show ?thesis by (simp add: Nanosecond_def)
qed

subsection \<open>The run as a loop over the metric list\<close>

lemma andThen_assoc: "andThen (andThen m f) g = andThen m (\<lambda>x. andThen (f x) g)"
  by (cases m) (simp_all add: andThen_def)

lemma andThen_Inr [simp]: "andThen (Inr x) f = f x"
  by (simp add: andThen_def)

lemma andThen_Inl [simp]: "andThen (Inl e) f = Inl e"
  by (simp add: andThen_def)

lemma transferData_runMetrics:
  "transferData pgDsn mysqlDsn w0 =
     (let w1 = Printf StartingDataTransfer w0
      in case Open Postgres pgDsn w1 of
           (Inl err, w2) \<Rightarrow> Fatalf (FailedToConnectPostgreSQL err) w2
         | (Inr pgDb, w2) \<Rightarrow>
             (case Open MySQL mysqlDsn w2 of
                (Inl err, w3) \<Rightarrow> Fatalf (FailedToConnectMySQL err) w3
              | (Inr sqlDb, w3) \<Rightarrow>
                  andThen (runMetrics queryCount insertToMySQL pgDb sqlDb (Format (Now w3)) catalog w3)
                    (\<lambda>w. Inr (Close pgDb (Close sqlDb (Printf DataTransferCompleted w))))))"
  by (simp add: transferData_def catalog_def andThen_assoc split_def Let_def cong: prod.case_cong sum.case_cong)

lemma old_transferData_runMetrics:
  "old_transferData pgDsn mysqlDsn w0 =
     (case Open Postgres pgDsn w0 of
        (Inl err, w1) \<Rightarrow> Fatalf (FailedToConnectPostgreSQL err) w1
      | (Inr pgDb, w1) \<Rightarrow>
          (case Open MySQL mysqlDsn w1 of
             (Inl err, w2) \<Rightarrow> Fatalf (FailedToConnectMySQL err) w2
           | (Inr sqlDb, w2) \<Rightarrow>
               andThen (runMetrics old_queryCount old_insertToMySQL pgDb sqlDb (Format (Now w2)) old_catalog w2)
                 (\<lambda>w. Inr (Close pgDb (Close sqlDb w)))))"
  by (simp add: old_transferData_def old_catalog_def andThen_assoc split_def Let_def cong: prod.case_cong sum.case_cong)

lemma finalWorld_simps [simp]: "finalWorld (Inl (c, w)) = w" "finalWorld (Inr w) = w"
  by (simp_all add: finalWorld_def)

lemma countsLike_queryCount: "countsLike queryCount"
  by (auto simp: countsLike_def queryCount_def Exit_def split: prod.splits option.splits)

lemma countsLike_old_queryCount: "countsLike old_queryCount"
  by (auto simp: countsLike_def old_queryCount_def Fatalf_def Exit_def split: prod.splits option.splits)

lemma insertsLike_insertToMySQL: "insertsLike insertToMySQL"
  unfolding insertsLike_def insertToMySQL_def Let_def
proof (intro allI)
  fix db tableName date count w
  obtain e w' where ex: "Exec db (Sprintf tableName) date count w = (e, w')"
    by (cases "Exec db (Sprintf tableName) date count w") auto
  show "case Exec db (Sprintf tableName) date count w of
          (Some err, w') \<Rightarrow> \<exists>line. (case Exec db (Sprintf tableName) date count w of
                (Some err, w') \<Rightarrow> Exit 1 (Printf (FailedToInsert (Sprintf tableName) err) w')
              | (None, w') \<Rightarrow> Inr (Printf (SuccessfullyInserted tableName date count) w')) = Inl (1, Printf line w')
        | (None, w') \<Rightarrow> \<exists>lines. (case Exec db (Sprintf tableName) date count w of
                (Some err, w') \<Rightarrow> Exit 1 (Printf (FailedToInsert (Sprintf tableName) err) w')
              | (None, w') \<Rightarrow> Inr (Printf (SuccessfullyInserted tableName date count) w')) = Inr (w'\<lparr>logged := logged w' @ lines\<rparr>)"
    unfolding ex by (cases e) (auto simp: Exit_def Printf_def)
qed

lemma insertsLike_old_insertToMySQL: "insertsLike old_insertToMySQL"
  unfolding insertsLike_def old_insertToMySQL_def Let_def
proof (intro allI)
  fix db tableName date count w
  obtain e w' where ex: "Exec db (Sprintf tableName) date count w = (e, w')"
    by (cases "Exec db (Sprintf tableName) date count w") auto
  have "w'\<lparr>logged := logged w' @ []\<rparr> = w'" by simp
  then have "\<exists>lines. w' = w'\<lparr>logged := logged w' @ lines\<rparr>" by metis
  then show "case Exec db (Sprintf tableName) date count w of
          (Some err, w') \<Rightarrow> \<exists>line. (case Exec db (Sprintf tableName) date count w of
                (Some err, w') \<Rightarrow> Fatalf (FailedToInsertOld err) w'
              | (None, w') \<Rightarrow> Inr w') = Inl (1, Printf line w')
        | (None, w') \<Rightarrow> \<exists>lines. (case Exec db (Sprintf tableName) date count w of
                (Some err, w') \<Rightarrow> Fatalf (FailedToInsertOld err) w'
              | (None, w') \<Rightarrow> Inr w') = Inr (w'\<lparr>logged := logged w' @ lines\<rparr>)"
    unfolding ex by (cases e) (auto simp: Fatalf_def Exit_def)
qed

text \<open>What one call of the driver does to the world.\<close>

lemma QueryRowScan_fields:
  assumes "QueryRowScan db query c0 w = (e, c, w')"
  shows "clock w' = clock w + roundTrip w (clock w)"
    and "queryRowCalls w' = queryRowCalls w @ [(clock w, query)]"
    and "execCalls w' = execCalls w" and "tables w' = tables w" and "logged w' = logged w"
    and "source w' = source w" and "roundTrip w' = roundTrip w" and "zone w' = zone w"
    and "openError w' = openError w" and "destFault w' = destFault w"
    and "handles w' = handles w" and "nextHandle w' = nextHandle w"
  using assms by (auto simp: QueryRowScan_def Let_def split: answer.splits)

lemma QueryRowScan_answer:
  assumes "QueryRowScan db query c0 w = (e, c, w')"
  shows "e = None \<Longrightarrow> source w (clock w) query = Row c"
    and "e = Some err \<Longrightarrow> source w (clock w) query \<noteq> Row n"
  using assms by (auto simp: QueryRowScan_def Let_def split: answer.splits)

lemma tableOf_Sprintf: "tableOf (Sprintf tableName) = Some tableName"
  by (simp add: tableOf_def Sprintf_def insertPrefix_def insertSuffix_def)

lemma Exec_fields:
  assumes "Exec db query date count w = (e, w')"
  shows "clock w' = clock w + roundTrip w (clock w)"
    and "queryRowCalls w' = queryRowCalls w"
    and "execCalls w' = execCalls w @ [(clock w, query, date, count)]"
    and "logged w' = logged w"
    and "source w' = source w" and "roundTrip w' = roundTrip w" and "zone w' = zone w"
    and "openError w' = openError w" and "destFault w' = destFault w"
    and "handles w' = handles w" and "nextHandle w' = nextHandle w"
  using assms by (auto simp: Exec_def Let_def split: option.splits)

lemma Exec_tables:
  assumes "Exec db (Sprintf tableName) date count w = (e, w')"
  shows "e = Some err \<Longrightarrow> tables w' = tables w"
    and "e = None \<Longrightarrow> \<exists>rows. tables w tableName = Some rows \<and> rows date = None \<and>
           tables w' = (tables w)(tableName \<mapsto> rows(date \<mapsto> count))"
  using assms by (auto simp: Exec_def Let_def tableOf_Sprintf split: option.splits)

lemma countsLike_fails:
  assumes "countsLike qc" "QueryRowScan db query 0 w = (Some err, c, w')"
  shows "\<exists>line. qc db query w = Inl (1, Printf line w')"
  using assms(1)[unfolded countsLike_def, rule_format, of db query w] assms(2) by simp

lemma countsLike_returns:
  assumes "countsLike qc" "QueryRowScan db query 0 w = (None, c, w')"
  shows "qc db query w = Inr (c, w')"
  using assms(1)[unfolded countsLike_def, rule_format, of db query w] assms(2) by simp

lemma insertsLike_fails:
  assumes "insertsLike ins" "Exec db (Sprintf tableName) date count w = (Some err, w')"
  shows "\<exists>line. ins db tableName date count w = Inl (1, Printf line w')"
  using assms(1)[unfolded insertsLike_def, rule_format, of db tableName date count w] assms(2) by simp

lemma insertsLike_returns:
  assumes "insertsLike ins" "Exec db (Sprintf tableName) date count w = (None, w')"
  shows "\<exists>lines. ins db tableName date count w = Inr (w'\<lparr>logged := logged w' @ lines\<rparr>)"
  using assms(1)[unfolded insertsLike_def, rule_format, of db tableName date count w] assms(2) by simp

text \<open>One metric of the list: the query fails, the insert fails, or the run goes on.\<close>

lemma runMetrics_step:
  assumes qc: "countsLike qc" and ins: "insertsLike ins"
  obtains
    (QueryFails) err c w1 line where
      "QueryRowScan pgDb query 0 w = (Some err, c, w1)"
      "runMetrics qc ins pgDb sqlDb today ((tableName, query) # ms) w = Inl (1, Printf line w1)"
  | (InsertFails) n w1 err w2 line where
      "QueryRowScan pgDb query 0 w = (None, n, w1)"
      "Exec sqlDb (Sprintf tableName) today n w1 = (Some err, w2)"
      "runMetrics qc ins pgDb sqlDb today ((tableName, query) # ms) w = Inl (1, Printf line w2)"
  | (Next) n w1 w2 lines where
      "QueryRowScan pgDb query 0 w = (None, n, w1)"
      "Exec sqlDb (Sprintf tableName) today n w1 = (None, w2)"
      "runMetrics qc ins pgDb sqlDb today ((tableName, query) # ms) w =
         runMetrics qc ins pgDb sqlDb today ms (w2\<lparr>logged := logged w2 @ lines\<rparr>)"
proof -
  obtain e c w1 where q: "QueryRowScan pgDb query 0 w = (e, c, w1)"
    by (cases "QueryRowScan pgDb query 0 w") auto
  show thesis
  proof (cases e)
    case (Some err)
    with qc q obtain line where "qc pgDb query w = Inl (1, Printf line w1)"
      using countsLike_fails by blast
    then show thesis using QueryFails[of err c w1 line] q Some by simp
  next
    case None
    with qc q have qr: "qc pgDb query w = Inr (c, w1)"
      using countsLike_returns by blast
    obtain e2 w2 where x: "Exec sqlDb (Sprintf tableName) today c w1 = (e2, w2)"
      by (cases "Exec sqlDb (Sprintf tableName) today c w1") auto
    show thesis
    proof (cases e2)
      case (Some err)
      with ins x obtain line where "ins sqlDb tableName today c w1 = Inl (1, Printf line w2)"
        using insertsLike_fails by blast
      then show thesis using InsertFails[of c w1 err w2 line] q x None Some qr by simp
    next
      case None2: None
      with ins x obtain lines where "ins sqlDb tableName today c w1 = Inr (w2\<lparr>logged := logged w2 @ lines\<rparr>)"
        using insertsLike_returns by blast
      then show thesis using Next[of c w1 w2 lines] q x None None2 qr by simp
    qed
  qed
qed

lemma Printf_fields [simp]:
  "clock (Printf line w) = clock w" "queryRowCalls (Printf line w) = queryRowCalls w"
  "execCalls (Printf line w) = execCalls w" "tables (Printf line w) = tables w"
  "source (Printf line w) = source w" "handles (Printf line w) = handles w"
  "nextHandle (Printf line w) = nextHandle w" "zone (Printf line w) = zone w"
  "roundTrip (Printf line w) = roundTrip w" "openError (Printf line w) = openError w"
  "destFault (Printf line w) = destFault w" "logged (Printf line w) = logged w @ [line]"
  by (simp_all add: Printf_def)

lemma runMetrics_status:
  assumes qc: "countsLike qc" and ins: "insertsLike ins"
  shows "runMetrics qc ins pgDb sqlDb today ms w = Inl (status, w') \<Longrightarrow> status = 1"
proof (induction ms arbitrary: w)
  case Nil
  then show ?case by simp
next
  case (Cons m ms)
  obtain tableName query where m: "m = (tableName, query)" by (cases m)
  show ?case
  proof (cases rule: runMetrics_step[OF qc ins, of pgDb query w sqlDb today tableName ms, case_names QueryFails InsertFails Next])
    case (QueryFails err c w1 line)
    with Cons.prems m show ?thesis by simp
  next
    case (InsertFails n w1 err w2 line)
    with Cons.prems m show ?thesis by simp
  next
    case (Next n w1 w2 lines)
    with Cons.prems m Cons.IH show ?thesis by simp
  qed
qed

lemma runMetrics_surroundings:
  assumes qc: "countsLike qc" and ins: "insertsLike ins"
  shows "source (finalWorld (runMetrics qc ins pgDb sqlDb today ms w)) = source w \<and>
         handles (finalWorld (runMetrics qc ins pgDb sqlDb today ms w)) = handles w \<and>
         nextHandle (finalWorld (runMetrics qc ins pgDb sqlDb today ms w)) = nextHandle w \<and>
         zone (finalWorld (runMetrics qc ins pgDb sqlDb today ms w)) = zone w"
proof (induction ms arbitrary: w)
  case Nil
  then show ?case by simp
next
  case (Cons m ms)
  obtain tableName query where m: "m = (tableName, query)" by (cases m)
  show ?case
  proof (cases rule: runMetrics_step[OF qc ins, of pgDb query w sqlDb today tableName ms, case_names QueryFails InsertFails Next])
    case (QueryFails err c w1 line)
    then show ?thesis using m QueryRowScan_fields[OF QueryFails(1)] by simp
  next
    case (InsertFails n w1 err w2 line)
    then show ?thesis
      using m QueryRowScan_fields[OF InsertFails(1)] Exec_fields[OF InsertFails(2)] by simp
  next
    case (Next n w1 w2 lines)
    then show ?thesis
      using m QueryRowScan_fields[OF Next(1)] Exec_fields[OF Next(2)]
        Cons.IH[of "w2\<lparr>logged := logged w2 @ lines\<rparr>"] by simp
  qed
qed

text \<open>
  The queries sent to the source during a run: an initial segment of the list's
  queries, in order; every one but the last was answered with a row; and when the last
  was not, the process has exited with status 1.
\<close>

lemma runMetrics_queryRowCalls:
  assumes qc: "countsLike qc" and ins: "insertsLike ins"
  shows "\<exists>new. queryRowCalls (finalWorld (runMetrics qc ins pgDb sqlDb today ms w)) = queryRowCalls w @ new \<and>
           length new \<le> length ms \<and>
           map snd new = take (length new) (map snd ms) \<and>
           (\<forall>x \<in> set (butlast new). \<exists>n. source w (fst x) (snd x) = Row n) \<and>
           (new \<noteq> [] \<and> (\<forall>n. source w (fst (last new)) (snd (last new)) \<noteq> Row n) \<longrightarrow>
              (\<exists>x. runMetrics qc ins pgDb sqlDb today ms w = Inl (1, x))) \<and>
           ((\<exists>x. runMetrics qc ins pgDb sqlDb today ms w = Inr x) \<longrightarrow> length new = length ms)"
proof (induction ms arbitrary: w)
  case Nil
  then show ?case by simp
next
  case (Cons m ms)
  obtain tableName query where m: "m = (tableName, query)" by (cases m)
  show ?case
  proof (cases rule: runMetrics_step[OF qc ins, of pgDb query w sqlDb today tableName ms, case_names QueryFails InsertFails Next])
    case (QueryFails err c w1 line)
    show ?thesis
      apply (rule exI[of _ "[(clock w, query)]"])
      using m QueryFails(2) QueryRowScan_fields(2)[OF QueryFails(1)] by simp
  next
    case (InsertFails n w1 err w2 line)
    have "source w (clock w) query = Row n"
      using QueryRowScan_answer(1)[OF InsertFails(1)] by simp
    then show ?thesis
      apply -
      apply (rule exI[of _ "[(clock w, query)]"])
      using m InsertFails(3) QueryRowScan_fields(2)[OF InsertFails(1)] Exec_fields(2)[OF InsertFails(2)]
      by simp
  next
    case (Next n w1 w2 lines)
    define w3 where "w3 = w2\<lparr>logged := logged w2 @ lines\<rparr>"
    have row: "source w (clock w) query = Row n"
      using QueryRowScan_answer(1)[OF Next(1)] by simp
    have src: "source w3 = source w"
      using QueryRowScan_fields(6)[OF Next(1)] Exec_fields(5)[OF Next(2)] by (simp add: w3_def)
    have rec: "queryRowCalls w3 = queryRowCalls w @ [(clock w, query)]"
      using QueryRowScan_fields(2)[OF Next(1)] Exec_fields(2)[OF Next(2)] by (simp add: w3_def)
    have run: "runMetrics qc ins pgDb sqlDb today (m # ms) w = runMetrics qc ins pgDb sqlDb today ms w3"
      using Next(3) m by (simp add: w3_def)
    from Cons.IH[of w3] obtain new where new:
      "queryRowCalls (finalWorld (runMetrics qc ins pgDb sqlDb today ms w3)) = queryRowCalls w3 @ new"
      "length new \<le> length ms"
      "map snd new = take (length new) (map snd ms)"
      "\<forall>x \<in> set (butlast new). \<exists>n. source w3 (fst x) (snd x) = Row n"
      "new \<noteq> [] \<and> (\<forall>n. source w3 (fst (last new)) (snd (last new)) \<noteq> Row n) \<longrightarrow>
          (\<exists>x. runMetrics qc ins pgDb sqlDb today ms w3 = Inl (1, x))"
      "(\<exists>x. runMetrics qc ins pgDb sqlDb today ms w3 = Inr x) \<longrightarrow> length new = length ms"
      by blast
    have bl: "\<forall>x \<in> set (butlast ((clock w, query) # new)). \<exists>n. source w (fst x) (snd x) = Row n"
      using new(4) row src by (cases new) auto
    have la: "(\<forall>n. source w (fst (last ((clock w, query) # new))) (snd (last ((clock w, query) # new))) \<noteq> Row n)
        \<longrightarrow> (\<exists>x. runMetrics qc ins pgDb sqlDb today ms w3 = Inl (1, x))"
      using new(5) row src by (cases new) auto
    show ?thesis
      apply (rule exI[of _ "(clock w, query) # new"])
      unfolding run
      using new(1,2,3,6) rec bl la m by simp
  qed
qed

text \<open>
  The statements sent to the destination during a run: inserts into the list's tables,
  in order, every one with the date the run was given.
\<close>

lemma runMetrics_execCalls:
  assumes qc: "countsLike qc" and ins: "insertsLike ins"
  shows "\<exists>new. execCalls (finalWorld (runMetrics qc ins pgDb sqlDb today ms w)) = execCalls w @ new \<and>
           length new \<le> length ms \<and>
           map (\<lambda>x. fst (snd x)) new = take (length new) (map (\<lambda>m. Sprintf (fst m)) ms) \<and>
           (\<forall>x \<in> set new. fst (snd (snd x)) = today)"
proof (induction ms arbitrary: w)
  case Nil
  then show ?case by simp
next
  case (Cons m ms)
  obtain tableName query where m: "m = (tableName, query)" by (cases m)
  show ?case
  proof (cases rule: runMetrics_step[OF qc ins, of pgDb query w sqlDb today tableName ms, case_names QueryFails InsertFails Next])
    case (QueryFails err c w1 line)
    show ?thesis
      apply (rule exI[of _ "[]"])
      using m QueryFails(2) QueryRowScan_fields(3)[OF QueryFails(1)] by simp
  next
    case (InsertFails n w1 err w2 line)
    show ?thesis
      apply (rule exI[of _ "[(clock w1, Sprintf tableName, today, n)]"])
      using m InsertFails(3) QueryRowScan_fields(3)[OF InsertFails(1)] Exec_fields(3)[OF InsertFails(2)]
      by simp
  next
    case (Next n w1 w2 lines)
    define w3 where "w3 = w2\<lparr>logged := logged w2 @ lines\<rparr>"
    have ex: "execCalls w3 = execCalls w @ [(clock w1, Sprintf tableName, today, n)]"
      using QueryRowScan_fields(3)[OF Next(1)] Exec_fields(3)[OF Next(2)] by (simp add: w3_def)
    have run: "runMetrics qc ins pgDb sqlDb today (m # ms) w = runMetrics qc ins pgDb sqlDb today ms w3"
      using Next(3) m by (simp add: w3_def)
    from Cons.IH[of w3] obtain new where new:
      "execCalls (finalWorld (runMetrics qc ins pgDb sqlDb today ms w3)) = execCalls w3 @ new"
      "length new \<le> length ms"
      "map (\<lambda>x. fst (snd x)) new = take (length new) (map (\<lambda>m. Sprintf (fst m)) ms)"
      "\<forall>x \<in> set new. fst (snd (snd x)) = today"
      by blast
    show ?thesis
      apply (rule exI[of _ "(clock w1, Sprintf tableName, today, n) # new"])
      unfolding run
      using new ex m by simp
  qed
qed

text \<open>
  The destination's rows after a run: a row that is there afterwards was there before,
  or carries the date the run was given; and no row that was there is changed.
\<close>

lemma runMetrics_tables:
  assumes qc: "countsLike qc" and ins: "insertsLike ins"
  shows "(\<forall>tb rows' d c. tables (finalWorld (runMetrics qc ins pgDb sqlDb today ms w)) tb = Some rows' \<and> rows' d = Some c \<longrightarrow>
            d = today \<or> (\<exists>rows. tables w tb = Some rows \<and> rows d = Some c)) \<and>
         (\<forall>tb rows d c. tables w tb = Some rows \<and> rows d = Some c \<longrightarrow>
            (\<exists>rows'. tables (finalWorld (runMetrics qc ins pgDb sqlDb today ms w)) tb = Some rows' \<and> rows' d = Some c))"
proof (induction ms arbitrary: w)
  case Nil
  then show ?case by simp
next
  case (Cons m ms)
  obtain tableName query where m: "m = (tableName, query)" by (cases m)
  show ?case
  proof (cases rule: runMetrics_step[OF qc ins, of pgDb query w sqlDb today tableName ms, case_names QueryFails InsertFails Next])
    case (QueryFails err c w1 line)
    show ?thesis
      using m QueryFails(2) QueryRowScan_fields(4)[OF QueryFails(1)] by simp
  next
    case (InsertFails n w1 err w2 line)
    show ?thesis
      using m InsertFails(3) QueryRowScan_fields(4)[OF InsertFails(1)] Exec_tables(1)[OF InsertFails(2)]
      by simp
  next
    case (Next n w1 w2 lines)
    define w3 where "w3 = w2\<lparr>logged := logged w2 @ lines\<rparr>"
    obtain rows0 where rows0: "tables w tableName = Some rows0" "rows0 today = None"
      "tables w3 = (tables w)(tableName \<mapsto> rows0(today \<mapsto> n))"
      using Exec_tables(2)[OF Next(2)] QueryRowScan_fields(4)[OF Next(1)] by (auto simp: w3_def)
    have run: "runMetrics qc ins pgDb sqlDb today (m # ms) w = runMetrics qc ins pgDb sqlDb today ms w3"
      using Next(3) m by (simp add: w3_def)
    have new_old: "d = today \<or> (\<exists>rows. tables w tb = Some rows \<and> rows d = Some c)"
      if "tables w3 tb = Some rows'" "rows' d = Some c" for tb rows' d c
      using that rows0 by (cases "tb = tableName"; cases "d = today") auto
    have old_new: "\<exists>rows'. tables w3 tb = Some rows' \<and> rows' d = Some c"
      if "tables w tb = Some rows" "rows d = Some c" for tb rows d c
      using that rows0 by (cases "tb = tableName"; cases "d = today") auto
    from Cons.IH[of w3] have IH1:
      "\<And>tb rows' d c. tables (finalWorld (runMetrics qc ins pgDb sqlDb today ms w3)) tb = Some rows' \<Longrightarrow> rows' d = Some c \<Longrightarrow>
            d = today \<or> (\<exists>rows. tables w3 tb = Some rows \<and> rows d = Some c)"
      and IH2: "\<And>tb rows d c. tables w3 tb = Some rows \<Longrightarrow> rows d = Some c \<Longrightarrow>
            (\<exists>rows'. tables (finalWorld (runMetrics qc ins pgDb sqlDb today ms w3)) tb = Some rows' \<and> rows' d = Some c)"
      by blast+
    show ?thesis
      unfolding run
    proof (intro conjI allI impI)
      fix tb rows' d c
      assume a: "tables (finalWorld (runMetrics qc ins pgDb sqlDb today ms w3)) tb = Some rows' \<and> rows' d = Some c"
      then have "d = today \<or> (\<exists>rows. tables w3 tb = Some rows \<and> rows d = Some c)"
        using IH1 by blast
      then show "d = today \<or> (\<exists>rows. tables w tb = Some rows \<and> rows d = Some c)"
        using new_old by blast
    next
      fix tb rows d c
      assume "tables w tb = Some rows \<and> rows d = Some c"
      then obtain rows3 where "tables w3 tb = Some rows3 \<and> rows3 d = Some c"
        using old_new by blast
      then show "\<exists>rows'. tables (finalWorld (runMetrics qc ins pgDb sqlDb today ms w3)) tb = Some rows' \<and> rows' d = Some c"
        using IH2 by blast
    qed
  qed
qed

subsection \<open>transferData: opening, running, finishing\<close>

text \<open>The world in which the metrics run: after the log line and the two opens.\<close>

lemma Open_fields:
  assumes "Open driverName dsn w = (r, w')"
  shows "clock w' = clock w" and "queryRowCalls w' = queryRowCalls w" and "execCalls w' = execCalls w"
    and "tables w' = tables w" and "logged w' = logged w" and "source w' = source w"
    and "zone w' = zone w" and "roundTrip w' = roundTrip w" and "openError w' = openError w"
    and "destFault w' = destFault w"
  using assms by (auto simp: Open_def split: option.splits)

lemma Close_fields [simp]:
  "clock (Close db w) = clock w" "queryRowCalls (Close db w) = queryRowCalls w"
  "execCalls (Close db w) = execCalls w" "tables (Close db w) = tables w"
  "logged (Close db w) = logged w" "source (Close db w) = source w" "zone (Close db w) = zone w"
  by (simp_all add: Close_def)

lemma Now_cong: "clock w' = clock w \<Longrightarrow> zone w' = zone w \<Longrightarrow> Now w' = Now w"
  by (simp add: Now_def)

lemma transferData_cases:
  obtains
    (OpenFails) line w1 where
      "transferData pgDsn mysqlDsn w = Inl (1, Printf line w1)"
      "queryRowCalls w1 = queryRowCalls w" "execCalls w1 = execCalls w" "tables w1 = tables w"
  | (Runs) pgDb sqlDb w3 where
      "transferData pgDsn mysqlDsn w =
         andThen (runMetrics queryCount insertToMySQL pgDb sqlDb (Format (Now w)) catalog w3)
           (\<lambda>w. Inr (Close pgDb (Close sqlDb (Printf DataTransferCompleted w))))"
      "queryRowCalls w3 = queryRowCalls w" "execCalls w3 = execCalls w" "tables w3 = tables w"
      "source w3 = source w" "clock w3 = clock w" "zone w3 = zone w" "destFault w3 = destFault w"
proof -
  define w1 where "w1 = Printf StartingDataTransfer w"
  obtain r2 w2 where o1: "Open Postgres pgDsn w1 = (r2, w2)"
    by (cases "Open Postgres pgDsn w1") auto
  note f2 = Open_fields[OF o1]
  show thesis
  proof (cases r2)
    case (Inl err)
    have "transferData pgDsn mysqlDsn w = Inl (1, Printf (FailedToConnectPostgreSQL err) w2)"
      using o1 Inl by (simp add: transferData_def w1_def[symmetric] Fatalf_def Exit_def)
    then show thesis
      using OpenFails[of "FailedToConnectPostgreSQL err" w2] f2 by (simp add: w1_def)
  next
    case (Inr pgDb)
    obtain r3 w3 where o2: "Open MySQL mysqlDsn w2 = (r3, w3)"
      by (cases "Open MySQL mysqlDsn w2") auto
    note f3 = Open_fields[OF o2]
    show thesis
    proof (cases r3)
      case (Inl err)
      have "transferData pgDsn mysqlDsn w = Inl (1, Printf (FailedToConnectMySQL err) w3)"
        using o1 o2 Inl \<open>r2 = Inr pgDb\<close>
        by (simp add: transferData_def w1_def[symmetric] Fatalf_def Exit_def)
      then show thesis
        using OpenFails[of "FailedToConnectMySQL err" w3] f2 f3 by (simp add: w1_def)
    next
      case (Inr sqlDb)
      have now: "Now w3 = Now w"
        using f2 f3 by (simp add: Now_def w1_def)
      have "transferData pgDsn mysqlDsn w =
         andThen (runMetrics queryCount insertToMySQL pgDb sqlDb (Format (Now w)) catalog w3)
           (\<lambda>w. Inr (Close pgDb (Close sqlDb (Printf DataTransferCompleted w))))"
        using o1 o2 Inr \<open>r2 = Inr pgDb\<close> now
        by (simp add: transferData_runMetrics w1_def[symmetric])
      then show thesis
        using Runs[of pgDb sqlDb w3] f2 f3 by (simp add: w1_def)
    qed
  qed
qed

lemma old_transferData_cases:
  obtains
    (OpenFails) line w1 where
      "old_transferData pgDsn mysqlDsn w = Inl (1, Printf line w1)"
      "queryRowCalls w1 = queryRowCalls w" "execCalls w1 = execCalls w" "tables w1 = tables w"
  | (Runs) pgDb sqlDb w3 where
      "old_transferData pgDsn mysqlDsn w =
         andThen (runMetrics old_queryCount old_insertToMySQL pgDb sqlDb (Format (Now w)) old_catalog w3)
           (\<lambda>w. Inr (Close pgDb (Close sqlDb w)))"
      "queryRowCalls w3 = queryRowCalls w" "execCalls w3 = execCalls w" "tables w3 = tables w"
      "source w3 = source w" "clock w3 = clock w" "zone w3 = zone w" "destFault w3 = destFault w"
proof -
  obtain r2 w2 where o1: "Open Postgres pgDsn w = (r2, w2)"
    by (cases "Open Postgres pgDsn w") auto
  note f2 = Open_fields[OF o1]
  show thesis
  proof (cases r2)
    case (Inl err)
    have "old_transferData pgDsn mysqlDsn w = Inl (1, Printf (FailedToConnectPostgreSQL err) w2)"
      using o1 Inl by (simp add: old_transferData_def Fatalf_def Exit_def)
    then show thesis
      using OpenFails[of "FailedToConnectPostgreSQL err" w2] f2 by simp
  next
    case (Inr pgDb)
    obtain r3 w3 where o2: "Open MySQL mysqlDsn w2 = (r3, w3)"
      by (cases "Open MySQL mysqlDsn w2") auto
    note f3 = Open_fields[OF o2]
    show thesis
    proof (cases r3)
      case (Inl err)
      have "old_transferData pgDsn mysqlDsn w = Inl (1, Printf (FailedToConnectMySQL err) w3)"
        using o1 o2 Inl \<open>r2 = Inr pgDb\<close>
        by (simp add: old_transferData_def Fatalf_def Exit_def)
      then show thesis
        using OpenFails[of "FailedToConnectMySQL err" w3] f2 f3 by simp
    next
      case (Inr sqlDb)
      have now: "Now w3 = Now w"
        using f2 f3 by (simp add: Now_def)
      have "old_transferData pgDsn mysqlDsn w =
         andThen (runMetrics old_queryCount old_insertToMySQL pgDb sqlDb (Format (Now w)) old_catalog w3)
           (\<lambda>w. Inr (Close pgDb (Close sqlDb w)))"
        using o1 o2 Inr \<open>r2 = Inr pgDb\<close> now
        by (simp add: old_transferData_runMetrics)
      then show thesis
        using Runs[of pgDb sqlDb w3] f2 f3 by simp
    qed
  qed
qed


lemma runMetrics_failed_query:
  assumes qc: "countsLike qc" and ins: "insertsLike ins"
    and rm: "rm = runMetrics qc ins pgDb sqlDb today ms w"
    and mem: "(t, q) \<in> set (issued w (finalWorld rm))"
    and fails: "\<forall>n. source w t q \<noteq> Row n"
  shows "rm = Inl (1, finalWorld rm) \<and> last (queryRowCalls (finalWorld rm)) = (t, q) \<and>
         (\<exists>k. map snd (issued w (finalWorld rm)) = take k (map snd ms))"
proof -
  from runMetrics_queryRowCalls[OF qc ins, of pgDb sqlDb today ms w] obtain new where new:
    "queryRowCalls (finalWorld rm) = queryRowCalls w @ new"
    "map snd new = take (length new) (map snd ms)"
    "\<forall>x \<in> set (butlast new). \<exists>n. source w (fst x) (snd x) = Row n"
    "new \<noteq> [] \<and> (\<forall>n. source w (fst (last new)) (snd (last new)) \<noteq> Row n) \<longrightarrow> (\<exists>x. rm = Inl (1, x))"
    unfolding rm by blast
  have iss: "issued w (finalWorld rm) = new"
    by (simp add: issued_def new(1))
  have mem': "(t, q) \<in> set new" using mem iss by simp
  then have ne: "new \<noteq> []" by auto
  have nb: "(t, q) \<notin> set (butlast new)"
  proof
    assume "(t, q) \<in> set (butlast new)"
    with new(3) obtain n where "source w t q = Row n" by fastforce
    with fails show False by simp
  qed
  have "new = butlast new @ [last new]" using ne by simp
  then have "set new = set (butlast new) \<union> {last new}"
    by (metis list.set(1) list.set(2) set_append)
  with mem' have "(t, q) \<in> set (butlast new) \<union> {last new}" by simp
  with nb have la: "last new = (t, q)" by simp
  have "\<forall>n. source w (fst (last new)) (snd (last new)) \<noteq> Row n"
    using fails la by simp
  with new(4) ne obtain x where x: "rm = Inl (1, x)" by blast
  have l: "last (queryRowCalls (finalWorld rm)) = (t, q)"
    using new(1) ne la by simp
  have "map snd (issued w (finalWorld rm)) = take (length new) (map snd ms)"
    using iss new(2) by simp
  then have "\<exists>k. map snd (issued w (finalWorld rm)) = take k (map snd ms)" by blast
  with x l show ?thesis by simp
qed

lemma andThen_finish:
  assumes "r = andThen rm (\<lambda>w. Inr (K w))"
  shows "rm = Inl e \<Longrightarrow> r = Inl e"
    and "rm = Inr x \<Longrightarrow> r = Inr (K x)"
    and "(\<exists>e. r = Inl e \<and> rm = Inl e \<and> finalWorld r = finalWorld rm) \<or>
         (\<exists>x. r = Inr (K x) \<and> rm = Inr x \<and> finalWorld r = K x \<and> finalWorld rm = x)"
  using assms by (cases rm; auto simp: finalWorld_def)+

lemma Sleep_fields [simp]:
  "queryRowCalls (Sleep d w) = queryRowCalls w" "execCalls (Sleep d w) = execCalls w"
  "tables (Sleep d w) = tables w" "source (Sleep d w) = source w"
  by (simp_all add: Sleep_def)

lemma transferData_exit_status:
  "transferData pgDsn mysqlDsn w = Inl (status, w') \<Longrightarrow> status = 1"
proof (cases rule: transferData_cases[of pgDsn mysqlDsn w, case_names OpenFails Runs])
  case (OpenFails line w1)
  assume "transferData pgDsn mysqlDsn w = Inl (status, w')"
  with OpenFails show ?thesis by simp
next
  case (Runs pgDb sqlDb w3)
  assume a: "transferData pgDsn mysqlDsn w = Inl (status, w')"
  define rm where "rm = runMetrics queryCount insertToMySQL pgDb sqlDb (Format (Now w)) catalog w3"
  have r: "transferData pgDsn mysqlDsn w = andThen rm (\<lambda>w. Inr (Close pgDb (Close sqlDb (Printf DataTransferCompleted w))))"
    using Runs(1) by (simp add: rm_def)
  have "rm = Inl (status, w')"
  proof (cases rm)
    case (Inl e)
    with r a show ?thesis by simp
  next
    case (Inr x)
    with r a show ?thesis by simp
  qed
  then show ?thesis
    using runMetrics_status[OF countsLike_queryCount insertsLike_insertToMySQL] unfolding rm_def by blast
qed

lemma recorded_preserved:
  assumes qc: "countsLike qc" and ins: "insertsLike ins"
    and "recorded w tb d = Some c"
  shows "recorded (finalWorld (runMetrics qc ins pgDb sqlDb today ms w)) tb d = Some c"
proof -
  from assms(3) obtain rows where "tables w tb = Some rows" "rows d = Some c"
    by (auto simp: recorded_def split: option.splits)
  then have "\<exists>rows'. tables (finalWorld (runMetrics qc ins pgDb sqlDb today ms w)) tb = Some rows' \<and> rows' d = Some c"
    using runMetrics_tables[OF qc ins, of pgDb sqlDb today ms w] by blast
  then show ?thesis by (auto simp: recorded_def)
qed

subsection \<open>A run that ends at a failed query\<close>

lemma queryCount_fails:
  "\<forall>db q w err c w1. QueryRowScan db q 0 w = (Some err, c, w1) \<longrightarrow>
     queryCount db q w = Inl (1, Printf (FailedToExecuteQuery q err) w1)"
  by (simp add: queryCount_def Exit_def)

lemma old_queryCount_fails:
  "\<forall>db q w err c w1. QueryRowScan db q 0 w = (Some err, c, w1) \<longrightarrow>
     old_queryCount db q w = Inl (1, Printf (FailedToExecuteQueryOld err) w1)"
  by (simp add: old_queryCount_def Fatalf_def Exit_def)

text \<open>
  What a run leaves behind when the last query it sent was not answered with a row: the
  line of the failed query is the last of the log, one statement fewer than queries
  has been sent to the destination, and only the tables of the metrics before the
  failed one can have changed.
\<close>

lemma runMetrics_failed_query_effects:
  assumes qc: "countsLike qc" and ins: "insertsLike ins"
    and mk: "\<forall>db q w err c w1. QueryRowScan db q 0 w = (Some err, c, w1) \<longrightarrow>
      qc db q w = Inl (1, Printf (mk q err) w1)"
  shows "\<exists>nq nx. queryRowCalls (finalWorld (runMetrics qc ins pgDb sqlDb today ms w)) = queryRowCalls w @ nq \<and>
           execCalls (finalWorld (runMetrics qc ins pgDb sqlDb today ms w)) = execCalls w @ nx \<and>
           length nx \<le> length nq \<and>
           (\<forall>tb. tb \<notin> set (take (length nx) (map fst ms)) \<longrightarrow>
              tables (finalWorld (runMetrics qc ins pgDb sqlDb today ms w)) tb = tables w tb) \<and>
           (nq \<noteq> [] \<and> (\<forall>n. source w (fst (last nq)) (snd (last nq)) \<noteq> Row n) \<longrightarrow>
              Suc (length nx) = length nq \<and>
              (\<exists>err. last (logged (finalWorld (runMetrics qc ins pgDb sqlDb today ms w))) = mk (snd (last nq)) err))"
proof (induction ms arbitrary: w)
  case Nil
  then show ?case by simp
next
  case (Cons m ms)
  obtain tableName query where m: "m = (tableName, query)" by (cases m)
  show ?case
  proof (cases rule: runMetrics_step[OF qc ins, of pgDb query w sqlDb today tableName ms, case_names QueryFails InsertFails Next])
    case (QueryFails err c w1 line)
    have run: "runMetrics qc ins pgDb sqlDb today (m # ms) w = Inl (1, Printf (mk query err) w1)"
      using mk[rule_format, OF QueryFails(1)] m by simp
    show ?thesis
      apply (rule exI[of _ "[(clock w, query)]"])
      apply (rule exI[of _ "[]"])
      unfolding run
      using QueryRowScan_fields(2,3,4)[OF QueryFails(1)] by auto
  next
    case (InsertFails n w1 err w2 line)
    have "source w (clock w) query = Row n"
      using QueryRowScan_answer(1)[OF InsertFails(1)] by simp
    then show ?thesis
      apply -
      apply (rule exI[of _ "[(clock w, query)]"])
      apply (rule exI[of _ "[(clock w1, Sprintf tableName, today, n)]"])
      using m InsertFails(3) QueryRowScan_fields(2,3,4)[OF InsertFails(1)]
        Exec_fields(2,3)[OF InsertFails(2)] Exec_tables(1)[OF InsertFails(2)]
      by simp
  next
    case (Next n w1 w2 lines)
    define w3 where "w3 = w2\<lparr>logged := logged w2 @ lines\<rparr>"
    define fw where "fw = finalWorld (runMetrics qc ins pgDb sqlDb today ms w3)"
    have row: "source w (clock w) query = Row n"
      using QueryRowScan_answer(1)[OF Next(1)] by simp
    have src: "source w3 = source w"
      using QueryRowScan_fields(6)[OF Next(1)] Exec_fields(5)[OF Next(2)] by (simp add: w3_def)
    have rec: "queryRowCalls w3 = queryRowCalls w @ [(clock w, query)]"
      using QueryRowScan_fields(2)[OF Next(1)] Exec_fields(2)[OF Next(2)] by (simp add: w3_def)
    have ex: "execCalls w3 = execCalls w @ [(clock w1, Sprintf tableName, today, n)]"
      using QueryRowScan_fields(3)[OF Next(1)] Exec_fields(3)[OF Next(2)] by (simp add: w3_def)
    obtain rows0 where rows0: "tables w3 = (tables w)(tableName \<mapsto> rows0)"
      using Exec_tables(2)[OF Next(2)] QueryRowScan_fields(4)[OF Next(1)] by (auto simp: w3_def)
    have run: "finalWorld (runMetrics qc ins pgDb sqlDb today (m # ms) w) = fw"
      using Next(3) m by (simp add: w3_def fw_def)
    from Cons.IH[of w3] obtain nq nx where new:
      "queryRowCalls fw = queryRowCalls w3 @ nq"
      "execCalls fw = execCalls w3 @ nx"
      "length nx \<le> length nq"
      "\<forall>tb. tb \<notin> set (take (length nx) (map fst ms)) \<longrightarrow> tables fw tb = tables w3 tb"
      "nq \<noteq> [] \<and> (\<forall>n. source w3 (fst (last nq)) (snd (last nq)) \<noteq> Row n) \<longrightarrow>
          Suc (length nx) = length nq \<and> (\<exists>err. last (logged fw) = mk (snd (last nq)) err)"
      unfolding fw_def by blast
    have tb: "\<forall>tb. tb \<notin> set (take (length ((clock w1, Sprintf tableName, today, n) # nx)) (map fst (m # ms))) \<longrightarrow>
        tables fw tb = tables w tb"
      using new(4) rows0 m by simp
    have la: "(\<forall>n. source w (fst (last ((clock w, query) # nq))) (snd (last ((clock w, query) # nq))) \<noteq> Row n) \<longrightarrow>
          Suc (length ((clock w1, Sprintf tableName, today, n) # nx)) = length ((clock w, query) # nq) \<and>
          (\<exists>err. last (logged fw) = mk (snd (last ((clock w, query) # nq))) err)"
      using new(5) row src by (cases nq) auto
    show ?thesis
      apply (rule exI[of _ "(clock w, query) # nq"])
      apply (rule exI[of _ "(clock w1, Sprintf tableName, today, n) # nx"])
      unfolding run
      using new(1,2,3) rec ex tb la by simp
  qed
qed


lemma runMetrics_failed_query_all:
  assumes qc: "countsLike qc" and ins: "insertsLike ins"
    and mk: "\<forall>db q w err c w1. QueryRowScan db q 0 w = (Some err, c, w1) \<longrightarrow>
      qc db q w = Inl (1, Printf (mk q err) w1)"
    and rm: "rm = runMetrics qc ins pgDb sqlDb today ms w"
  shows "(\<exists>k. map snd (issued w (finalWorld rm)) = take k (map snd ms)) \<and>
         ((t, q) \<in> set (issued w (finalWorld rm)) \<and> (\<forall>n. source w t q \<noteq> Row n) \<longrightarrow>
            rm = Inl (1, finalWorld rm) \<and>
            last (queryRowCalls (finalWorld rm)) = (t, q) \<and>
            (\<exists>err. last (logged (finalWorld rm)) = mk q err) \<and>
            Suc (length (written w (finalWorld rm))) = length (issued w (finalWorld rm)) \<and>
            map (\<lambda>x. fst (snd x)) (written w (finalWorld rm)) =
              take (length (written w (finalWorld rm))) (map (\<lambda>m. Sprintf (fst m)) ms) \<and>
            (\<forall>tb. tb \<notin> set (take (length (written w (finalWorld rm))) (map fst ms)) \<longrightarrow>
               tables (finalWorld rm) tb = tables w tb))"
proof (rule conjI)
  from runMetrics_queryRowCalls[OF qc ins, of pgDb sqlDb today ms w] obtain new where new:
    "queryRowCalls (finalWorld rm) = queryRowCalls w @ new"
    "map snd new = take (length new) (map snd ms)"
    unfolding rm by blast
  have "map snd (issued w (finalWorld rm)) = take (length new) (map snd ms)"
    using new by (simp add: issued_def)
  then show "\<exists>k. map snd (issued w (finalWorld rm)) = take k (map snd ms)" by blast
next
  show "(t, q) \<in> set (issued w (finalWorld rm)) \<and> (\<forall>n. source w t q \<noteq> Row n) \<longrightarrow>
            rm = Inl (1, finalWorld rm) \<and>
            last (queryRowCalls (finalWorld rm)) = (t, q) \<and>
            (\<exists>err. last (logged (finalWorld rm)) = mk q err) \<and>
            Suc (length (written w (finalWorld rm))) = length (issued w (finalWorld rm)) \<and>
            map (\<lambda>x. fst (snd x)) (written w (finalWorld rm)) =
              take (length (written w (finalWorld rm))) (map (\<lambda>m. Sprintf (fst m)) ms) \<and>
            (\<forall>tb. tb \<notin> set (take (length (written w (finalWorld rm))) (map fst ms)) \<longrightarrow>
               tables (finalWorld rm) tb = tables w tb)"
  proof (rule impI)
    assume a: "(t, q) \<in> set (issued w (finalWorld rm)) \<and> (\<forall>n. source w t q \<noteq> Row n)"
    have fq: "rm = Inl (1, finalWorld rm)" "last (queryRowCalls (finalWorld rm)) = (t, q)"
      using runMetrics_failed_query[OF qc ins rm, of t q] a by simp_all
    from runMetrics_failed_query_effects[where mk = mk, OF qc ins mk, of pgDb sqlDb today ms w] obtain nq nx where eff:
      "queryRowCalls (finalWorld rm) = queryRowCalls w @ nq"
      "execCalls (finalWorld rm) = execCalls w @ nx"
      "\<forall>tb. tb \<notin> set (take (length nx) (map fst ms)) \<longrightarrow> tables (finalWorld rm) tb = tables w tb"
      "nq \<noteq> [] \<and> (\<forall>n. source w (fst (last nq)) (snd (last nq)) \<noteq> Row n) \<longrightarrow>
          Suc (length nx) = length nq \<and> (\<exists>err. last (logged (finalWorld rm)) = mk (snd (last nq)) err)"
      unfolding rm by blast
    from runMetrics_execCalls[OF qc ins, of pgDb sqlDb today ms w] obtain nx' where nx':
      "execCalls (finalWorld rm) = execCalls w @ nx'"
      "map (\<lambda>x. fst (snd x)) nx' = take (length nx') (map (\<lambda>m. Sprintf (fst m)) ms)"
      unfolding rm by blast
    have same: "nx' = nx" using nx'(1) eff(2) by simp
    have iss: "issued w (finalWorld rm) = nq" by (simp add: issued_def eff(1))
    have wr: "written w (finalWorld rm) = nx" by (simp add: written_def eff(2))
    have ne: "nq \<noteq> []" using a iss by auto
    have la: "last nq = (t, q)" using fq(2) eff(1) ne by simp
    have "\<forall>n. source w (fst (last nq)) (snd (last nq)) \<noteq> Row n" using a la by simp
    with eff(4) ne have cnt: "Suc (length nx) = length nq"
      and lg: "\<exists>err. last (logged (finalWorld rm)) = mk (snd (last nq)) err" by blast+
    show "rm = Inl (1, finalWorld rm) \<and>
            last (queryRowCalls (finalWorld rm)) = (t, q) \<and>
            (\<exists>err. last (logged (finalWorld rm)) = mk q err) \<and>
            Suc (length (written w (finalWorld rm))) = length (issued w (finalWorld rm)) \<and>
            map (\<lambda>x. fst (snd x)) (written w (finalWorld rm)) =
              take (length (written w (finalWorld rm))) (map (\<lambda>m. Sprintf (fst m)) ms) \<and>
            (\<forall>tb. tb \<notin> set (take (length (written w (finalWorld rm))) (map fst ms)) \<longrightarrow>
               tables (finalWorld rm) tb = tables w tb)"
      unfolding iss wr
      using fq cnt lg la eff(3) nx'(2) same by simp
  qed
qed

subsection \<open>A run that returns\<close>

lemma Exec_no_fault:
  assumes "Exec db query date count w = (None, w')"
  shows "destFault w (clock w) query date count = None"
  using assms by (auto simp: Exec_def Let_def split: option.splits)

text \<open>
  A run that returns: every query of the list was sent and answered with a row, every
  insert of the list was sent and met no fault of the destination, and every table of
  the list was there, had no row for the run's date before the run, and has one after.
\<close>

lemma runMetrics_returns:
  assumes qc: "countsLike qc" and ins: "insertsLike ins"
  shows "runMetrics qc ins pgDb sqlDb today ms w = Inr x \<Longrightarrow> distinct (map fst ms) \<Longrightarrow>
         (\<exists>nq nx. queryRowCalls x = queryRowCalls w @ nq \<and> execCalls x = execCalls w @ nx \<and>
            map snd nq = map snd ms \<and>
            (\<forall>c \<in> set nq. \<exists>n. source w (fst c) (snd c) = Row n) \<and>
            map (\<lambda>c. fst (snd c)) nx = map (\<lambda>m. Sprintf (fst m)) ms \<and>
            (\<forall>c \<in> set nx. destFault w (fst c) (fst (snd c)) (fst (snd (snd c))) (snd (snd (snd c))) = None) \<and>
            (\<forall>tb \<in> set (map fst ms).
               tables w tb \<noteq> None \<and> recorded w tb today = None \<and> recorded x tb today \<noteq> None))"
proof (induction ms arbitrary: w)
  case Nil
  then show ?case by simp
next
  case (Cons m ms)
  obtain tableName query where m: "m = (tableName, query)" by (cases m)
  have ret: "runMetrics qc ins pgDb sqlDb today ((tableName, query) # ms) w = Inr x"
    using Cons.prems(1) m by simp
  have dist: "distinct (map fst ms)" "tableName \<notin> set (map fst ms)"
    using Cons.prems(2) m by simp_all
  show ?case
  proof (cases rule: runMetrics_step[OF qc ins, of pgDb query w sqlDb today tableName ms, case_names QueryFails InsertFails Next])
    case (QueryFails err c w1 line)
    with ret show ?thesis by simp
  next
    case (InsertFails n w1 err w2 line)
    with ret show ?thesis by simp
  next
    case (Next n w1 w2 lines)
    define w3 where "w3 = w2\<lparr>logged := logged w2 @ lines\<rparr>"
    have run: "runMetrics qc ins pgDb sqlDb today ms w3 = Inr x"
      using Next(3) ret by (simp add: w3_def)
    have row: "source w (clock w) query = Row n"
      using QueryRowScan_answer(1)[OF Next(1)] by simp
    have src: "source w3 = source w"
      using QueryRowScan_fields(6)[OF Next(1)] Exec_fields(5)[OF Next(2)] by (simp add: w3_def)
    have df: "destFault w3 = destFault w" "destFault w1 = destFault w"
      using QueryRowScan_fields(10)[OF Next(1)] Exec_fields(9)[OF Next(2)] by (simp_all add: w3_def)
    have rec: "queryRowCalls w3 = queryRowCalls w @ [(clock w, query)]"
      using QueryRowScan_fields(2)[OF Next(1)] Exec_fields(2)[OF Next(2)] by (simp add: w3_def)
    have ex: "execCalls w3 = execCalls w @ [(clock w1, Sprintf tableName, today, n)]"
      using QueryRowScan_fields(3)[OF Next(1)] Exec_fields(3)[OF Next(2)] by (simp add: w3_def)
    have nf: "destFault w (clock w1) (Sprintf tableName) today n = None"
      using Exec_no_fault[OF Next(2)] df(2) by simp
    obtain rows0 where rows0: "tables w tableName = Some rows0" "rows0 today = None"
      "tables w3 = (tables w)(tableName \<mapsto> rows0(today \<mapsto> n))"
      using Exec_tables(2)[OF Next(2)] QueryRowScan_fields(4)[OF Next(1)] by (auto simp: w3_def)
    have r3: "recorded w3 tableName today = Some n"
      using rows0 by (simp add: recorded_def)
    have rx: "recorded x tableName today = Some n"
      using recorded_preserved[OF qc ins r3, of pgDb sqlDb today ms] run by simp
    from Cons.IH[OF run dist(1)] obtain nq nx where new:
      "queryRowCalls x = queryRowCalls w3 @ nq" "execCalls x = execCalls w3 @ nx"
      "map snd nq = map snd ms"
      "\<forall>c \<in> set nq. \<exists>n. source w3 (fst c) (snd c) = Row n"
      "map (\<lambda>c. fst (snd c)) nx = map (\<lambda>m. Sprintf (fst m)) ms"
      "\<forall>c \<in> set nx. destFault w3 (fst c) (fst (snd c)) (fst (snd (snd c))) (snd (snd (snd c))) = None"
      "\<forall>tb \<in> set (map fst ms). tables w3 tb \<noteq> None \<and> recorded w3 tb today = None \<and> recorded x tb today \<noteq> None"
      by blast
    have tbs: "\<forall>tb \<in> set (map fst (m # ms)). tables w tb \<noteq> None \<and> recorded w tb today = None \<and> recorded x tb today \<noteq> None"
    proof
      fix tb assume "tb \<in> set (map fst (m # ms))"
      then consider "tb = tableName" | "tb \<in> set (map fst ms)" "tb \<noteq> tableName"
        using m dist(2) by auto
      then show "tables w tb \<noteq> None \<and> recorded w tb today = None \<and> recorded x tb today \<noteq> None"
      proof cases
        case 1
        then show ?thesis using rows0(1,2) rx by (simp add: recorded_def)
      next
        case 2
        then have "tables w3 tb = tables w tb" using rows0(3) by simp
        then have "recorded w3 tb today = recorded w tb today" by (simp add: recorded_def)
        then show ?thesis using new(7) 2(1) \<open>tables w3 tb = tables w tb\<close> by auto
      qed
    qed
    show ?thesis
      apply (rule exI[of _ "(clock w, query) # nq"])
      apply (rule exI[of _ "(clock w1, Sprintf tableName, today, n) # nx"])
      using new(1,2,3,4,5,6) rec ex row src df(1) nf tbs m by simp
  qed
qed

lemma Sleep_surroundings [simp]:
  "openError (Sleep d w) = openError w" "destFault (Sleep d w) = destFault w"
  by (simp_all add: Sleep_def)

lemma loopBody_dueWorld:
  "loopBody fl w = transferData (flagPgDsn fl) (flagMysqlDsn fl) (dueWorld fl w)"
  by (simp add: loopBody_def dueWorld_def Let_def)

lemma dueWorld_fields [simp]:
  "queryRowCalls (dueWorld fl w) = queryRowCalls w" "execCalls (dueWorld fl w) = execCalls w"
  "tables (dueWorld fl w) = tables w" "source (dueWorld fl w) = source w"
  "openError (dueWorld fl w) = openError w" "destFault (dueWorld fl w) = destFault w"
  by (simp_all add: dueWorld_def)

lemma distinct_catalog: "distinct (map fst catalog)" "distinct (map fst old_catalog)"
  by (simp_all add: catalog_def old_catalog_def)

lemma transferData_opens:
  assumes "transferData pgDsn mysqlDsn w = Inr w'"
  shows "openError w Postgres pgDsn = None \<and> openError w MySQL mysqlDsn = None"
proof -
  have False if "openError w Postgres pgDsn = Some err" for err
    using assms that by (simp add: transferData_runMetrics Open_def Fatalf_def Exit_def Printf_def)
  moreover have False if "openError w Postgres pgDsn = None" "openError w MySQL mysqlDsn = Some err" for err
    using assms that by (simp add: transferData_runMetrics Open_def Fatalf_def Exit_def Printf_def)
  ultimately show ?thesis by (cases "openError w Postgres pgDsn"; cases "openError w MySQL mysqlDsn") auto
qed

text \<open>A run of \<^verbatim>\<open>transferData\<close> that returns.\<close>

lemma transferData_returns:
  assumes ret: "transferData pgDsn mysqlDsn w = Inr w'"
  shows "openError w Postgres pgDsn = None \<and> openError w MySQL mysqlDsn = None \<and>
         map snd (issued w w') = map snd catalog \<and>
         (\<forall>c \<in> set (issued w w'). \<exists>n. source w (fst c) (snd c) = Row n) \<and>
         map (\<lambda>c. fst (snd c)) (written w w') = map (\<lambda>m. Sprintf (fst m)) catalog \<and>
         (\<forall>c \<in> set (written w w'). destFault w (fst c) (fst (snd c)) (fst (snd (snd c))) (snd (snd (snd c))) = None) \<and>
         (\<forall>tb \<in> set (map fst catalog).
            tables w tb \<noteq> None \<and> recorded w tb (Format (Now w)) = None \<and> recorded w' tb (Format (Now w)) \<noteq> None)"
proof (cases rule: transferData_cases[of pgDsn mysqlDsn w, case_names OpenFails Runs])
  case (OpenFails line w1)
  with ret show ?thesis by simp
next
  case (Runs pgDb sqlDb w3)
  define today where "today = Format (Now w)"
  define rm where "rm = runMetrics queryCount insertToMySQL pgDb sqlDb today catalog w3"
  define K where "K = (\<lambda>w. Close pgDb (Close sqlDb (Printf DataTransferCompleted w)))"
  have r: "transferData pgDsn mysqlDsn w = andThen rm (\<lambda>w. Inr (K w))"
    using Runs(1) by (simp add: rm_def K_def today_def)
  obtain x where x: "rm = Inr x" "w' = K x"
  proof (cases rm)
    case (Inl e)
    with r ret show ?thesis by simp
  next
    case (Inr x)
    with r ret that show ?thesis by simp
  qed
  have K: "queryRowCalls (K y) = queryRowCalls y" "execCalls (K y) = execCalls y" "tables (K y) = tables y" for y
    by (simp_all add: K_def)
  from runMetrics_returns[OF countsLike_queryCount insertsLike_insertToMySQL x(1)[unfolded rm_def] distinct_catalog(1)]
  obtain nq nx where new:
    "queryRowCalls x = queryRowCalls w3 @ nq" "execCalls x = execCalls w3 @ nx"
    "map snd nq = map snd catalog"
    "\<forall>c \<in> set nq. \<exists>n. source w3 (fst c) (snd c) = Row n"
    "map (\<lambda>c. fst (snd c)) nx = map (\<lambda>m. Sprintf (fst m)) catalog"
    "\<forall>c \<in> set nx. destFault w3 (fst c) (fst (snd c)) (fst (snd (snd c))) (snd (snd (snd c))) = None"
    "\<forall>tb \<in> set (map fst catalog). tables w3 tb \<noteq> None \<and> recorded w3 tb today = None \<and> recorded x tb today \<noteq> None"
    by blast
  have iss: "issued w w' = nq"
    using x(2) new(1) Runs(2) K(1) by (simp add: issued_def)
  have wr: "written w w' = nx"
    using x(2) new(2) Runs(3) K(2) by (simp add: written_def)
  have rec: "recorded w3 tb d = recorded w tb d" "recorded w' tb d = recorded x tb d" for tb d
    using Runs(4) x(2) K(3) by (simp_all add: recorded_def)
  show ?thesis
    unfolding iss wr today_def[symmetric]
    using transferData_opens[OF ret] new(3,4,5,6,7) Runs(4,5,8) rec by simp
qed

subsection \<open>The first two metrics of a run\<close>

text \<open>
  The first two metrics of a list, when both of their tables have a row for the run's
  date after the run and had none before it: both queries were sent, and the two rows
  hold what the source answered to them.
\<close>

lemma runMetrics_first_two:
  assumes qc: "countsLike qc" and ins: "insertsLike ins"
    and fw: "fw = finalWorld (runMetrics qc ins pgDb sqlDb today ((tb1, q1) # (tb2, q2) # rest) w)"
    and ne: "tb1 \<noteq> tb2"
    and b1: "recorded w tb1 today = None" and a1: "recorded fw tb1 today = Some c1"
    and b2: "recorded w tb2 today = None" and a2: "recorded fw tb2 today = Some c2"
  shows "\<exists>t1 t2 new. queryRowCalls fw = queryRowCalls w @ (t1, q1) # (t2, q2) # new \<and>
           source w t1 q1 = Row c1 \<and> source w t2 q2 = Row c2"
proof (cases rule: runMetrics_step[OF qc ins, of pgDb q1 w sqlDb today tb1 "(tb2, q2) # rest", case_names QueryFails InsertFails Next])
  case (QueryFails err c w1 line)
  have "tables fw = tables w"
    using QueryFails(2) QueryRowScan_fields(4)[OF QueryFails(1)] by (simp add: fw)
  then have "recorded fw tb1 today = recorded w tb1 today" by (simp add: recorded_def)
  with a1 b1 show ?thesis by simp
next
  case (InsertFails n w1 err w2 line)
  have "tables fw = tables w"
    using InsertFails(3) QueryRowScan_fields(4)[OF InsertFails(1)] Exec_tables(1)[OF InsertFails(2)]
    by (simp add: fw)
  then have "recorded fw tb1 today = recorded w tb1 today" by (simp add: recorded_def)
  with a1 b1 show ?thesis by simp
next
  case (Next n1 w1 w2 lines)
  define wa where "wa = w2\<lparr>logged := logged w2 @ lines\<rparr>"
  have fwa: "fw = finalWorld (runMetrics qc ins pgDb sqlDb today ((tb2, q2) # rest) wa)"
    using Next(3) by (simp add: fw wa_def)
  have row1: "source w (clock w) q1 = Row n1"
    using QueryRowScan_answer(1)[OF Next(1)] by simp
  have srca: "source wa = source w"
    using QueryRowScan_fields(6)[OF Next(1)] Exec_fields(5)[OF Next(2)] by (simp add: wa_def)
  have reca: "queryRowCalls wa = queryRowCalls w @ [(clock w, q1)]"
    using QueryRowScan_fields(2)[OF Next(1)] Exec_fields(2)[OF Next(2)] by (simp add: wa_def)
  obtain rows0 where rows0: "tables w tb1 = Some rows0"
    "tables wa = (tables w)(tb1 \<mapsto> rows0(today \<mapsto> n1))"
    using Exec_tables(2)[OF Next(2)] QueryRowScan_fields(4)[OF Next(1)] by (auto simp: wa_def)
  have ra1: "recorded wa tb1 today = Some n1"
    using rows0 by (simp add: recorded_def)
  have ra2: "recorded wa tb2 today = None"
    using rows0 b2 ne by (simp add: recorded_def)
  have "recorded fw tb1 today = Some n1"
    using recorded_preserved[OF qc ins ra1, of pgDb sqlDb today "(tb2, q2) # rest"] fwa by simp
  with a1 have c1: "c1 = n1" by simp
  show ?thesis
  proof (cases rule: runMetrics_step[OF qc ins, of pgDb q2 wa sqlDb today tb2 rest, case_names QueryFails InsertFails Next])
    case (QueryFails err c w1 line)
    have "tables fw = tables wa"
      using QueryFails(2) QueryRowScan_fields(4)[OF QueryFails(1)] by (simp add: fwa)
    then have "recorded fw tb2 today = recorded wa tb2 today" by (simp add: recorded_def)
    with a2 ra2 show ?thesis by simp
  next
    case (InsertFails n w1 err w2 line)
    have "tables fw = tables wa"
      using InsertFails(3) QueryRowScan_fields(4)[OF InsertFails(1)] Exec_tables(1)[OF InsertFails(2)]
      by (simp add: fwa)
    then have "recorded fw tb2 today = recorded wa tb2 today" by (simp add: recorded_def)
    with a2 ra2 show ?thesis by simp
  next
    case (Next n2 w1' w2' lines')
    define wb where "wb = w2'\<lparr>logged := logged w2' @ lines'\<rparr>"
    have fwb: "fw = finalWorld (runMetrics qc ins pgDb sqlDb today rest wb)"
      using Next(3) by (simp add: fwa wb_def)
    have row2: "source w (clock wa) q2 = Row n2"
      using QueryRowScan_answer(1)[OF Next(1)] srca by simp
    have recb: "queryRowCalls wb = queryRowCalls w @ [(clock w, q1), (clock wa, q2)]"
      using QueryRowScan_fields(2)[OF Next(1)] Exec_fields(2)[OF Next(2)] reca by (simp add: wb_def)
    obtain rows1 where rows1: "tables wa tb2 = Some rows1"
      "tables wb = (tables wa)(tb2 \<mapsto> rows1(today \<mapsto> n2))"
      using Exec_tables(2)[OF Next(2)] QueryRowScan_fields(4)[OF Next(1)] by (auto simp: wb_def)
    have rb2: "recorded wb tb2 today = Some n2"
      using rows1 by (simp add: recorded_def)
    have "recorded fw tb2 today = Some n2"
      using recorded_preserved[OF qc ins rb2, of pgDb sqlDb today rest] fwb by simp
    with a2 have c2: "c2 = n2" by simp
    obtain new where new: "queryRowCalls fw = queryRowCalls wb @ new"
      using runMetrics_queryRowCalls[OF qc ins, of pgDb sqlDb today rest wb] fwb by auto
    show ?thesis
      apply (rule exI[of _ "clock w"])
      apply (rule exI[of _ "clock wa"])
      apply (rule exI[of _ new])
      using new recb row1 row2 c1 c2 by simp
  qed
qed

section \<open>The claims\<close>

subsection \<open>Evaluating at concrete inputs\<close>

lemmas time_eval = Now_def UTC_def newYork2024_def timeOfDay_def civilSec_def unixSec_def
  lookup_def Second_def Hour_def Nanosecond_def civilDate_def Clock_def hhmm_def digitChar_def alpha_def omega_def
  Date_def After_def Add_def nextExecution_def Let_def

lemmas scan_eval = parseExecutionTime_def Sscanf_def scanInt_def scanNumber_def isDigit_def isSpace_def
  decimal_def digitVal_def

lemma hhmm_23_00: "hhmm 23 0 = ''23:00''"
  by code_simp

lemma hhmm_25_99: "hhmm 25 99 = ''25:99''"
  by code_simp

lemmas world_eval = quietWorld_def failingSourceWorld_def downSourceWorld_def recordedWorld_def
  driftingSourceWorld_def midnightWorld_def emptySourceWorld_def nullSourceWorld_def
  lostConnectionWorld_def someFlags_def noDsnFlags_def

lemmas run_eval = Open_def Close_def Printf_def Fatalf_def Exit_def Now_def Format_def QueryRowScan_def
  queryCount_def old_queryCount_def insertToMySQL_def old_insertToMySQL_def

lemma failingSourceWorld_run:
  "transferData ''pg'' ''my'' failingSourceWorld =
     Inl (1, failingSourceWorld
       \<lparr>clock := 1709330401 * Second,
        queryRowCalls := [(1709330400 * Second, AleoActiveMachineQuery)],
        logged := [StartingDataTransfer, FailedToExecuteQuery AleoActiveMachineQuery (ErrDriver ''timeout'')],
        handles := [(0, Postgres), (1, MySQL)],
        nextHandle := 2\<rparr>)"
  by (simp add: transferData_def world_eval run_eval Let_def Second_def)

lemma downSourceWorld_old_run:
  "old_transferData ''pg'' ''my'' downSourceWorld =
     Inl (1, downSourceWorld
       \<lparr>clock := 1709330401 * Second,
        queryRowCalls := [(1709330400 * Second, old_machineQuery)],
        logged := [FailedToExecuteQueryOld (ErrDriver ''connection refused'')],
        handles := [(0, Postgres), (1, MySQL)],
        nextHandle := 2\<rparr>)"
  by (simp add: old_transferData_def world_eval run_eval Let_def Second_def)

lemma queries_differ:
  "QuaiActiveMachineQuery \<noteq> AleoActiveMachineQuery" "lostUsersQuery \<noteq> AleoActiveMachineQuery"
  "AleoactiveMachinesChannelQuery \<noteq> AleoActiveMachineQuery"
  "QuaiActiveMachinesChannelQuery \<noteq> AleoActiveMachineQuery"
  by (simp_all add: QuaiActiveMachineQuery_def AleoActiveMachineQuery_def lostUsersQuery_def
      AleoactiveMachinesChannelQuery_def QuaiActiveMachinesChannelQuery_def)

lemmas exec_eval = Exec_def tableOf_Sprintf emptyTables_def catalog_def old_catalog_def

text \<open>The runs that return, with the world each of them ends in.\<close>

lemma midnightWorld_run_world:
  "transferData ''pg'' ''my'' midnightWorld =
     Inr (midnightWorld
       \<lparr>clock := 1709337609 * Second,
        tables := (tables midnightWorld)
          (''active_machines_count_aleo'' \<mapsto> [19783 \<mapsto> 7],
           ''active_machines_count_quai_garden'' \<mapsto> [19783 \<mapsto> 7],
           ''lost_users_count'' \<mapsto> [19783 \<mapsto> 7],
           ''active_channel_machines_count_aleo'' \<mapsto> [19783 \<mapsto> 7],
           ''active_channel_machines_count_quai_garden'' \<mapsto> [19783 \<mapsto> 7]),
        queryRowCalls :=
          [(1709337599 * Second, AleoActiveMachineQuery),
           (1709337601 * Second, QuaiActiveMachineQuery),
           (1709337603 * Second, lostUsersQuery),
           (1709337605 * Second, AleoactiveMachinesChannelQuery),
           (1709337607 * Second, QuaiActiveMachinesChannelQuery)],
        execCalls :=
          [(1709337600 * Second, Sprintf ''active_machines_count_aleo'', 19783, 7),
           (1709337602 * Second, Sprintf ''active_machines_count_quai_garden'', 19783, 7),
           (1709337604 * Second, Sprintf ''lost_users_count'', 19783, 7),
           (1709337606 * Second, Sprintf ''active_channel_machines_count_aleo'', 19783, 7),
           (1709337608 * Second, Sprintf ''active_channel_machines_count_quai_garden'', 19783, 7)],
        logged :=
          [StartingDataTransfer,
           SuccessfullyInserted ''active_machines_count_aleo'' 19783 7,
           SuccessfullyInserted ''active_machines_count_quai_garden'' 19783 7,
           SuccessfullyInserted ''lost_users_count'' 19783 7,
           SuccessfullyInserted ''active_channel_machines_count_aleo'' 19783 7,
           SuccessfullyInserted ''active_channel_machines_count_quai_garden'' 19783 7,
           DataTransferCompleted],
        nextHandle := 2\<rparr>)"
  by (simp add: transferData_def world_eval run_eval exec_eval time_eval)

lemma quietWorld_loopBody_world:
  "loopBody someFlags quietWorld =
     Inr (quietWorld
       \<lparr>clock := 1709334010 * Second,
        tables := (tables quietWorld)
          (''active_machines_count_aleo'' \<mapsto> [19783 \<mapsto> 7],
           ''active_machines_count_quai_garden'' \<mapsto> [19783 \<mapsto> 7],
           ''lost_users_count'' \<mapsto> [19783 \<mapsto> 7],
           ''active_channel_machines_count_aleo'' \<mapsto> [19783 \<mapsto> 7],
           ''active_channel_machines_count_quai_garden'' \<mapsto> [19783 \<mapsto> 7]),
        queryRowCalls :=
          [(1709334000 * Second, AleoActiveMachineQuery),
           (1709334002 * Second, QuaiActiveMachineQuery),
           (1709334004 * Second, lostUsersQuery),
           (1709334006 * Second, AleoactiveMachinesChannelQuery),
           (1709334008 * Second, QuaiActiveMachinesChannelQuery)],
        execCalls :=
          [(1709334001 * Second, Sprintf ''active_machines_count_aleo'', 19783, 7),
           (1709334003 * Second, Sprintf ''active_machines_count_quai_garden'', 19783, 7),
           (1709334005 * Second, Sprintf ''lost_users_count'', 19783, 7),
           (1709334007 * Second, Sprintf ''active_channel_machines_count_aleo'', 19783, 7),
           (1709334009 * Second, Sprintf ''active_channel_machines_count_quai_garden'', 19783, 7)],
        logged :=
          [StartingDataTransfer,
           SuccessfullyInserted ''active_machines_count_aleo'' 19783 7,
           SuccessfullyInserted ''active_machines_count_quai_garden'' 19783 7,
           SuccessfullyInserted ''lost_users_count'' 19783 7,
           SuccessfullyInserted ''active_channel_machines_count_aleo'' 19783 7,
           SuccessfullyInserted ''active_channel_machines_count_quai_garden'' 19783 7,
           DataTransferCompleted],
        nextHandle := 2\<rparr>)"
  by (simp add: loopBody_def transferData_def Sleep_def Until_def Sub_def maxDuration_def minDuration_def
      world_eval run_eval exec_eval time_eval scan_eval)

lemma quietWorld_old_loopBody_world:
  "old_loopBody noDsnFlags quietWorld =
     Inr (quietWorld
       \<lparr>clock := 1709334008 * Second,
        tables := (tables quietWorld)
          (''machines_count'' \<mapsto> [19783 \<mapsto> 7],
           ''active_machines_count'' \<mapsto> [19783 \<mapsto> 7],
           ''lost_users_count'' \<mapsto> [19783 \<mapsto> 7],
           ''active_channel_machines_count'' \<mapsto> [19783 \<mapsto> 7]),
        queryRowCalls :=
          [(1709334000 * Second, old_machineQuery),
           (1709334002 * Second, old_activeMachineQuery),
           (1709334004 * Second, old_lostUsersQuery),
           (1709334006 * Second, old_activeMachinesChannelQuery)],
        execCalls :=
          [(1709334001 * Second, Sprintf ''machines_count'', 19783, 7),
           (1709334003 * Second, Sprintf ''active_machines_count'', 19783, 7),
           (1709334005 * Second, Sprintf ''lost_users_count'', 19783, 7),
           (1709334007 * Second, Sprintf ''active_channel_machines_count'', 19783, 7)],
        nextHandle := 2\<rparr>)"
  by (simp add: old_loopBody_def old_transferData_def Sleep_def Until_def Sub_def maxDuration_def minDuration_def
      world_eval run_eval exec_eval time_eval scan_eval)

lemma driftingSourceWorld_old_run_world:
  "old_transferData ''pg'' ''my'' driftingSourceWorld =
     Inr (driftingSourceWorld
       \<lparr>clock := 1709330408 * Second,
        tables := (tables driftingSourceWorld)
          (''machines_count'' \<mapsto> [19783 \<mapsto> 5],
           ''active_machines_count'' \<mapsto> [19783 \<mapsto> 6],
           ''lost_users_count'' \<mapsto> [19783 \<mapsto> 6],
           ''active_channel_machines_count'' \<mapsto> [19783 \<mapsto> 6]),
        queryRowCalls :=
          [(1709330400 * Second, old_machineQuery),
           (1709330402 * Second, old_activeMachineQuery),
           (1709330404 * Second, old_lostUsersQuery),
           (1709330406 * Second, old_activeMachinesChannelQuery)],
        execCalls :=
          [(1709330401 * Second, Sprintf ''machines_count'', 19783, 5),
           (1709330403 * Second, Sprintf ''active_machines_count'', 19783, 6),
           (1709330405 * Second, Sprintf ''lost_users_count'', 19783, 6),
           (1709330407 * Second, Sprintf ''active_channel_machines_count'', 19783, 6)],
        nextHandle := 2\<rparr>)"
  by (simp add: old_transferData_def world_eval run_eval exec_eval time_eval)

lemma midnightWorld_run:
  "execCalls (finalWorld (transferData ''pg'' ''my'' midnightWorld)) =
     [(1709337600 * Second, Sprintf ''active_machines_count_aleo'', 19783, 7),
      (1709337602 * Second, Sprintf ''active_machines_count_quai_garden'', 19783, 7),
      (1709337604 * Second, Sprintf ''lost_users_count'', 19783, 7),
      (1709337606 * Second, Sprintf ''active_channel_machines_count_aleo'', 19783, 7),
      (1709337608 * Second, Sprintf ''active_channel_machines_count_quai_garden'', 19783, 7)]"
  "clock (finalWorld (transferData ''pg'' ''my'' midnightWorld)) = 1709337609 * Second"
  "Format (Now (finalWorld (transferData ''pg'' ''my'' midnightWorld))) = 19784"
  "\<exists>w'. transferData ''pg'' ''my'' midnightWorld = Inr w'"
  "handles (finalWorld (transferData ''pg'' ''my'' midnightWorld)) = []"
  by (simp_all add: midnightWorld_run_world) (simp_all add: world_eval time_eval Format_def)

lemma midnightWorld_rows:
  "recorded midnightWorld ''lost_users_count'' 19783 = None"
  "recorded (finalWorld (transferData ''pg'' ''my'' midnightWorld)) ''lost_users_count'' 19783 = Some 7"
  "recorded (finalWorld (transferData ''pg'' ''my'' midnightWorld)) ''lost_users_count'' 19784 = None"
  by (simp_all add: midnightWorld_run_world recorded_def) (simp_all add: world_eval exec_eval)

lemma quietWorld_loopBody:
  "\<exists>w'. loopBody someFlags quietWorld = Inr w'"
  "clock (finalWorld (loopBody someFlags quietWorld)) = 1709334010 * Second"
  by (simp_all add: quietWorld_loopBody_world)

lemma quietWorld_old_loopBody:
  "\<exists>w'. old_loopBody noDsnFlags quietWorld = Inr w'"
  "logged (finalWorld (old_loopBody noDsnFlags quietWorld)) = []"
  "map (\<lambda>x. fst (snd x)) (execCalls (finalWorld (old_loopBody noDsnFlags quietWorld))) =
     map (\<lambda>m. Sprintf (fst m)) old_catalog"
  "clock (finalWorld (old_loopBody noDsnFlags quietWorld)) = 1709334008 * Second"
  by (simp_all add: quietWorld_old_loopBody_world) (simp_all add: world_eval old_catalog_def)

lemma driftingSourceWorld_old_run:
  "\<exists>w'. old_transferData ''pg'' ''my'' driftingSourceWorld = Inr w'"
  "recorded (finalWorld (old_transferData ''pg'' ''my'' driftingSourceWorld)) ''machines_count'' 19783 = Some 5"
  "recorded (finalWorld (old_transferData ''pg'' ''my'' driftingSourceWorld)) ''active_machines_count'' 19783 = Some 6"
  by (simp_all add: driftingSourceWorld_old_run_world recorded_def)

lemma failingSourceWorld_loopBody:
  "loopBody someFlags failingSourceWorld =
     Inl (1, failingSourceWorld
       \<lparr>clock := 1709334001 * Second,
        queryRowCalls := [(1709334000 * Second, AleoActiveMachineQuery)],
        logged := [StartingDataTransfer, FailedToExecuteQuery AleoActiveMachineQuery (ErrDriver ''timeout'')],
        handles := [(0, Postgres), (1, MySQL)],
        nextHandle := 2\<rparr>)"
  by (simp add: loopBody_def transferData_def Sleep_def Until_def Sub_def maxDuration_def minDuration_def world_eval run_eval time_eval scan_eval)

lemma recordedWorld_run:
  "transferData ''pg'' ''my'' recordedWorld =
     Inl (1, recordedWorld
       \<lparr>clock := 1709330402 * Second,
        queryRowCalls := [(1709330400 * Second, AleoActiveMachineQuery)],
        execCalls := [(1709330401 * Second, Sprintf ''active_machines_count_aleo'', 19783, 7)],
        logged := [StartingDataTransfer,
                   FailedToInsert (Sprintf ''active_machines_count_aleo'') ErrDuplicateEntry],
        handles := [(0, Postgres), (1, MySQL)],
        nextHandle := 2\<rparr>)"
  by (simp add: transferData_def world_eval run_eval exec_eval time_eval)

text \<open>The runs in which the third query fails.\<close>

lemma lost_queries_differ:
  "AleoActiveMachineQuery \<noteq> lostUsersQuery" "AleoActiveMachineQuery \<noteq> old_lostUsersQuery"
  "QuaiActiveMachineQuery \<noteq> lostUsersQuery" "QuaiActiveMachineQuery \<noteq> old_lostUsersQuery"
  "old_machineQuery \<noteq> lostUsersQuery" "old_machineQuery \<noteq> old_lostUsersQuery"
  "old_activeMachineQuery \<noteq> lostUsersQuery" "old_activeMachineQuery \<noteq> old_lostUsersQuery"
  by (simp_all add: QuaiActiveMachineQuery_def AleoActiveMachineQuery_def lostUsersQuery_def
      old_lostUsersQuery_def old_machineQuery_def old_activeMachineQuery_def)

lemma lostUsersFailWorld_run:
  "transferData ''pg'' ''my'' lostUsersFailWorld =
     Inl (1, lostUsersFailWorld
       \<lparr>clock := 1709330405 * Second,
        tables := (tables lostUsersFailWorld)
          (''active_machines_count_aleo'' \<mapsto> [19783 \<mapsto> 7],
           ''active_machines_count_quai_garden'' \<mapsto> [19783 \<mapsto> 7]),
        queryRowCalls :=
          [(1709330400 * Second, AleoActiveMachineQuery),
           (1709330402 * Second, QuaiActiveMachineQuery),
           (1709330404 * Second, lostUsersQuery)],
        execCalls :=
          [(1709330401 * Second, Sprintf ''active_machines_count_aleo'', 19783, 7),
           (1709330403 * Second, Sprintf ''active_machines_count_quai_garden'', 19783, 7)],
        logged :=
          [StartingDataTransfer,
           SuccessfullyInserted ''active_machines_count_aleo'' 19783 7,
           SuccessfullyInserted ''active_machines_count_quai_garden'' 19783 7,
           FailedToExecuteQuery lostUsersQuery (ErrDriver ''timeout'')],
        handles := [(0, Postgres), (1, MySQL)],
        nextHandle := 2\<rparr>)"
  by (simp add: transferData_def lostUsersFailWorld_def world_eval run_eval exec_eval time_eval lost_queries_differ)

lemma lostUsersFailWorld_old_run:
  "old_transferData ''pg'' ''my'' lostUsersFailWorld =
     Inl (1, lostUsersFailWorld
       \<lparr>clock := 1709330405 * Second,
        tables := (tables lostUsersFailWorld)
          (''machines_count'' \<mapsto> [19783 \<mapsto> 7],
           ''active_machines_count'' \<mapsto> [19783 \<mapsto> 7]),
        queryRowCalls :=
          [(1709330400 * Second, old_machineQuery),
           (1709330402 * Second, old_activeMachineQuery),
           (1709330404 * Second, old_lostUsersQuery)],
        execCalls :=
          [(1709330401 * Second, Sprintf ''machines_count'', 19783, 7),
           (1709330403 * Second, Sprintf ''active_machines_count'', 19783, 7)],
        logged := [FailedToExecuteQueryOld (ErrDriver ''timeout'')],
        handles := [(0, Postgres), (1, MySQL)],
        nextHandle := 2\<rparr>)"
  by (simp add: old_transferData_def lostUsersFailWorld_def world_eval run_eval exec_eval time_eval lost_queries_differ)


lemma lostUsersFailWorld_facts:
  "queryRowCalls lostUsersFailWorld = []" "execCalls lostUsersFailWorld = []"
  "source lostUsersFailWorld t lostUsersQuery = QueryFailed ''timeout''"
  "source lostUsersFailWorld t old_lostUsersQuery = QueryFailed ''timeout''"
  "source lostUsersFailWorld t old_machineQuery = Row 7"
  "source lostUsersFailWorld t old_activeMachineQuery = Row 7"
  "Format (Now lostUsersFailWorld) = 19783"
  "recorded lostUsersFailWorld ''machines_count'' 19783 = None"
  "recorded lostUsersFailWorld ''active_machines_count'' 19783 = None"
  by (simp_all add: lostUsersFailWorld_def world_eval lost_queries_differ time_eval Format_def
      recorded_def exec_eval)

text \<open>Readings of the clock in New York in June, and in the quiet world.\<close>

lemma june_readings:
  "Clock juneEvening = (22, 0, 0)" "civilDate juneEvening = 19889" "timeOfDay juneEvening = 79200 * Second"
  "Clock juneNight = (23, 30, 0)" "civilDate juneNight = 19889" "timeOfDay juneNight = 84600 * Second"
  by (simp_all add: juneEvening_def juneNight_def time_eval)

lemma june_steady: "steadyDays juneEvening" "steadyDays juneNight"
  by (auto simp: steadyDays_def offsetAt_def juneEvening_def juneNight_def time_eval)

lemma quiet_steady: "steadyDays (Now quietWorld)"
  by (simp add: steadyDays_def offsetAt_def quietWorld_def time_eval)

text \<open>The world in which the run of the recorded world starts.\<close>

lemma recordedWorld_due:
  "Format (Now (dueWorld someFlags recordedWorld)) = 19783"
  "recorded recordedWorld ''active_machines_count_aleo'' 19783 = Some 7"
  "''active_machines_count_aleo'' \<in> set (map fst catalog)"
  by (simp_all add: dueWorld_def Sleep_def Until_def Sub_def maxDuration_def minDuration_def
      world_eval time_eval scan_eval Format_def recorded_def exec_eval)

subsection \<open>C1: a failed source query\<close>

text \<open>
  C1, as the code has it, in both variants. The queries a run sends to the source are
  always an initial segment of the metric list, in its order. When a query that was sent
  was not answered with a row, \<^verbatim>\<open>queryCount\<close> has logged the failure and ended the process
  with status 1 at that query: it is the last query sent, its failure is the last line
  of the log, one insert fewer than queries has been sent to the destination (the inserts
  of the metrics before the failed one, in order), and no table but theirs has changed.
  So neither the failed metric nor any metric after it is written in that run, and no
  metric after it is queried.
\<close>

theorem failed_query_ends_the_process:
  "(let w' = finalWorld (transferData pgDsn mysqlDsn w) in
      (\<exists>k. map snd (issued w w') = take k (map snd catalog)) \<and>
      ((t, q) \<in> set (issued w w') \<and> (\<forall>n. source w t q \<noteq> Row n) \<longrightarrow>
         transferData pgDsn mysqlDsn w = Inl (1, w') \<and>
         last (queryRowCalls w') = (t, q) \<and>
         (\<exists>err. last (logged w') = FailedToExecuteQuery q err) \<and>
         Suc (length (written w w')) = length (issued w w') \<and>
         map (\<lambda>x. fst (snd x)) (written w w') =
           take (length (written w w')) (map (\<lambda>m. Sprintf (fst m)) catalog) \<and>
         (\<forall>tableName. tableName \<notin> set (take (length (written w w')) (map fst catalog)) \<longrightarrow>
            tables w' tableName = tables w tableName))) \<and>
   (let w' = finalWorld (old_transferData pgDsn mysqlDsn w) in
      (\<exists>k. map snd (issued w w') = take k (map snd old_catalog)) \<and>
      ((t, q) \<in> set (issued w w') \<and> (\<forall>n. source w t q \<noteq> Row n) \<longrightarrow>
         old_transferData pgDsn mysqlDsn w = Inl (1, w') \<and>
         last (queryRowCalls w') = (t, q) \<and>
         (\<exists>err. last (logged w') = FailedToExecuteQueryOld err) \<and>
         Suc (length (written w w')) = length (issued w w') \<and>
         map (\<lambda>x. fst (snd x)) (written w w') =
           take (length (written w w')) (map (\<lambda>m. Sprintf (fst m)) old_catalog) \<and>
         (\<forall>tableName. tableName \<notin> set (take (length (written w w')) (map fst old_catalog)) \<longrightarrow>
            tables w' tableName = tables w tableName)))"
proof (rule conjI)
  define r where "r = transferData pgDsn mysqlDsn w"
  have "(\<exists>k. map snd (issued w (finalWorld r)) = take k (map snd catalog)) \<and>
      ((t, q) \<in> set (issued w (finalWorld r)) \<and> (\<forall>n. source w t q \<noteq> Row n) \<longrightarrow>
         r = Inl (1, finalWorld r) \<and>
         last (queryRowCalls (finalWorld r)) = (t, q) \<and>
         (\<exists>err. last (logged (finalWorld r)) = FailedToExecuteQuery q err) \<and>
         Suc (length (written w (finalWorld r))) = length (issued w (finalWorld r)) \<and>
         map (\<lambda>x. fst (snd x)) (written w (finalWorld r)) =
           take (length (written w (finalWorld r))) (map (\<lambda>m. Sprintf (fst m)) catalog) \<and>
         (\<forall>tableName. tableName \<notin> set (take (length (written w (finalWorld r))) (map fst catalog)) \<longrightarrow>
            tables (finalWorld r) tableName = tables w tableName))"
  proof (cases rule: transferData_cases[of pgDsn mysqlDsn w, case_names OpenFails Runs])
    case (OpenFails line w1)
    then show ?thesis by (simp add: issued_def r_def)
  next
    case (Runs pgDb sqlDb w3)
    define rm where "rm = runMetrics queryCount insertToMySQL pgDb sqlDb (Format (Now w)) catalog w3"
    define K where "K = (\<lambda>w. Close pgDb (Close sqlDb (Printf DataTransferCompleted w)))"
    have rK: "r = andThen rm (\<lambda>w. Inr (K w))"
      using Runs(1) by (simp add: rm_def K_def r_def)
    have K: "queryRowCalls (K x) = queryRowCalls x" "execCalls (K x) = execCalls x" "tables (K x) = tables x" for x
      by (simp_all add: K_def)
    have fin: "queryRowCalls (finalWorld r) = queryRowCalls (finalWorld rm)"
      "execCalls (finalWorld r) = execCalls (finalWorld rm)"
      "tables (finalWorld r) = tables (finalWorld rm)"
      using andThen_finish(3)[OF rK] K by auto
    have iss: "issued w (finalWorld r) = issued w3 (finalWorld rm)"
      using fin(1) Runs(2) by (simp add: issued_def)
    have wr: "written w (finalWorld r) = written w3 (finalWorld rm)"
      using fin(2) Runs(3) by (simp add: written_def)
    have ex: "rm = Inl (1, finalWorld rm) \<Longrightarrow> r = Inl (1, finalWorld r) \<and> logged (finalWorld r) = logged (finalWorld rm)"
      using andThen_finish(1)[OF rK, of "(1, finalWorld rm)"] by simp
    note core = runMetrics_failed_query_all[where mk = FailedToExecuteQuery,
        OF countsLike_queryCount insertsLike_insertToMySQL queryCount_fails rm_def, of t q]
    show ?thesis
      unfolding iss wr fin
      using core ex Runs(4,5) by auto
  qed
  then show "let w' = finalWorld (transferData pgDsn mysqlDsn w) in
      (\<exists>k. map snd (issued w w') = take k (map snd catalog)) \<and>
      ((t, q) \<in> set (issued w w') \<and> (\<forall>n. source w t q \<noteq> Row n) \<longrightarrow>
         transferData pgDsn mysqlDsn w = Inl (1, w') \<and>
         last (queryRowCalls w') = (t, q) \<and>
         (\<exists>err. last (logged w') = FailedToExecuteQuery q err) \<and>
         Suc (length (written w w')) = length (issued w w') \<and>
         map (\<lambda>x. fst (snd x)) (written w w') =
           take (length (written w w')) (map (\<lambda>m. Sprintf (fst m)) catalog) \<and>
         (\<forall>tableName. tableName \<notin> set (take (length (written w w')) (map fst catalog)) \<longrightarrow>
            tables w' tableName = tables w tableName))"
    unfolding Let_def r_def .
next
  define r where "r = old_transferData pgDsn mysqlDsn w"
  have "(\<exists>k. map snd (issued w (finalWorld r)) = take k (map snd old_catalog)) \<and>
      ((t, q) \<in> set (issued w (finalWorld r)) \<and> (\<forall>n. source w t q \<noteq> Row n) \<longrightarrow>
         r = Inl (1, finalWorld r) \<and>
         last (queryRowCalls (finalWorld r)) = (t, q) \<and>
         (\<exists>err. last (logged (finalWorld r)) = FailedToExecuteQueryOld err) \<and>
         Suc (length (written w (finalWorld r))) = length (issued w (finalWorld r)) \<and>
         map (\<lambda>x. fst (snd x)) (written w (finalWorld r)) =
           take (length (written w (finalWorld r))) (map (\<lambda>m. Sprintf (fst m)) old_catalog) \<and>
         (\<forall>tableName. tableName \<notin> set (take (length (written w (finalWorld r))) (map fst old_catalog)) \<longrightarrow>
            tables (finalWorld r) tableName = tables w tableName))"
  proof (cases rule: old_transferData_cases[of pgDsn mysqlDsn w, case_names OpenFails Runs])
    case (OpenFails line w1)
    then show ?thesis by (simp add: issued_def r_def)
  next
    case (Runs pgDb sqlDb w3)
    define rm where "rm = runMetrics old_queryCount old_insertToMySQL pgDb sqlDb (Format (Now w)) old_catalog w3"
    define K where "K = (\<lambda>w. Close pgDb (Close sqlDb w))"
    have rK: "r = andThen rm (\<lambda>w. Inr (K w))"
      using Runs(1) by (simp add: rm_def K_def r_def)
    have K: "queryRowCalls (K x) = queryRowCalls x" "execCalls (K x) = execCalls x" "tables (K x) = tables x" for x
      by (simp_all add: K_def)
    have fin: "queryRowCalls (finalWorld r) = queryRowCalls (finalWorld rm)"
      "execCalls (finalWorld r) = execCalls (finalWorld rm)"
      "tables (finalWorld r) = tables (finalWorld rm)"
      using andThen_finish(3)[OF rK] K by auto
    have iss: "issued w (finalWorld r) = issued w3 (finalWorld rm)"
      using fin(1) Runs(2) by (simp add: issued_def)
    have wr: "written w (finalWorld r) = written w3 (finalWorld rm)"
      using fin(2) Runs(3) by (simp add: written_def)
    have ex: "rm = Inl (1, finalWorld rm) \<Longrightarrow> r = Inl (1, finalWorld r) \<and> logged (finalWorld r) = logged (finalWorld rm)"
      using andThen_finish(1)[OF rK, of "(1, finalWorld rm)"] by simp
    note core = runMetrics_failed_query_all[OF countsLike_old_queryCount insertsLike_old_insertToMySQL old_queryCount_fails rm_def, where t = t and q = q]
    show ?thesis
      unfolding iss wr fin
      using core ex Runs(4,5) by auto
  qed
  then show "let w' = finalWorld (old_transferData pgDsn mysqlDsn w) in
      (\<exists>k. map snd (issued w w') = take k (map snd old_catalog)) \<and>
      ((t, q) \<in> set (issued w w') \<and> (\<forall>n. source w t q \<noteq> Row n) \<longrightarrow>
         old_transferData pgDsn mysqlDsn w = Inl (1, w') \<and>
         last (queryRowCalls w') = (t, q) \<and>
         (\<exists>err. last (logged w') = FailedToExecuteQueryOld err) \<and>
         Suc (length (written w w')) = length (issued w w') \<and>
         map (\<lambda>x. fst (snd x)) (written w w') =
           take (length (written w w')) (map (\<lambda>m. Sprintf (fst m)) old_catalog) \<and>
         (\<forall>tableName. tableName \<notin> set (take (length (written w w')) (map fst old_catalog)) \<longrightarrow>
            tables w' tableName = tables w tableName))"
    unfolding Let_def r_def .
qed

theorem failed_query_ends_the_process_witness:
  "(1709330404 * Second, lostUsersQuery)
     \<in> set (issued lostUsersFailWorld (finalWorld (transferData ''pg'' ''my'' lostUsersFailWorld))) \<and>
   source lostUsersFailWorld (1709330404 * Second) lostUsersQuery = QueryFailed ''timeout'' \<and>
   transferData ''pg'' ''my'' lostUsersFailWorld =
     Inl (1, finalWorld (transferData ''pg'' ''my'' lostUsersFailWorld)) \<and>
   last (queryRowCalls (finalWorld (transferData ''pg'' ''my'' lostUsersFailWorld))) =
     (1709330404 * Second, lostUsersQuery) \<and>
   (\<exists>err. last (logged (finalWorld (transferData ''pg'' ''my'' lostUsersFailWorld))) =
      FailedToExecuteQuery lostUsersQuery err) \<and>
   length (issued lostUsersFailWorld (finalWorld (transferData ''pg'' ''my'' lostUsersFailWorld))) = 3 \<and>
   map (\<lambda>x. fst (snd x)) (written lostUsersFailWorld (finalWorld (transferData ''pg'' ''my'' lostUsersFailWorld))) =
     [Sprintf ''active_machines_count_aleo'', Sprintf ''active_machines_count_quai_garden''] \<and>
   tables (finalWorld (transferData ''pg'' ''my'' lostUsersFailWorld)) ''lost_users_count'' =
     tables lostUsersFailWorld ''lost_users_count'' \<and>
   tables (finalWorld (transferData ''pg'' ''my'' lostUsersFailWorld)) ''active_channel_machines_count_aleo'' =
     tables lostUsersFailWorld ''active_channel_machines_count_aleo'' \<and>
   (1709330400 * Second, old_machineQuery)
     \<in> set (issued downSourceWorld (finalWorld (old_transferData ''pg'' ''my'' downSourceWorld))) \<and>
   source downSourceWorld (1709330400 * Second) old_machineQuery = QueryFailed ''connection refused'' \<and>
   old_transferData ''pg'' ''my'' downSourceWorld =
     Inl (1, finalWorld (old_transferData ''pg'' ''my'' downSourceWorld)) \<and>
   last (queryRowCalls (finalWorld (old_transferData ''pg'' ''my'' downSourceWorld))) =
     (1709330400 * Second, old_machineQuery) \<and>
   (\<exists>err. last (logged (finalWorld (old_transferData ''pg'' ''my'' downSourceWorld))) =
      FailedToExecuteQueryOld err) \<and>
   written downSourceWorld (finalWorld (old_transferData ''pg'' ''my'' downSourceWorld)) = []"
proof -
  define fw where "fw = finalWorld (transferData ''pg'' ''my'' lostUsersFailWorld)"
  define fo where "fo = finalWorld (old_transferData ''pg'' ''my'' downSourceWorld)"
  have m1: "(1709330404 * Second, lostUsersQuery) \<in> set (issued lostUsersFailWorld fw)"
    by (simp add: fw_def lostUsersFailWorld_run issued_def lostUsersFailWorld_facts)
  have s1: "source lostUsersFailWorld (1709330404 * Second) lostUsersQuery = QueryFailed ''timeout''"
    by (simp add: lostUsersFailWorld_facts)
  have l1: "length (issued lostUsersFailWorld fw) = 3"
    by (simp add: fw_def lostUsersFailWorld_run issued_def lostUsersFailWorld_facts)
  have m2: "(1709330400 * Second, old_machineQuery) \<in> set (issued downSourceWorld fo)"
    by (simp add: fo_def downSourceWorld_old_run issued_def) (simp add: world_eval)
  have s2: "source downSourceWorld (1709330400 * Second) old_machineQuery = QueryFailed ''connection refused''"
    by (simp add: world_eval)
  have c1: "transferData ''pg'' ''my'' lostUsersFailWorld = Inl (1, fw) \<and>
     last (queryRowCalls fw) = (1709330404 * Second, lostUsersQuery) \<and>
     (\<exists>err. last (logged fw) = FailedToExecuteQuery lostUsersQuery err) \<and>
     Suc (length (written lostUsersFailWorld fw)) = length (issued lostUsersFailWorld fw) \<and>
     map (\<lambda>x. fst (snd x)) (written lostUsersFailWorld fw) =
       take (length (written lostUsersFailWorld fw)) (map (\<lambda>m. Sprintf (fst m)) catalog) \<and>
     (\<forall>tableName. tableName \<notin> set (take (length (written lostUsersFailWorld fw)) (map fst catalog)) \<longrightarrow>
        tables fw tableName = tables lostUsersFailWorld tableName)"
    using failed_query_ends_the_process[where t = "1709330404 * Second" and q = lostUsersQuery
        and w = lostUsersFailWorld and pgDsn = "''pg''" and mysqlDsn = "''my''", THEN conjunct1]
      m1 s1 unfolding Let_def fw_def by simp
  then have l2: "length (written lostUsersFailWorld fw) = 2" using l1 by simp
  have st: "map (\<lambda>x. fst (snd x)) (written lostUsersFailWorld fw) =
     [Sprintf ''active_machines_count_aleo'', Sprintf ''active_machines_count_quai_garden'']"
    using c1 unfolding l2 by (simp add: catalog_def)
  have t1: "tables fw ''lost_users_count'' = tables lostUsersFailWorld ''lost_users_count''"
    "tables fw ''active_channel_machines_count_aleo'' = tables lostUsersFailWorld ''active_channel_machines_count_aleo''"
    using c1 unfolding l2 by (simp_all add: catalog_def)
  have c2: "old_transferData ''pg'' ''my'' downSourceWorld = Inl (1, fo) \<and>
     last (queryRowCalls fo) = (1709330400 * Second, old_machineQuery) \<and>
     (\<exists>err. last (logged fo) = FailedToExecuteQueryOld err) \<and>
     Suc (length (written downSourceWorld fo)) = length (issued downSourceWorld fo)"
    using failed_query_ends_the_process[where t = "1709330400 * Second" and q = old_machineQuery
        and w = downSourceWorld and pgDsn = "''pg''" and mysqlDsn = "''my''", THEN conjunct2]
      m2 s2 unfolding Let_def fo_def by simp
  have "length (issued downSourceWorld fo) = 1"
    by (simp add: fo_def downSourceWorld_old_run issued_def) (simp add: world_eval)
  with c2 have w2: "written downSourceWorld fo = []" by simp
  show ?thesis
    unfolding fw_def[symmetric] fo_def[symmetric]
    using m1 s1 l1 c1 st t1 m2 s2 c2 w2 by blast
qed

text \<open>
  The first query fails and the source would have answered the four others: the
  process exits with status 1, only the first query has been sent to the source,
  nothing has been sent to the destination, and its tables are as they were.
\<close>

theorem isolation_counterexample:
  "source failingSourceWorld (1709330400 * Second) AleoActiveMachineQuery = QueryFailed ''timeout'' \<and>
   source failingSourceWorld (1709330401 * Second) QuaiActiveMachineQuery = Row 7 \<and>
   source failingSourceWorld (1709330401 * Second) lostUsersQuery = Row 7 \<and>
   source failingSourceWorld (1709330401 * Second) AleoactiveMachinesChannelQuery = Row 7 \<and>
   source failingSourceWorld (1709330401 * Second) QuaiActiveMachinesChannelQuery = Row 7 \<and>
   transferData ''pg'' ''my'' failingSourceWorld =
     Inl (1, finalWorld (transferData ''pg'' ''my'' failingSourceWorld)) \<and>
   queryRowCalls (finalWorld (transferData ''pg'' ''my'' failingSourceWorld)) =
     [(1709330400 * Second, AleoActiveMachineQuery)] \<and>
   execCalls (finalWorld (transferData ''pg'' ''my'' failingSourceWorld)) = [] \<and>
   tables (finalWorld (transferData ''pg'' ''my'' failingSourceWorld)) = tables failingSourceWorld \<and>
   logged (finalWorld (transferData ''pg'' ''my'' failingSourceWorld)) =
     [StartingDataTransfer, FailedToExecuteQuery AleoActiveMachineQuery (ErrDriver ''timeout'')]"
  by (simp add: failingSourceWorld_run) (simp add: world_eval queries_differ)

subsection \<open>C2: the due time\<close>

text \<open>
  C2, as the code has it. For every \<^verbatim>\<open>HH:MM\<close> with the hour in 0..23 and the minute in
  0..59, the due time that \<open>main\<close> computes is the instant \<^verbatim>\<open>time.Date\<close> gives for today's
  date at \<^verbatim>\<open>HH:MM\<close>, plus exactly 24 hours when \<open>now\<close> is after it. When the offset in force
  now is in force throughout today and tomorrow (\<open>steadyDays\<close>), that due time is not
  before \<open>now\<close>, reads \<^verbatim>\<open>HH:MM:00\<close> on the local clock, and falls on today's date when the
  local time of day has not passed \<^verbatim>\<open>HH:MM\<close>, on tomorrow's otherwise. Across a change of
  the offset it need not: a day on which the offset changes is not 24 hours long.
\<close>

theorem nextExecution_steady_days:
  "(0 \<le> h \<and> h \<le> 23 \<and> 0 \<le> m \<and> m \<le> 59 \<longrightarrow>
      nextExecution now (hhmm h m) =
        (let execution = Date (civilDate now) h m 0 0 (loc now)
         in if After now execution then Add execution (24 * Hour) else execution)) \<and>
   (0 \<le> h \<and> h \<le> 23 \<and> 0 \<le> m \<and> m \<le> 59 \<and> steadyDays now \<longrightarrow>
      (let due = nextExecution now (hhmm h m) in
         wall now \<le> wall due \<and> loc due = loc now \<and>
         Clock due = (h, m, 0) \<and> Nanosecond due = 0 \<and>
         civilDate due =
           (if timeOfDay now \<le> (h * 3600 + m * 60) * Second then civilDate now
            else civilDate now + 1)))"
proof (rule conjI; rule impI)
  assume "0 \<le> h \<and> h \<le> 23 \<and> 0 \<le> m \<and> m \<le> 59"
  then have "parseExecutionTime (hhmm h m) = (h, m)"
    using parseExecutionTime_hhmm[of h m] by simp
  then show "nextExecution now (hhmm h m) =
        (let execution = Date (civilDate now) h m 0 0 (loc now)
         in if After now execution then Add execution (24 * Hour) else execution)"
    by (simp add: nextExecution_def)
next
  assume a: "0 \<le> h \<and> h \<le> 23 \<and> 0 \<le> m \<and> m \<le> 59 \<and> steadyDays now"
  then have h: "0 \<le> h" "h \<le> 23" and m: "0 \<le> m" "m \<le> 59" by simp_all
  define l where "l = loc now"
  define s where "s = h * 3600 + m * 60"
  define D where "D = civilDate now"
  define off where "off = offsetAt l (unixSec now)"
  define tod where "tod = civilSec now mod 86400"
  define ns where "ns = Nanosecond now"
  have st: "\<forall>sec. (D * 86400 - off \<le> sec \<and> sec < (D + 2) * 86400 - off) \<or>
               (D * 86400 \<le> sec \<and> sec < (D + 1) * 86400) \<longrightarrow> offsetAt l sec = off"
  proof -
    from a have "steadyDays now" by simp
    then show ?thesis
      unfolding steadyDays_def Let_def l_def D_def off_def .
  qed
  have s: "0 \<le> s" "s < 86400" using h m by (auto simp: s_def)
  have tod: "0 \<le> tod" "tod < 86400" by (auto simp: tod_def)
  have ns: "0 \<le> ns" "ns < Second" by (auto simp: ns_def Nanosecond_def Second_def)
  have Spos: "0 < Second" by (simp add: Second_def)
  have parse: "parseExecutionTime (hhmm h m) = (h, m)"
    using parseExecutionTime_hhmm[of h m] h m by simp
  have exec: "Date D h m 0 0 l = \<lparr>wall = (D * 86400 + s - off) * Second, loc = l\<rparr>"
    using Date_steady[OF st s_def s] .
  have now: "wall now = (D * 86400 + tod - off) * Second + ns"
    using wall_offset[of now] by (simp add: D_def tod_def ns_def l_def off_def)
  have tday: "timeOfDay now = tod * Second + ns"
    by (simp add: timeOfDay_def tod_def ns_def)
  have dD: "D = D \<or> D = D + 1" "D + 1 = D \<or> D + 1 = D + 1" by simp_all
  note rdD = readings_steady[OF st dD(1) s]
  note rdD1 = readings_steady[OF st dD(2) s]
  have clock: "Clock \<lparr>wall = (d * 86400 + s - off) * Second, loc = l\<rparr> = (h, m, 0)"
    if "d = D \<or> d = D + 1" for d
  proof -
    have "s div 3600 = h" "s mod 3600 div 60 = m" "s mod 60 = 0"
      using h m by (auto simp: s_def)
    then show ?thesis
      using readings_steady(2)[OF st that s] by (simp add: Clock_def Let_def)
  qed
  have after: "After now (Date D h m 0 0 l) \<longleftrightarrow> \<not> (tod * Second + ns \<le> s * Second)"
    unfolding exec After_def now by (auto simp: algebra_simps)
  have bound: "tod * Second + ns < 86400 * Second"
  proof -
    have "(tod + 1) * Second \<le> 86400 * Second"
      using tod Spos by (intro mult_right_mono) auto
    then have "tod * Second + Second \<le> 86400 * Second"
      by (simp add: algebra_simps)
    with ns show ?thesis by linarith
  qed
  have snn: "0 \<le> s * Second" using s Spos by simp
  show "let due = nextExecution now (hhmm h m) in
         wall now \<le> wall due \<and> loc due = loc now \<and>
         Clock due = (h, m, 0) \<and> Nanosecond due = 0 \<and>
         civilDate due =
           (if timeOfDay now \<le> (h * 3600 + m * 60) * Second then civilDate now
            else civilDate now + 1)"
  proof (cases "tod * Second + ns \<le> s * Second")
    case True
    then have due: "nextExecution now (hhmm h m) = \<lparr>wall = (D * 86400 + s - off) * Second, loc = l\<rparr>"
      using after exec by (simp add: nextExecution_def parse D_def[symmetric] l_def[symmetric])
    have "wall now \<le> (D * 86400 + s - off) * Second"
      unfolding now using True by (simp add: algebra_simps)
    then show ?thesis
      unfolding due Let_def
      using True rdD clock[of D]
      by (simp add: tday s_def D_def l_def)
  next
    case False
    have add: "Add \<lparr>wall = (D * 86400 + s - off) * Second, loc = l\<rparr> (24 * Hour)
        = \<lparr>wall = ((D + 1) * 86400 + s - off) * Second, loc = l\<rparr>"
      by (simp add: Add_def Hour_def algebra_simps)
    from False have due: "nextExecution now (hhmm h m) = \<lparr>wall = ((D + 1) * 86400 + s - off) * Second, loc = l\<rparr>"
      using after exec add by (simp add: nextExecution_def parse D_def[symmetric] l_def[symmetric])
    have "wall now \<le> ((D + 1) * 86400 + s - off) * Second"
      unfolding now using bound snn by (simp add: algebra_simps)
    then show ?thesis
      unfolding due Let_def
      using False rdD1 clock[of "D + 1"]
      by (simp add: tday s_def D_def l_def)
  qed
qed

theorem nextExecution_steady_days_witness:
  "hhmm 23 0 = ''23:00'' \<and>
   steadyDays juneEvening \<and> Clock juneEvening = (22, 0, 0) \<and> civilDate juneEvening = 19889 \<and>
   wall juneEvening \<le> wall (nextExecution juneEvening ''23:00'') \<and>
   Clock (nextExecution juneEvening ''23:00'') = (23, 0, 0) \<and>
   civilDate (nextExecution juneEvening ''23:00'') = 19889 \<and>
   steadyDays juneNight \<and> Clock juneNight = (23, 30, 0) \<and> civilDate juneNight = 19889 \<and>
   wall juneNight \<le> wall (nextExecution juneNight ''23:00'') \<and>
   Clock (nextExecution juneNight ''23:00'') = (23, 0, 0) \<and>
   civilDate (nextExecution juneNight ''23:00'') = 19890 \<and>
   steadyDays (Now quietWorld) \<and>
   Clock (nextExecution (Now quietWorld) ''23:00'') = (23, 0, 0) \<and>
   civilDate (nextExecution (Now quietWorld) ''23:00'') = civilDate (Now quietWorld) \<and>
   nextExecution fallBackEvening ''23:00'' =
     (let execution = Date (civilDate fallBackEvening) 23 0 0 0 (loc fallBackEvening)
      in if After fallBackEvening execution then Add execution (24 * Hour) else execution)"
proof -
  have q: "timeOfDay (Now quietWorld) = 79200 * Second"
    by (simp add: quietWorld_def time_eval)
  have hm: "(0::int) \<le> 23 \<and> (23::int) \<le> 23 \<and> (0::int) \<le> 0 \<and> (0::int) \<le> 59" by simp
  have e: "wall juneEvening \<le> wall (nextExecution juneEvening ''23:00'') \<and>
      Clock (nextExecution juneEvening ''23:00'') = (23, 0, 0) \<and>
      civilDate (nextExecution juneEvening ''23:00'') = 19889"
    using nextExecution_steady_days[of 23 0 juneEvening, THEN conjunct2] june_steady(1) june_readings(2,3)
    by (simp add: hhmm_23_00 Let_def Second_def)
  have n: "wall juneNight \<le> wall (nextExecution juneNight ''23:00'') \<and>
      Clock (nextExecution juneNight ''23:00'') = (23, 0, 0) \<and>
      civilDate (nextExecution juneNight ''23:00'') = 19890"
    using nextExecution_steady_days[of 23 0 juneNight, THEN conjunct2] june_steady(2) june_readings(5,6)
    by (simp add: hhmm_23_00 Let_def Second_def)
  have u: "Clock (nextExecution (Now quietWorld) ''23:00'') = (23, 0, 0) \<and>
      civilDate (nextExecution (Now quietWorld) ''23:00'') = civilDate (Now quietWorld)"
    using nextExecution_steady_days[of 23 0 "Now quietWorld", THEN conjunct2] quiet_steady q
    by (simp add: hhmm_23_00 Let_def Second_def)
  have g: "nextExecution fallBackEvening ''23:00'' =
     (let execution = Date (civilDate fallBackEvening) 23 0 0 0 (loc fallBackEvening)
      in if After fallBackEvening execution then Add execution (24 * Hour) else execution)"
    using nextExecution_steady_days[of 23 0 fallBackEvening, THEN conjunct1] hm
    unfolding hhmm_23_00 by blast
  show ?thesis
    using e n u g hhmm_23_00 june_steady june_readings(1,2,4,5) quiet_steady by blast
qed

text \<open>
  In New York on 2024-11-03 at 23:30, with the execution time \<^verbatim>\<open>00:00\<close>: today's midnight
  is 24 hours and 30 minutes back, so the computed due time is 23:00 of the same day,
  half an hour in the past, and not tomorrow's midnight.
\<close>

theorem nextExecution_counterexample:
  "Clock fallBackEvening = (23, 30, 0) \<and> civilDate fallBackEvening = 20030 \<and>
   nextExecution fallBackEvening ''00:00'' = \<lparr>wall = 1730692800 * Second, loc = newYork2024\<rparr> \<and>
   wall (nextExecution fallBackEvening ''00:00'') < wall fallBackEvening \<and>
   civilDate (nextExecution fallBackEvening ''00:00'') = 20030 \<and>
   Clock (nextExecution fallBackEvening ''00:00'') = (23, 0, 0)"
  by (simp add: fallBackEvening_def time_eval scan_eval)

text \<open>
  On the eve of the change to summer time the added 24 hours overshoot: from 23:30 on
  2024-03-09 the due time for \<^verbatim>\<open>23:00\<close> is 00:00 on 2024-03-11.
\<close>

lemma nextExecution_spring:
  "Clock springEve = (23, 30, 0) \<and> civilDate springEve = 19791 \<and>
   civilDate (nextExecution springEve ''23:00'') = 19793 \<and>
   Clock (nextExecution springEve ''23:00'') = (0, 0, 0)"
  by (simp add: springEve_def time_eval scan_eval)

subsection \<open>C3: a row for the date is already there\<close>

text \<open>
  C3, as the code has it. \<^verbatim>\<open>insertToMySQL\<close> treats a duplicate date as it treats every
  other error of the insert: it prints the same line with the driver's error and ends
  the process with status 1; the destination's tables are as they were. A run never
  changes a row that was recorded before it, so after a second run on the same date the
  destination still holds the one row of the first run for each metric.
\<close>

theorem duplicate_date_ends_the_process:
  "(tables w tableName = Some rows \<and> rows date = Some c \<and>
    destFault w (clock w) (Sprintf tableName) date count = None \<longrightarrow>
      (\<exists>w'. insertToMySQL db tableName date count w = Inl (1, w') \<and> tables w' = tables w \<and>
            logged w' = logged w @ [FailedToInsert (Sprintf tableName) ErrDuplicateEntry])) \<and>
   (destFault w (clock w) (Sprintf tableName) date count = Some err \<longrightarrow>
      (\<exists>w'. insertToMySQL db tableName date count w = Inl (1, w') \<and> tables w' = tables w \<and>
            logged w' = logged w @ [FailedToInsert (Sprintf tableName) err])) \<and>
   (recorded w tableName date = Some c \<longrightarrow>
      recorded (finalWorld (transferData pgDsn mysqlDsn w)) tableName date = Some c)"
proof (intro conjI impI)
  assume "tables w tableName = Some rows \<and> rows date = Some c \<and>
    destFault w (clock w) (Sprintf tableName) date count = None"
  then show "\<exists>w'. insertToMySQL db tableName date count w = Inl (1, w') \<and> tables w' = tables w \<and>
            logged w' = logged w @ [FailedToInsert (Sprintf tableName) ErrDuplicateEntry]"
    by (simp add: insertToMySQL_def Exec_def tableOf_Sprintf Let_def Exit_def Printf_def)
next
  assume "destFault w (clock w) (Sprintf tableName) date count = Some err"
  then show "\<exists>w'. insertToMySQL db tableName date count w = Inl (1, w') \<and> tables w' = tables w \<and>
            logged w' = logged w @ [FailedToInsert (Sprintf tableName) err]"
    by (simp add: insertToMySQL_def Exec_def Let_def Exit_def Printf_def)
next
  assume a: "recorded w tableName date = Some c"
  then obtain rows where rows: "tables w tableName = Some rows" "rows date = Some c"
    by (auto simp: recorded_def split: option.splits)
  show "recorded (finalWorld (transferData pgDsn mysqlDsn w)) tableName date = Some c"
  proof (cases rule: transferData_cases[of pgDsn mysqlDsn w, case_names OpenFails Runs])
    case (OpenFails line w1)
    then show ?thesis using a by (simp add: recorded_def)
  next
    case (Runs pgDb sqlDb w3)
    define rm where "rm = runMetrics queryCount insertToMySQL pgDb sqlDb (Format (Now w)) catalog w3"
    define K where "K = (\<lambda>w. Close pgDb (Close sqlDb (Printf DataTransferCompleted w)))"
    have r: "transferData pgDsn mysqlDsn w = andThen rm (\<lambda>w. Inr (K w))"
      using Runs(1) by (simp add: rm_def K_def)
    have K: "tables (K x) = tables x" for x by (simp add: K_def)
    have fin: "tables (finalWorld (transferData pgDsn mysqlDsn w)) = tables (finalWorld rm)"
      using andThen_finish(3)[OF r] K by auto
    have "\<exists>rows'. tables (finalWorld rm) tableName = Some rows' \<and> rows' date = Some c"
      using runMetrics_tables[OF countsLike_queryCount insertsLike_insertToMySQL, of pgDb sqlDb "Format (Now w)" catalog w3]
        rows Runs(4) unfolding rm_def by simp
    then show ?thesis by (auto simp: recorded_def fin)
  qed
qed

theorem duplicate_date_ends_the_process_witness:
  "tables recordedWorld ''lost_users_count'' = Some [19783 \<mapsto> 7] \<and>
   destFault recordedWorld (clock recordedWorld) (Sprintf ''lost_users_count'') 19783 8 = None \<and>
   (\<exists>w'. insertToMySQL 1 ''lost_users_count'' 19783 8 recordedWorld = Inl (1, w') \<and>
         tables w' = tables recordedWorld \<and>
         logged w' = [FailedToInsert (Sprintf ''lost_users_count'') ErrDuplicateEntry]) \<and>
   destFault lostConnectionWorld (clock lostConnectionWorld) (Sprintf ''lost_users_count'') 19783 8 =
     Some (ErrDriver ''connection lost'') \<and>
   (\<exists>w'. insertToMySQL 1 ''lost_users_count'' 19783 8 lostConnectionWorld = Inl (1, w') \<and>
         tables w' = tables lostConnectionWorld \<and>
         logged w' = [FailedToInsert (Sprintf ''lost_users_count'') (ErrDriver ''connection lost'')]) \<and>
   recorded recordedWorld ''lost_users_count'' 19783 = Some 7 \<and>
   recorded (finalWorld (transferData ''pg'' ''my'' recordedWorld)) ''lost_users_count'' 19783 = Some 7"
proof -
  have t: "tables recordedWorld ''lost_users_count'' = Some [19783 \<mapsto> 7]"
    by (simp add: world_eval exec_eval)
  have f: "destFault recordedWorld (clock recordedWorld) (Sprintf ''lost_users_count'') 19783 8 = None"
    by (simp add: world_eval)
  have g: "destFault lostConnectionWorld (clock lostConnectionWorld) (Sprintf ''lost_users_count'') 19783 8 =
     Some (ErrDriver ''connection lost'')"
    by (simp add: world_eval)
  have l: "logged recordedWorld = []" "logged lostConnectionWorld = []"
    by (simp_all add: world_eval)
  have rc: "recorded recordedWorld ''lost_users_count'' 19783 = Some 7"
    by (simp add: recorded_def t)
  show ?thesis
    using duplicate_date_ends_the_process[where w = recordedWorld and tableName = "''lost_users_count''"
          and rows = "[19783 \<mapsto> 7]" and date = 19783 and c = 7 and count = 8 and db = 1
          and pgDsn = "''pg''" and mysqlDsn = "''my''"]
      duplicate_date_ends_the_process[where w = lostConnectionWorld and tableName = "''lost_users_count''"
          and date = 19783 and count = 8 and db = 1 and err = "ErrDriver ''connection lost''"]
      t f g l rc
    by simp
qed

text \<open>
  A run on day 19783 into tables that hold the row of day 19783 already: the first
  insert is refused as a duplicate, the process exits with status 1 after the first
  metric, and the line it prints is the one of any failed insert.
\<close>

theorem duplicate_key_counterexample:
  "recorded recordedWorld ''active_machines_count_aleo'' 19783 = Some 7 \<and>
   Format (Now recordedWorld) = 19783 \<and>
   transferData ''pg'' ''my'' recordedWorld =
     Inl (1, finalWorld (transferData ''pg'' ''my'' recordedWorld)) \<and>
   logged (finalWorld (transferData ''pg'' ''my'' recordedWorld)) =
     [StartingDataTransfer, FailedToInsert (Sprintf ''active_machines_count_aleo'') ErrDuplicateEntry] \<and>
   queryRowCalls (finalWorld (transferData ''pg'' ''my'' recordedWorld)) =
     [(1709330400 * Second, AleoActiveMachineQuery)] \<and>
   tables (finalWorld (transferData ''pg'' ''my'' recordedWorld)) = tables recordedWorld"
  by (simp add: recordedWorld_run) (simp add: world_eval exec_eval recorded_def time_eval Format_def)

subsection \<open>C4: the loop and its exits\<close>

text \<open>
  C4, as the code has it. When the run of an iteration returns, the loop starts its next
  iteration in the world the run left, and everything in the run succeeded: both handles
  were opened, every query of the list was sent and answered with a row, every insert of
  the list was sent and met no fault of the destination, and every table of the list was
  there, had no row for the run's date before the run and has one after it. When the run
  ends the process, it does so with status 1, and that is the end of \<open>main\<close>. And any
  failure ends it: when a handle cannot be opened, or a query that was sent was not
  answered with a row, or an insert that was sent met a fault of the destination, or a
  table of the list is missing or has a row for the run's date already, the iteration
  ends the process with status 1. So the loop has a terminal state, reached from inside
  the run. With both data source names given, \<open>main\<close> is the loop. (The fifth query of
  \<^verbatim>\<open>src/main.go\<close> opens a quotation at line 119 that it does not close; against a source
  that answers that text with an error, every run that reaches it ends this way.)
\<close>

theorem pipeline_failure_ends_the_loop:
  "(\<forall>w'. loopBody fl w = Inr w' \<longrightarrow>
      forever fl w = forever fl w' \<and>
      openError w Postgres (flagPgDsn fl) = None \<and> openError w MySQL (flagMysqlDsn fl) = None \<and>
      map snd (issued w w') = map snd catalog \<and>
      (\<forall>c \<in> set (issued w w'). \<exists>n. source w (fst c) (snd c) = Row n) \<and>
      map (\<lambda>c. fst (snd c)) (written w w') = map (\<lambda>m. Sprintf (fst m)) catalog \<and>
      (\<forall>c \<in> set (written w w'). destFault w (fst c) (fst (snd c)) (fst (snd (snd c))) (snd (snd (snd c))) = None) \<and>
      (\<forall>tableName \<in> set (map fst catalog).
         tables w tableName \<noteq> None \<and>
         recorded w tableName (Format (Now (dueWorld fl w))) = None \<and>
         recorded w' tableName (Format (Now (dueWorld fl w))) \<noteq> None)) \<and>
   (\<forall>status w'. loopBody fl w = Inl (status, w') \<longrightarrow> status = 1 \<and> forever fl w = Some (1, w')) \<and>
   (openError w Postgres (flagPgDsn fl) \<noteq> None \<or> openError w MySQL (flagMysqlDsn fl) \<noteq> None \<or>
    (\<exists>c \<in> set (issued w (finalWorld (loopBody fl w))). \<forall>n. source w (fst c) (snd c) \<noteq> Row n) \<or>
    (\<exists>c \<in> set (written w (finalWorld (loopBody fl w))).
       destFault w (fst c) (fst (snd c)) (fst (snd (snd c))) (snd (snd (snd c))) \<noteq> None) \<or>
    (\<exists>tableName \<in> set (map fst catalog).
       tables w tableName = None \<or> recorded w tableName (Format (Now (dueWorld fl w))) \<noteq> None) \<longrightarrow>
      loopBody fl w = Inl (1, finalWorld (loopBody fl w)) \<and>
      forever fl w = Some (1, finalWorld (loopBody fl w))) \<and>
   (flagPgDsn fl \<noteq> [] \<and> flagMysqlDsn fl \<noteq> [] \<longrightarrow> main fl w = forever fl w)"
proof -
  have ret: "forever fl w = forever fl w' \<and>
      openError w Postgres (flagPgDsn fl) = None \<and> openError w MySQL (flagMysqlDsn fl) = None \<and>
      map snd (issued w w') = map snd catalog \<and>
      (\<forall>c \<in> set (issued w w'). \<exists>n. source w (fst c) (snd c) = Row n) \<and>
      map (\<lambda>c. fst (snd c)) (written w w') = map (\<lambda>m. Sprintf (fst m)) catalog \<and>
      (\<forall>c \<in> set (written w w'). destFault w (fst c) (fst (snd c)) (fst (snd (snd c))) (snd (snd (snd c))) = None) \<and>
      (\<forall>tableName \<in> set (map fst catalog).
         tables w tableName \<noteq> None \<and>
         recorded w tableName (Format (Now (dueWorld fl w))) = None \<and>
         recorded w' tableName (Format (Now (dueWorld fl w))) \<noteq> None)"
    if a: "loopBody fl w = Inr w'" for w'
  proof -
    have f: "forever fl w = forever fl w'"
      by (subst forever.simps) (simp add: a)
    have t: "transferData (flagPgDsn fl) (flagMysqlDsn fl) (dueWorld fl w) = Inr w'"
      using a by (simp add: loopBody_dueWorld)
    have rec: "recorded (dueWorld fl w) tb d = recorded w tb d" for tb d
      by (simp add: recorded_def)
    show ?thesis
      using transferData_returns[OF t] f by (simp add: issued_def written_def rec)
  qed
  have ex: "status = 1 \<and> forever fl w = Some (1, w')" if a: "loopBody fl w = Inl (status, w')" for status w'
  proof -
    have s: "status = 1"
      using a transferData_exit_status by (auto simp: loopBody_def Let_def)
    then have "forever fl w = Some (1, w')"
      by (subst forever.simps) (simp add: a)
    with s show ?thesis by simp
  qed
  have fail: "loopBody fl w = Inl (1, finalWorld (loopBody fl w)) \<and>
      forever fl w = Some (1, finalWorld (loopBody fl w))"
    if a: "openError w Postgres (flagPgDsn fl) \<noteq> None \<or> openError w MySQL (flagMysqlDsn fl) \<noteq> None \<or>
      (\<exists>c \<in> set (issued w (finalWorld (loopBody fl w))). \<forall>n. source w (fst c) (snd c) \<noteq> Row n) \<or>
      (\<exists>c \<in> set (written w (finalWorld (loopBody fl w))).
         destFault w (fst c) (fst (snd c)) (fst (snd (snd c))) (snd (snd (snd c))) \<noteq> None) \<or>
      (\<exists>tableName \<in> set (map fst catalog).
         tables w tableName = None \<or> recorded w tableName (Format (Now (dueWorld fl w))) \<noteq> None)"
  proof (cases "loopBody fl w")
    case (Inl e)
    obtain status w' where e: "e = (status, w')" by (cases e)
    show ?thesis using ex[of status w'] Inl e by simp
  next
    case (Inr w')
    note r = ret[OF Inr]
    have fw: "finalWorld (loopBody fl w) = w'" using Inr by simp
    have False
      using a r unfolding fw by fastforce
    then show ?thesis ..
  qed
  have m: "main fl w = forever fl w" if "flagPgDsn fl \<noteq> [] \<and> flagMysqlDsn fl \<noteq> []"
    using that by (simp add: main_def)
  show ?thesis
    using ret ex fail m by blast
qed

theorem pipeline_failure_ends_the_loop_witness:
  "loopBody someFlags quietWorld = Inr (finalWorld (loopBody someFlags quietWorld)) \<and>
   clock (finalWorld (loopBody someFlags quietWorld)) = 1709334010 * Second \<and>
   forever someFlags quietWorld = forever someFlags (finalWorld (loopBody someFlags quietWorld)) \<and>
   map snd (issued quietWorld (finalWorld (loopBody someFlags quietWorld))) = map snd catalog \<and>
   map (\<lambda>c. fst (snd c)) (written quietWorld (finalWorld (loopBody someFlags quietWorld))) =
     map (\<lambda>m. Sprintf (fst m)) catalog \<and>
   (1709334000 * Second, AleoActiveMachineQuery)
     \<in> set (issued failingSourceWorld (finalWorld (loopBody someFlags failingSourceWorld))) \<and>
   source failingSourceWorld (1709334000 * Second) AleoActiveMachineQuery = QueryFailed ''timeout'' \<and>
   loopBody someFlags failingSourceWorld = Inl (1, finalWorld (loopBody someFlags failingSourceWorld)) \<and>
   forever someFlags failingSourceWorld = Some (1, finalWorld (loopBody someFlags failingSourceWorld)) \<and>
   Format (Now (dueWorld someFlags recordedWorld)) = 19783 \<and>
   recorded recordedWorld ''active_machines_count_aleo'' 19783 = Some 7 \<and>
   loopBody someFlags recordedWorld = Inl (1, finalWorld (loopBody someFlags recordedWorld)) \<and>
   forever someFlags recordedWorld = Some (1, finalWorld (loopBody someFlags recordedWorld)) \<and>
   flagPgDsn someFlags = ''pg'' \<and> flagMysqlDsn someFlags = ''my'' \<and>
   main someFlags failingSourceWorld = forever someFlags failingSourceWorld"
proof -
  have ok: "loopBody someFlags quietWorld = Inr (finalWorld (loopBody someFlags quietWorld))"
    using quietWorld_loopBody(1) by auto
  have ret: "forever someFlags quietWorld = forever someFlags (finalWorld (loopBody someFlags quietWorld)) \<and>
     map snd (issued quietWorld (finalWorld (loopBody someFlags quietWorld))) = map snd catalog \<and>
     map (\<lambda>c. fst (snd c)) (written quietWorld (finalWorld (loopBody someFlags quietWorld))) =
       map (\<lambda>m. Sprintf (fst m)) catalog"
    using pipeline_failure_ends_the_loop[of someFlags quietWorld, THEN conjunct1, rule_format, OF ok]
    by simp
  have m: "(1709334000 * Second, AleoActiveMachineQuery)
     \<in> set (issued failingSourceWorld (finalWorld (loopBody someFlags failingSourceWorld)))"
    by (simp add: failingSourceWorld_loopBody issued_def) (simp add: world_eval)
  have s: "source failingSourceWorld (1709334000 * Second) AleoActiveMachineQuery = QueryFailed ''timeout''"
    by (simp add: world_eval)
  have "\<exists>c \<in> set (issued failingSourceWorld (finalWorld (loopBody someFlags failingSourceWorld))).
          \<forall>n. source failingSourceWorld (fst c) (snd c) \<noteq> Row n"
    using m s by (intro bexI[of _ "(1709334000 * Second, AleoActiveMachineQuery)"]) simp_all
  then have bad: "loopBody someFlags failingSourceWorld = Inl (1, finalWorld (loopBody someFlags failingSourceWorld)) \<and>
     forever someFlags failingSourceWorld = Some (1, finalWorld (loopBody someFlags failingSourceWorld))"
    using pipeline_failure_ends_the_loop[of someFlags failingSourceWorld, THEN conjunct2, THEN conjunct2, THEN conjunct1]
    by blast
  have "\<exists>tableName \<in> set (map fst catalog).
          tables recordedWorld tableName = None \<or>
          recorded recordedWorld tableName (Format (Now (dueWorld someFlags recordedWorld))) \<noteq> None"
    using recordedWorld_due by (intro bexI[of _ "''active_machines_count_aleo''"]) simp_all
  then have dup: "loopBody someFlags recordedWorld = Inl (1, finalWorld (loopBody someFlags recordedWorld)) \<and>
     forever someFlags recordedWorld = Some (1, finalWorld (loopBody someFlags recordedWorld))"
    using pipeline_failure_ends_the_loop[of someFlags recordedWorld, THEN conjunct2, THEN conjunct2, THEN conjunct1]
    by blast
  have fl: "flagPgDsn someFlags = ''pg''" "flagMysqlDsn someFlags = ''my''"
    by (simp_all add: someFlags_def)
  have mn: "main someFlags failingSourceWorld = forever someFlags failingSourceWorld"
    using pipeline_failure_ends_the_loop[of someFlags failingSourceWorld, THEN conjunct2, THEN conjunct2, THEN conjunct2]
      fl by simp
  show ?thesis
    using ok ret m s bad dup fl mn quietWorld_loopBody(2) recordedWorld_due(1,2) by blast
qed

text \<open>
  Started with both data source names at 22:00, \<open>main\<close> sleeps until 23:00, the first
  query fails, and the process has exited with status 1.
\<close>

theorem loop_counterexample:
  "main someFlags failingSourceWorld =
     Some (1, failingSourceWorld
       \<lparr>clock := 1709334001 * Second,
        queryRowCalls := [(1709334000 * Second, AleoActiveMachineQuery)],
        logged := [StartingDataTransfer, FailedToExecuteQuery AleoActiveMachineQuery (ErrDriver ''timeout'')],
        handles := [(0, Postgres), (1, MySQL)],
        nextHandle := 2\<rparr>)"
  by (simp add: main_def someFlags_def, subst forever.simps)
     (simp add: failingSourceWorld_loopBody[unfolded someFlags_def])

subsection \<open>C5: the handles at the end of a run\<close>

text \<open>
  C5 does not hold of the code. \<^verbatim>\<open>transferData\<close> defers \<^verbatim>\<open>pgDb.Close()\<close> and
  \<^verbatim>\<open>sqlDb.Close()\<close>, and deferred calls do not run when the process exits: after a failed
  query, and after a failed insert, the process ends with both handles open.
\<close>

theorem exit_leaves_handles_open:
  "handles failingSourceWorld = [] \<and>
   transferData ''pg'' ''my'' failingSourceWorld =
     Inl (1, finalWorld (transferData ''pg'' ''my'' failingSourceWorld)) \<and>
   handles (finalWorld (transferData ''pg'' ''my'' failingSourceWorld)) = [(0, Postgres), (1, MySQL)] \<and>
   handles recordedWorld = [] \<and>
   transferData ''pg'' ''my'' recordedWorld =
     Inl (1, finalWorld (transferData ''pg'' ''my'' recordedWorld)) \<and>
   handles (finalWorld (transferData ''pg'' ''my'' recordedWorld)) = [(0, Postgres), (1, MySQL)]"
  by (simp add: failingSourceWorld_run recordedWorld_run) (simp add: world_eval)

text \<open>A run that returns has closed both.\<close>

lemma return_closes_handles:
  "handles midnightWorld = [] \<and>
   transferData ''pg'' ''my'' midnightWorld = Inr (finalWorld (transferData ''pg'' ''my'' midnightWorld)) \<and>
   handles (finalWorld (transferData ''pg'' ''my'' midnightWorld)) = []"
proof -
  have "handles midnightWorld = []" by (simp add: world_eval)
  then show ?thesis using midnightWorld_run(4,5) by auto
qed

subsection \<open>C6: malformed execution times\<close>

text \<open>
  C6, as the code has it. \<^verbatim>\<open>parseExecutionTime\<close> has no error result, and it does not read
  the error of \<^verbatim>\<open>Sscanf\<close>: it returns the two operands as the scan left them. Two
  two-digit numbers come back as written, in range or not; when the scan fails at the
  first number the result is (0, 0); when it fails after the first number the result is
  that number and 0.
\<close>

theorem parseExecutionTime_keeps_what_was_scanned:
  "(0 \<le> h \<and> h \<le> 99 \<and> 0 \<le> m \<and> m \<le> 99 \<longrightarrow> parseExecutionTime (hhmm h m) = (h, m)) \<and>
   (\<forall>e. scanInt s = Inl e \<longrightarrow> parseExecutionTime s = (0, 0)) \<and>
   (\<forall>h' rest e. scanInt s = Inr (h', rest) \<and> snd (snd (Sscanf s (0, 0))) = Some e \<longrightarrow>
      parseExecutionTime s = (h', 0))"
proof (intro conjI allI impI)
  assume "0 \<le> h \<and> h \<le> 99 \<and> 0 \<le> m \<and> m \<le> 99"
  then show "parseExecutionTime (hhmm h m) = (h, m)"
    using parseExecutionTime_hhmm[of h m] by simp
next
  fix e assume "scanInt s = Inl e"
  then show "parseExecutionTime s = (0, 0)"
    by (simp add: parseExecutionTime_def Sscanf_def)
next
  fix h' rest e
  assume "scanInt s = Inr (h', rest) \<and> snd (snd (Sscanf s (0, 0))) = Some e"
  then show "parseExecutionTime s = (h', 0)"
    by (auto simp: parseExecutionTime_def Sscanf_def split: list.splits if_splits sum.splits)
qed

theorem parseExecutionTime_keeps_what_was_scanned_witness:
  "hhmm 25 99 = ''25:99'' \<and> parseExecutionTime ''25:99'' = (25, 99) \<and>
   scanInt ''abc'' = Inl ExpectedInteger \<and> parseExecutionTime ''abc'' = (0, 0) \<and>
   scanInt ''12'' = Inr (12, []) \<and> snd (snd (Sscanf ''12'' (0, 0))) = Some UnexpectedEOF \<and>
   parseExecutionTime ''12'' = (12, 0)"
proof -
  have a: "scanInt ''abc'' = Inl ExpectedInteger"
    by (simp add: scanInt_def scanNumber_def isDigit_def isSpace_def)
  have b: "scanInt ''12'' = Inr (12, [])"
    by (simp add: scanInt_def scanNumber_def isDigit_def isSpace_def decimal_def digitVal_def)
  have c: "snd (snd (Sscanf ''12'' (0, 0))) = Some UnexpectedEOF"
    by (simp add: Sscanf_def b)
  show ?thesis
    using parseExecutionTime_keeps_what_was_scanned[of 25 99 "''abc''"]
      parseExecutionTime_keeps_what_was_scanned[of 25 99 "''12''"] a b c
    by (simp add: hhmm_25_99)
qed

text \<open>
  \<^verbatim>\<open>25:99\<close> is returned as (25, 99), and the scan reports no error at all; \<^verbatim>\<open>abc\<close> is
  returned as (0, 0), and the scan's error is dropped.
\<close>

theorem parseExecutionTime_counterexample:
  "parseExecutionTime ''25:99'' = (25, 99) \<and> snd (snd (Sscanf ''25:99'' (0, 0))) = None \<and>
   parseExecutionTime ''abc'' = (0, 0) \<and> snd (snd (Sscanf ''abc'' (0, 0))) = Some ExpectedInteger"
  by (simp add: scan_eval)

subsection \<open>C7: missing data source names\<close>

text \<open>
  C7, as the code has it. In \<^verbatim>\<open>src/main.go\<close>, when either data source name is empty,
  \<open>main\<close> prints the message and the usage and ends the process with status 1, and does
  nothing else; when both are given it runs the first iteration of the loop. The older
  variant runs the first iteration of its loop whatever the names are.
\<close>

theorem missing_dsn_is_fatal:
  "(flagPgDsn fl = [] \<or> flagMysqlDsn fl = [] \<longrightarrow>
      main fl w = Some (1, w\<lparr>logged := logged w @ [DSNMustBeProvided, Usage]\<rparr>)) \<and>
   (flagPgDsn fl \<noteq> [] \<and> flagMysqlDsn fl \<noteq> [] \<longrightarrow>
      main fl w = (case loopBody fl w of Inl e \<Rightarrow> Some e | Inr w' \<Rightarrow> forever fl w')) \<and>
   old_main fl w = (case old_loopBody fl w of Inl e \<Rightarrow> Some e | Inr w' \<Rightarrow> old_forever fl w')"
proof (intro conjI impI)
  assume "flagPgDsn fl = [] \<or> flagMysqlDsn fl = []"
  then show "main fl w = Some (1, w\<lparr>logged := logged w @ [DSNMustBeProvided, Usage]\<rparr>)"
    by (auto simp: main_def Printf_def)
next
  assume "flagPgDsn fl \<noteq> [] \<and> flagMysqlDsn fl \<noteq> []"
  then have "main fl w = forever fl w" by (simp add: main_def)
  then show "main fl w = (case loopBody fl w of Inl e \<Rightarrow> Some e | Inr w' \<Rightarrow> forever fl w')"
    by (subst (asm) forever.simps) simp
next
  show "old_main fl w = (case old_loopBody fl w of Inl e \<Rightarrow> Some e | Inr w' \<Rightarrow> old_forever fl w')"
    unfolding old_main_def by (subst old_forever.simps) simp
qed

theorem missing_dsn_is_fatal_witness:
  "flagPgDsn noDsnFlags = [] \<and>
   main noDsnFlags failingSourceWorld =
     Some (1, failingSourceWorld\<lparr>logged := [DSNMustBeProvided, Usage]\<rparr>) \<and>
   flagPgDsn someFlags = ''pg'' \<and> flagMysqlDsn someFlags = ''my'' \<and>
   main someFlags failingSourceWorld = Some (1, finalWorld (loopBody someFlags failingSourceWorld))"
proof -
  have fl: "flagPgDsn noDsnFlags = []" "flagPgDsn someFlags = ''pg''" "flagMysqlDsn someFlags = ''my''"
    by (simp_all add: noDsnFlags_def someFlags_def)
  have l: "logged failingSourceWorld = []" by (simp add: world_eval)
  show ?thesis
    using missing_dsn_is_fatal[of noDsnFlags failingSourceWorld]
      missing_dsn_is_fatal[of someFlags failingSourceWorld] fl l
    by (simp add: failingSourceWorld_loopBody)
qed

text \<open>
  The older variant, started at 22:00 with both names empty: it sleeps until 23:00,
  transfers its four metrics, prints nothing, and is at the start of its loop again.
\<close>

theorem missing_dsn_counterexample:
  "flagPgDsn noDsnFlags = [] \<and> flagMysqlDsn noDsnFlags = [] \<and>
   old_loopBody noDsnFlags quietWorld = Inr (finalWorld (old_loopBody noDsnFlags quietWorld)) \<and>
   old_main noDsnFlags quietWorld = old_forever noDsnFlags (finalWorld (old_loopBody noDsnFlags quietWorld)) \<and>
   logged (finalWorld (old_loopBody noDsnFlags quietWorld)) = [] \<and>
   map (\<lambda>x. fst (snd x)) (execCalls (finalWorld (old_loopBody noDsnFlags quietWorld))) =
     map (\<lambda>m. Sprintf (fst m)) old_catalog \<and>
   clock quietWorld = 1709330400 * Second \<and>
   clock (finalWorld (old_loopBody noDsnFlags quietWorld)) = 1709334008 * Second"
proof -
  have ok: "old_loopBody noDsnFlags quietWorld = Inr (finalWorld (old_loopBody noDsnFlags quietWorld))"
    using quietWorld_old_loopBody(1) by auto
  have "old_main noDsnFlags quietWorld = old_forever noDsnFlags (finalWorld (old_loopBody noDsnFlags quietWorld))"
    unfolding old_main_def by (subst old_forever.simps, subst ok) simp
  moreover have "clock quietWorld = 1709330400 * Second" by (simp add: world_eval)
  ultimately show ?thesis
    using ok quietWorld_old_loopBody(2,3,4) by (simp add: noDsnFlags_def)
qed

subsection \<open>C8: one date per run\<close>

text \<open>
  C8. The date is read from the clock once, when \<^verbatim>\<open>transferData\<close> starts (opening the
  handles takes no time), and every statement sent to the destination during the run
  carries that date, however long the round trips take; so every row that is in the
  destination after the run and was not there before carries it.
\<close>

theorem one_date_per_run:
  "(\<forall>x \<in> set (written w (finalWorld (transferData pgDsn mysqlDsn w))). fst (snd (snd x)) = Format (Now w)) \<and>
   (\<forall>tableName date count.
      recorded (finalWorld (transferData pgDsn mysqlDsn w)) tableName date = Some count \<longrightarrow>
        date = Format (Now w) \<or> recorded w tableName date = Some count)"
proof (cases rule: transferData_cases[of pgDsn mysqlDsn w, case_names OpenFails Runs])
  case (OpenFails line w1)
  then show ?thesis by (simp add: written_def recorded_def)
next
  case (Runs pgDb sqlDb w3)
  define today where "today = Format (Now w)"
  define rm where "rm = runMetrics queryCount insertToMySQL pgDb sqlDb today catalog w3"
  define K where "K = (\<lambda>w. Close pgDb (Close sqlDb (Printf DataTransferCompleted w)))"
  have r: "transferData pgDsn mysqlDsn w = andThen rm (\<lambda>w. Inr (K w))"
    using Runs(1) by (simp add: rm_def K_def today_def)
  have K: "execCalls (K x) = execCalls x" "tables (K x) = tables x" for x
    by (simp_all add: K_def)
  have fin: "execCalls (finalWorld (transferData pgDsn mysqlDsn w)) = execCalls (finalWorld rm)"
    "tables (finalWorld (transferData pgDsn mysqlDsn w)) = tables (finalWorld rm)"
    using andThen_finish(3)[OF r] K by auto
  from runMetrics_execCalls[OF countsLike_queryCount insertsLike_insertToMySQL, of pgDb sqlDb today catalog w3]
  obtain new where new: "execCalls (finalWorld rm) = execCalls w3 @ new"
    "\<forall>x \<in> set new. fst (snd (snd x)) = today"
    unfolding rm_def by blast
  have wr: "written w (finalWorld (transferData pgDsn mysqlDsn w)) = new"
    using fin(1) new(1) Runs(3) by (simp add: written_def)
  have tb: "\<forall>tb rows' d c. tables (finalWorld rm) tb = Some rows' \<and> rows' d = Some c \<longrightarrow>
            d = today \<or> (\<exists>rows. tables w3 tb = Some rows \<and> rows d = Some c)"
    using runMetrics_tables[OF countsLike_queryCount insertsLike_insertToMySQL, of pgDb sqlDb today catalog w3]
    unfolding rm_def by blast
  have rec: "date = today \<or> recorded w tableName date = Some count"
    if "recorded (finalWorld (transferData pgDsn mysqlDsn w)) tableName date = Some count"
    for tableName date count
  proof -
    from that obtain rows' where "tables (finalWorld rm) tableName = Some rows'" "rows' date = Some count"
      by (auto simp: recorded_def fin(2) split: option.splits)
    with tb have "date = today \<or> (\<exists>rows. tables w3 tableName = Some rows \<and> rows date = Some count)"
      by blast
    then show ?thesis using Runs(4) by (auto simp: recorded_def)
  qed
  show ?thesis
    unfolding wr today_def[symmetric]
    using new(2) rec by blast
qed

text \<open>
  A run that starts at 23:59:59 on day 19783 and ends on day 19784 sends five
  statements, all dated 19783; the rows it adds are rows of day 19783.
\<close>

theorem one_date_per_run_witness:
  "Format (Now midnightWorld) = 19783 \<and>
   Format (Now (finalWorld (transferData ''pg'' ''my'' midnightWorld))) = 19784 \<and>
   length (written midnightWorld (finalWorld (transferData ''pg'' ''my'' midnightWorld))) = 5 \<and>
   list_all (\<lambda>x. fst (snd (snd x)) = 19783)
     (written midnightWorld (finalWorld (transferData ''pg'' ''my'' midnightWorld))) \<and>
   recorded midnightWorld ''lost_users_count'' 19783 = None \<and>
   recorded (finalWorld (transferData ''pg'' ''my'' midnightWorld)) ''lost_users_count'' 19783 = Some 7 \<and>
   recorded (finalWorld (transferData ''pg'' ''my'' midnightWorld)) ''lost_users_count'' 19784 = None"
proof -
  have today: "Format (Now midnightWorld) = 19783"
    by (simp add: world_eval time_eval Format_def)
  have len: "length (written midnightWorld (finalWorld (transferData ''pg'' ''my'' midnightWorld))) = 5"
    by (simp add: written_def midnightWorld_run(1)) (simp add: world_eval)
  have "\<forall>x \<in> set (written midnightWorld (finalWorld (transferData ''pg'' ''my'' midnightWorld))).
          fst (snd (snd x)) = 19783"
    using one_date_per_run[of midnightWorld "''pg''" "''my''"] today by simp
  then show ?thesis
    using today len midnightWorld_run(3) midnightWorld_rows by (simp add: list_all_iff)
qed

subsection \<open>C9: no row, or a NULL\<close>

text \<open>
  C9, in both variants. When the source has no row for the query, or a NULL in place
  of the integer, \<^verbatim>\<open>queryCount\<close> does not return: it prints the error (\<^verbatim>\<open>sql.ErrNoRows\<close>, or
  the conversion error) and ends the process with status 1. It never returns a count
  in that case, zero or other; nothing is sent to the destination.
\<close>

theorem no_row_or_null_is_a_failure:
  "(source w (clock w) query = NoRow \<longrightarrow>
      queryCount db query w =
        Inl (1, w\<lparr>clock := clock w + roundTrip w (clock w),
                  queryRowCalls := queryRowCalls w @ [(clock w, query)],
                  logged := logged w @ [FailedToExecuteQuery query ErrNoRows]\<rparr>) \<and>
      old_queryCount db query w =
        Inl (1, w\<lparr>clock := clock w + roundTrip w (clock w),
                  queryRowCalls := queryRowCalls w @ [(clock w, query)],
                  logged := logged w @ [FailedToExecuteQueryOld ErrNoRows]\<rparr>)) \<and>
   (source w (clock w) query = NullValue \<longrightarrow>
      queryCount db query w =
        Inl (1, w\<lparr>clock := clock w + roundTrip w (clock w),
                  queryRowCalls := queryRowCalls w @ [(clock w, query)],
                  logged := logged w @ [FailedToExecuteQuery query ErrConvertNull]\<rparr>) \<and>
      old_queryCount db query w =
        Inl (1, w\<lparr>clock := clock w + roundTrip w (clock w),
                  queryRowCalls := queryRowCalls w @ [(clock w, query)],
                  logged := logged w @ [FailedToExecuteQueryOld ErrConvertNull]\<rparr>)) \<and>
   (source w (clock w) query = NoRow \<or> source w (clock w) query = NullValue \<longrightarrow>
      (\<forall>count w'. queryCount db query w \<noteq> Inr (count, w') \<and> old_queryCount db query w \<noteq> Inr (count, w')))"
  by (auto simp: queryCount_def old_queryCount_def QueryRowScan_def Let_def Exit_def Fatalf_def Printf_def)

theorem no_row_or_null_is_a_failure_witness:
  "source emptySourceWorld (clock emptySourceWorld) lostUsersQuery = NoRow \<and>
   queryCount 0 lostUsersQuery emptySourceWorld =
     Inl (1, emptySourceWorld\<lparr>clock := 1709330401 * Second,
               queryRowCalls := [(1709330400 * Second, lostUsersQuery)],
               logged := [FailedToExecuteQuery lostUsersQuery ErrNoRows]\<rparr>) \<and>
   source nullSourceWorld (clock nullSourceWorld) old_lostUsersQuery = NullValue \<and>
   old_queryCount 0 old_lostUsersQuery nullSourceWorld =
     Inl (1, nullSourceWorld\<lparr>clock := 1709330401 * Second,
               queryRowCalls := [(1709330400 * Second, old_lostUsersQuery)],
               logged := [FailedToExecuteQueryOld ErrConvertNull]\<rparr>)"
proof -
  have a: "source emptySourceWorld (clock emptySourceWorld) lostUsersQuery = NoRow"
    "source nullSourceWorld (clock nullSourceWorld) old_lostUsersQuery = NullValue"
    by (simp_all add: world_eval)
  have b: "clock emptySourceWorld = 1709330400 * Second" "roundTrip emptySourceWorld t = Second"
    "queryRowCalls emptySourceWorld = []" "logged emptySourceWorld = []"
    "clock nullSourceWorld = 1709330400 * Second" "roundTrip nullSourceWorld t = Second"
    "queryRowCalls nullSourceWorld = []" "logged nullSourceWorld = []" for t
    by (simp_all add: world_eval)
  show ?thesis
    using no_row_or_null_is_a_failure[of emptySourceWorld lostUsersQuery 0]
      no_row_or_null_is_a_failure[of nullSourceWorld old_lostUsersQuery 0] a
    by (simp add: b Second_def)
qed

subsection \<open>C10: the two identical queries of the older variant\<close>

text \<open>
  C10, as the code has it. In the older variant the query for \<^verbatim>\<open>machines_count\<close> and the
  query for \<^verbatim>\<open>active_machines_count\<close> are the same text. It is sent to the source twice,
  at two instants of the run, with an insert in between. In every run in which both
  metrics succeed (each of the two tables had no row for the run's date before the run
  and has one after it), however the run ends afterwards, when the source gave the same
  answer at those two instants the two rows hold equal counts, the count the source
  answered.
\<close>

theorem identical_queries_equal_counts:
  "old_machineQuery = old_activeMachineQuery \<and>
   (recorded w ''machines_count'' (Format (Now w)) = None \<and>
    recorded (finalWorld (old_transferData pgDsn mysqlDsn w)) ''machines_count'' (Format (Now w)) = Some c1 \<and>
    recorded w ''active_machines_count'' (Format (Now w)) = None \<and>
    recorded (finalWorld (old_transferData pgDsn mysqlDsn w)) ''active_machines_count'' (Format (Now w)) = Some c2 \<and>
    map fst (take 2 (issued w (finalWorld (old_transferData pgDsn mysqlDsn w)))) = [t1, t2] \<and>
    source w t1 old_machineQuery = source w t2 old_activeMachineQuery \<longrightarrow>
      c1 = c2 \<and> source w t1 old_machineQuery = Row c1)"
proof (rule conjI; (rule impI)?)
  show "old_machineQuery = old_activeMachineQuery"
    by (simp add: old_machineQuery_def old_activeMachineQuery_def)
next
  define today where "today = Format (Now w)"
  define r where "r = old_transferData pgDsn mysqlDsn w"
  assume "recorded w ''machines_count'' (Format (Now w)) = None \<and>
    recorded (finalWorld (old_transferData pgDsn mysqlDsn w)) ''machines_count'' (Format (Now w)) = Some c1 \<and>
    recorded w ''active_machines_count'' (Format (Now w)) = None \<and>
    recorded (finalWorld (old_transferData pgDsn mysqlDsn w)) ''active_machines_count'' (Format (Now w)) = Some c2 \<and>
    map fst (take 2 (issued w (finalWorld (old_transferData pgDsn mysqlDsn w)))) = [t1, t2] \<and>
    source w t1 old_machineQuery = source w t2 old_activeMachineQuery"
  then have b1: "recorded w ''machines_count'' today = None"
    and a1: "recorded (finalWorld r) ''machines_count'' today = Some c1"
    and b2: "recorded w ''active_machines_count'' today = None"
    and a2: "recorded (finalWorld r) ''active_machines_count'' today = Some c2"
    and ts: "map fst (take 2 (issued w (finalWorld r))) = [t1, t2]"
    and eq: "source w t1 old_machineQuery = source w t2 old_activeMachineQuery"
    by (simp_all add: today_def r_def)
  note qc = countsLike_old_queryCount and ins = insertsLike_old_insertToMySQL
  show "c1 = c2 \<and> source w t1 old_machineQuery = Row c1"
  proof (cases rule: old_transferData_cases[of pgDsn mysqlDsn w, case_names OpenFails Runs])
    case (OpenFails line w1)
    then have "recorded (finalWorld r) ''machines_count'' today = recorded w ''machines_count'' today"
      by (simp add: r_def recorded_def)
    with a1 b1 show ?thesis by simp
  next
    case (Runs pgDb sqlDb w3)
    define rest where "rest = [(''lost_users_count'', old_lostUsersQuery),
      (''active_channel_machines_count'', old_activeMachinesChannelQuery)]"
    define rm where "rm = runMetrics old_queryCount old_insertToMySQL pgDb sqlDb today
      ((''machines_count'', old_machineQuery) # (''active_machines_count'', old_activeMachineQuery) # rest) w3"
    define K where "K = (\<lambda>w. Close pgDb (Close sqlDb w))"
    have rK: "r = andThen rm (\<lambda>w. Inr (K w))"
      using Runs(1) by (simp add: rm_def K_def today_def old_catalog_def rest_def r_def)
    have K: "queryRowCalls (K x) = queryRowCalls x" "tables (K x) = tables x" for x
      by (simp_all add: K_def)
    have fin: "queryRowCalls (finalWorld r) = queryRowCalls (finalWorld rm)"
      "tables (finalWorld r) = tables (finalWorld rm)"
      using andThen_finish(3)[OF rK] K by auto
    have rec: "recorded (finalWorld r) tb d = recorded (finalWorld rm) tb d"
      "recorded w3 tb d = recorded w tb d" for tb d
      using fin(2) Runs(4) by (simp_all add: recorded_def)
    have fw: "finalWorld rm = finalWorld (runMetrics old_queryCount old_insertToMySQL pgDb sqlDb today
      ((''machines_count'', old_machineQuery) # (''active_machines_count'', old_activeMachineQuery) # rest) w3)"
      by (simp add: rm_def)
    have ne: "''machines_count'' \<noteq> ''active_machines_count''" by simp
    from runMetrics_first_two[OF qc ins fw ne, of c1 c2] a1 a2 b1 b2 rec
    obtain u1 u2 new where new:
      "queryRowCalls (finalWorld rm) = queryRowCalls w3 @ (u1, old_machineQuery) # (u2, old_activeMachineQuery) # new"
      "source w3 u1 old_machineQuery = Row c1" "source w3 u2 old_activeMachineQuery = Row c2"
      by auto
    have "map fst (take 2 (issued w (finalWorld r))) = [u1, u2]"
      using new(1) fin(1) Runs(2) by (simp add: issued_def)
    with ts have t: "t1 = u1" "t2 = u2" by simp_all
    show ?thesis
      using new(2,3) t eq Runs(5) by simp
  qed
qed

theorem identical_queries_equal_counts_witness:
  "Format (Now lostUsersFailWorld) = 19783 \<and>
   recorded lostUsersFailWorld ''machines_count'' 19783 = None \<and>
   recorded (finalWorld (old_transferData ''pg'' ''my'' lostUsersFailWorld)) ''machines_count'' 19783 = Some 7 \<and>
   recorded lostUsersFailWorld ''active_machines_count'' 19783 = None \<and>
   recorded (finalWorld (old_transferData ''pg'' ''my'' lostUsersFailWorld)) ''active_machines_count'' 19783 = Some 7 \<and>
   map fst (take 2 (issued lostUsersFailWorld (finalWorld (old_transferData ''pg'' ''my'' lostUsersFailWorld)))) =
     [1709330400 * Second, 1709330402 * Second] \<and>
   source lostUsersFailWorld (1709330400 * Second) old_machineQuery =
     source lostUsersFailWorld (1709330402 * Second) old_activeMachineQuery \<and>
   old_transferData ''pg'' ''my'' lostUsersFailWorld =
     Inl (1, finalWorld (old_transferData ''pg'' ''my'' lostUsersFailWorld)) \<and>
   last (queryRowCalls (finalWorld (old_transferData ''pg'' ''my'' lostUsersFailWorld))) =
     (1709330404 * Second, old_lostUsersQuery) \<and>
   source lostUsersFailWorld (1709330400 * Second) old_machineQuery = Row 7"
proof -
  define fw where "fw = finalWorld (old_transferData ''pg'' ''my'' lostUsersFailWorld)"
  have r: "recorded fw ''machines_count'' 19783 = Some 7" "recorded fw ''active_machines_count'' 19783 = Some 7"
    by (simp_all add: fw_def lostUsersFailWorld_old_run recorded_def)
  have ts: "map fst (take 2 (issued lostUsersFailWorld fw)) = [1709330400 * Second, 1709330402 * Second]"
    by (simp add: fw_def lostUsersFailWorld_old_run issued_def lostUsersFailWorld_facts)
  have src: "source lostUsersFailWorld (1709330400 * Second) old_machineQuery =
     source lostUsersFailWorld (1709330402 * Second) old_activeMachineQuery"
    by (simp add: lostUsersFailWorld_facts)
  have ex: "old_transferData ''pg'' ''my'' lostUsersFailWorld = Inl (1, fw)"
    "last (queryRowCalls fw) = (1709330404 * Second, old_lostUsersQuery)"
    by (simp_all add: fw_def lostUsersFailWorld_old_run)
  have "source lostUsersFailWorld (1709330400 * Second) old_machineQuery = Row 7"
    using identical_queries_equal_counts[where w = lostUsersFailWorld and pgDsn = "''pg''" and mysqlDsn = "''my''"
        and ?c1.0 = 7 and ?c2.0 = 7 and ?t1.0 = "1709330400 * Second" and ?t2.0 = "1709330402 * Second",
        THEN conjunct2]
      r ts src lostUsersFailWorld_facts(7,8,9) unfolding fw_def by simp
  then show ?thesis
    unfolding fw_def[symmetric]
    using r ts src ex lostUsersFailWorld_facts(7,8,9) by blast
qed

text \<open>
  A source whose count goes from 5 to 6 between the two queries: the run returns, and
  the two tables hold 5 and 6 for the same date.
\<close>

theorem equal_counts_counterexample:
  "old_machineQuery = old_activeMachineQuery \<and>
   Format (Now driftingSourceWorld) = 19783 \<and>
   old_transferData ''pg'' ''my'' driftingSourceWorld =
     Inr (finalWorld (old_transferData ''pg'' ''my'' driftingSourceWorld)) \<and>
   recorded (finalWorld (old_transferData ''pg'' ''my'' driftingSourceWorld)) ''machines_count'' 19783 = Some 5 \<and>
   recorded (finalWorld (old_transferData ''pg'' ''my'' driftingSourceWorld)) ''active_machines_count'' 19783 = Some 6"
proof -
  have "old_machineQuery = old_activeMachineQuery"
    by (simp add: old_machineQuery_def old_activeMachineQuery_def)
  moreover have "Format (Now driftingSourceWorld) = 19783"
    by (simp add: world_eval time_eval Format_def)
  moreover have "old_transferData ''pg'' ''my'' driftingSourceWorld =
     Inr (finalWorld (old_transferData ''pg'' ''my'' driftingSourceWorld))"
    using driftingSourceWorld_old_run(1) by auto
  ultimately show ?thesis using driftingSourceWorld_old_run(2,3) by simp
qed

end
